theory Spec2Isabelle
  imports Main "HOL-Library.Word" "HOL-Library.Multiset"
begin

section \<open>Data model\<close>

text \<open>A Go \<open>error\<close> value is modelled by its message; \<open>nil\<close> is \<open>None\<close> of
  \<open>error option\<close>.\<close>

datatype error = Errorf_error string

fun Error_string :: "error \<Rightarrow> string" where
  "Error_string (Errorf_error m) = m"

text \<open>\<open>rls.Release\<close> (Helm's protobuf type): the fields the repository reads or writes.
  \<open>Values\<close> stands for the release's configuration (\<open>Config\<close> in Go), a
  key/value map that is looked up and rewritten by key.\<close>

record Release =
  Name :: string
  Namespace :: string
  Version :: "32 word"
  Values :: "string \<rightharpoonup> string"

text \<open>Releases travel as \<open>*rls.Release\<close>: an address into a heap of releases. The
  pointers of a batch are taken not to be \<open>nil\<close>.\<close>

type_synonym addr = nat
type_synonym heap = "addr \<Rightarrow> Release"

text \<open>The state record, and the parts of the configuration that the code reads. A field
  whose name Go uses in two structs carries the name of its struct in front.\<close>

record Info =
  ReleaseFilename :: string
  ReleaseName :: string
  ReleaseVersion :: "32 word"

record BackendConfig =
  StoragePath :: string

record ExportConfig =
  Export_ReleaseName :: string

record ImportConfig =
  Import_Namespace :: string
  ExcludeNamespaces :: "string list"
  Import_Values :: "string \<rightharpoonup> string"
  Target :: string
  Import_NewStoragePath :: string
  Import_Force :: bool

record TransferConfig =
  Transfer_NewStoragePath :: string
  Transfer_Force :: bool

record Config =
  Backend :: BackendConfig
  Export :: ExportConfig
  Import :: ImportConfig
  Transfer :: TransferConfig
  DryRun :: bool
  VerboseMode :: bool

section \<open>Effects\<close>

text \<open>Everything a function does besides returning is an event appended to the world's
  \<open>events\<close>: the logrus calls, \<open>fmt.Printf\<close>, the calls of the storage backend and
  the calls of the Helm client's \<open>Install\<close>.\<close>

datatype event =
    Debugf string
  | Infof string
  | Warnf string
  | Errorf string
  | Fatalf string
  | Printf string
  | BackendList string
  | BackendRead string
  | BackendWrite string string
  | BackendDelete string
  | HelmInstall Release

text \<open>The world: the heap of releases, the backend's store, the cluster behind the Helm
  client, and the events so far.\<close>

record ('b, 'c) World =
  heap :: heap
  store :: 'b
  cluster :: 'c
  events :: "event list"

definition emit :: "event \<Rightarrow> ('b, 'c) World \<Rightarrow> ('b, 'c) World" where
  "emit e w = w\<lparr>events := events w @ [e]\<rparr>"

text \<open>How a call ends: it returns, it blocks for ever on a channel, it panics on a
  nil pointer, or \<open>log.Fatalf\<close> ends the process.\<close>

datatype 'a outcome = Returns 'a | Blocks | Panics | Exits

section \<open>Goroutines\<close>

text \<open>A function that starts goroutines is a machine. Its state holds where the function
  is and what each goroutine has still to do; a step is a step of the function or of one
  goroutine, atomic; a schedule, a list of choices, says who takes the next step, so
  that each interleaving of the steps is the run of a schedule. A choice whose step
  cannot be taken (there is no such goroutine, the channel is full) leaves the state as
  it is. Goroutines that have the same steps left are told apart by their place in a
  list only.\<close>

definition remove_at :: "nat \<Rightarrow> 'a list \<Rightarrow> 'a list" where
  "remove_at k xs = take k xs @ drop (Suc k) xs"

text \<open>The goroutines of \<open>State.StoredReleases\<close>. Each calls \<open>ReadRelease\<close> on its file name
  and ends if that fails; otherwise it runs \<open>*ret = append(*ret, r)\<close>, which loads the
  slice and then stores the slice extended, with no lock: another goroutine can store
  between the two. \<open>pending\<close> are the file names of the goroutines that have not called
  \<open>ReadRelease\<close> yet, \<open>decoded\<close> the releases of those that are about to load, and
  \<open>loaded\<close> the slice loaded and the release of those that are about to store.\<close>

datatype reader = Decode nat | Load nat | Store nat

record ('b, 'c) reading =
  ret :: "Release list"
  pending :: "string list"
  decoded :: "Release list"
  loaded :: "(Release list \<times> Release) list"
  reading_world :: "('b, 'c) World"

text \<open>The goroutines of the two \<open>deployReleases\<close>. \<open>started\<close> are the releases of the
  goroutines that have not called \<open>deployRelease\<close> yet, \<open>ending\<close> counts those that have
  and are about to run their deferred call (a receive from \<open>sem\<close>, or \<open>wg.Done()\<close>). \<open>sem\<close>
  is the number of values in the channel, \<open>wg\<close> the counter of the wait group. The
  function is at the head of its loop with the releases left (\<open>Looping\<close>), at the send
  on \<open>sem\<close> that precedes the start of a goroutine (\<open>Sending\<close>), in the last loop, which
  fills \<open>sem\<close>, after so many sends (\<open>Filling\<close>), at \<open>wg.Wait()\<close> (\<open>Waiting\<close>), or it has
  returned or panicked.\<close>

datatype deployer = Main | Body nat | Deferred

datatype position =
    Looping "addr list"
  | Sending addr "addr list"
  | Filling nat
  | Waiting
  | Returned
  | Panicked

record ('b, 'c) deploying =
  pos :: position
  sem :: nat
  wg :: nat
  started :: "addr list"
  ending :: nat
  world :: "('b, 'c) World"

section \<open>What the packages under verification import\<close>

text \<open>\<open>backend.Backend\<close> is an interface; an implementation is a record of operations
  on a store of type \<open>'b\<close>.\<close>

record 'b Backend =
  List :: "'b \<Rightarrow> string \<Rightarrow> (error + string list) \<times> 'b"
  Read :: "'b \<Rightarrow> string \<Rightarrow> (error + string) \<times> 'b"
  Write :: "'b \<Rightarrow> string \<Rightarrow> string \<Rightarrow> error option \<times> 'b"
  Delete :: "'b \<Rightarrow> string \<Rightarrow> error option \<times> 'b"
  PathSeparator :: string

text \<open>\<open>lmhelm.Client\<close>: \<open>Install\<close> acts on a cluster of type \<open>'c\<close>.\<close>

record 'c Client =
  Install :: "'c \<Rightarrow> Release \<Rightarrow> error option \<times> 'c"

text \<open>The functions and constants of the packages \<open>release\<close>, \<open>lmhelm\<close>,
  \<open>constants\<close>, \<open>encoding/json\<close> and \<open>regexp\<close>, and the methods of \<open>Info\<close> and
  \<open>State\<close>, that the source calls and does not define: parameters of the model.
  \<open>release.UpdateValue\<close> takes and returns a pointer, so it acts on the heap.
  \<open>json_Unmarshal f\<close> is the \<open>Info\<close> that \<open>json.Unmarshal(f, &Info{})\<close> leaves behind,
  with its error. \<open>range_map n m\<close> lists the entries of the Go map \<open>m\<close> in the order in which the
  \<open>n\<close>-th \<open>range\<close> statement over it visits them (Go fixes no order).\<close>

record Externals =
  release_UpdateValue :: "heap \<Rightarrow> addr \<Rightarrow> string \<Rightarrow> string \<Rightarrow> (error + addr) \<times> heap"
  release_ToString :: "Release \<Rightarrow> bool \<Rightarrow> string"
  release_Filename :: "Release \<Rightarrow> string"
  release_FromFile :: "string \<Rightarrow> error + Release"
  lmhelm_ErrorReleaseExists :: "error \<Rightarrow> bool"
  constants_ValueStoragePath :: string
  constants_ManagerStateFilename :: string
  constants_ReleaseExtension :: string
  constants_ImportMaxThreads :: nat
  Info_Serialize :: "Info \<Rightarrow> error + string"
  json_Unmarshal :: "string \<Rightarrow> Info \<times> error option"
  regexp_Compile :: "string \<Rightarrow> error + (string \<Rightarrow> bool)"
  State_Name :: string
  range_map :: "nat \<Rightarrow> (string \<rightharpoonup> string) \<Rightarrow> (string \<times> string) list"

section \<open>Package state\<close>

text \<open>The struct \<open>State\<close>. The field \<open>Info\<close> is the state record last read, \<open>nil\<close> when
  there is none: the packages \<open>importt\<close> and \<open>transfer\<close> read it as \<open>t.State.Info\<close>.\<close>

record 'b State =
  State_Backend :: "'b Backend"
  State_Config :: Config
  init :: bool
  Info :: "Info option"

definition remoteFilePath :: "'b State \<Rightarrow> string \<Rightarrow> string" where
  "remoteFilePath s name =
     (if StoragePath (Backend (State_Config s)) = PathSeparator (State_Backend s) then name
      else StoragePath (Backend (State_Config s)) @ PathSeparator (State_Backend s) @ name)"

definition Path :: "Externals \<Rightarrow> 'b State \<Rightarrow> string" where
  "Path ext s = remoteFilePath s (constants_ManagerStateFilename ext)"

text \<open>A call of the backend is an event, and leaves the store the backend returns.\<close>

definition Backend_List ::
  "'b State \<Rightarrow> string \<Rightarrow> ('b, 'c) World \<Rightarrow> (error + string list) \<times> ('b, 'c) World" where
  "Backend_List s path w =
     (case List (State_Backend s) (store w) path of
        (r, b) \<Rightarrow> (r, emit (BackendList path) (w\<lparr>store := b\<rparr>)))"

definition Backend_Read ::
  "'b State \<Rightarrow> string \<Rightarrow> ('b, 'c) World \<Rightarrow> (error + string) \<times> ('b, 'c) World" where
  "Backend_Read s path w =
     (case Read (State_Backend s) (store w) path of
        (r, b) \<Rightarrow> (r, emit (BackendRead path) (w\<lparr>store := b\<rparr>)))"

definition Backend_Write ::
  "'b State \<Rightarrow> string \<Rightarrow> string \<Rightarrow> ('b, 'c) World \<Rightarrow> error option \<times> ('b, 'c) World" where
  "Backend_Write s path f w =
     (case Write (State_Backend s) (store w) path f of
        (r, b) \<Rightarrow> (r, emit (BackendWrite path f) (w\<lparr>store := b\<rparr>)))"

definition Backend_Delete ::
  "'b State \<Rightarrow> string \<Rightarrow> ('b, 'c) World \<Rightarrow> error option \<times> ('b, 'c) World" where
  "Backend_Delete s path w =
     (case Delete (State_Backend s) (store w) path of
        (r, b) \<Rightarrow> (r, emit (BackendDelete path) (w\<lparr>store := b\<rparr>)))"

text \<open>\<open>read\<close> returns the pair \<open>(i, err)\<close> of Go: both are set when the file is there and
  does not decode.\<close>

definition State_read ::
  "Externals \<Rightarrow> 'b State \<Rightarrow> ('b, 'c) World \<Rightarrow> (Info option \<times> error option) \<times> ('b, 'c) World" where
  "State_read ext s w =
     (let path = Path ext s;
          w1 = emit (Debugf (''Reading state from '' @ path)) w
      in case Backend_Read s path w1 of
           (Inl err, w2) \<Rightarrow> ((None, Some err), w2)
         | (Inr f, w2) \<Rightarrow> (case json_Unmarshal ext f of (i, err) \<Rightarrow> ((Some i, err), w2)))"

definition State_write ::
  "Externals \<Rightarrow> 'b State \<Rightarrow> Info \<Rightarrow> ('b, 'c) World \<Rightarrow> error option \<times> ('b, 'c) World" where
  "State_write ext s i w =
     (case Info_Serialize ext i of
        Inl err \<Rightarrow> (Some err, w)
      | Inr f \<Rightarrow> Backend_Write s (Path ext s) f w)"

definition State_delete ::
  "Externals \<Rightarrow> 'b State \<Rightarrow> ('b, 'c) World \<Rightarrow> error option \<times> ('b, 'c) World" where
  "State_delete ext s w =
     (let path = Path ext s
      in Backend_Delete s path (emit (Debugf (''Removing remote state '' @ path)) w))"

definition isManagerRelease :: "'b State \<Rightarrow> string \<Rightarrow> bool" where
  "isManagerRelease s name =
     (if Export_ReleaseName (Export (State_Config s)) \<noteq> ''''
         \<and> name = Export_ReleaseName (Export (State_Config s))
      then True else False)"

text \<open>\<open>updateState\<close>: the candidate \<open>i\<close> is a pointer that is not \<open>nil\<close>, so
  \<open>reflect.DeepEqual(i, oldInfo)\<close> is \<open>oldInfo = Some i\<close>. The function changes \<open>s.init\<close>,
  so it returns the state.\<close>

definition State_updateState ::
  "Externals \<Rightarrow> 'b State \<Rightarrow> Info \<Rightarrow> ('b, 'c) World
     \<Rightarrow> error option \<times> 'b State \<times> ('b, 'c) World" where
  "State_updateState ext s i w =
     (case (if init s
            then (case State_read ext s w of
                    ((oldInfo, e), w1) \<Rightarrow>
                      (case (case e of
                               Some err \<Rightarrow>
                                 (True, emit (Warnf (''Error reading remote state: '' @ Error_string err)) w1)
                             | None \<Rightarrow> (False, w1)) of
                         (update, w2) \<Rightarrow>
                           ((if oldInfo \<noteq> Some i then True else update), s, w2)))
            else (True, s\<lparr>init := True\<rparr>, w)) of
        (update, s', w') \<Rightarrow>
          if update \<or> \<not> init s'
          then (case State_write ext s' i
                       (emit (Debugf (''Updating state '' @ ReleaseName i @ ''.'')) w') of
                  (err, w'') \<Rightarrow> (err, s', w''))
          else (None, s', w'))"

text \<open>\<open>Update\<close> only reads the releases it is given, so it takes them by value.\<close>

fun State_Update_loop ::
  "Externals \<Rightarrow> 'b State \<Rightarrow> Release list \<Rightarrow> ('b, 'c) World
     \<Rightarrow> error option \<times> 'b State \<times> ('b, 'c) World" where
  "State_Update_loop ext s [] w =
     (case State_delete ext s
             (emit (Debugf (''Release manager release '' @ Export_ReleaseName (Export (State_Config s))
                            @ '' doesn't exist. Removing state.'')) w) of
        (err, w') \<Rightarrow> (err, s, w'))"
| "State_Update_loop ext s (r # releases) w =
     (if isManagerRelease s (Name r)
      then State_updateState ext s
             \<lparr>ReleaseFilename = release_Filename ext r,
              ReleaseName = Export_ReleaseName (Export (State_Config s)),
              ReleaseVersion = Version r\<rparr> w
      else State_Update_loop ext s releases w)"

definition State_Update ::
  "Externals \<Rightarrow> 'b State \<Rightarrow> Release list \<Rightarrow> ('b, 'c) World
     \<Rightarrow> error option \<times> 'b State \<times> ('b, 'c) World" where
  "State_Update ext s releases w =
     (if Export_ReleaseName (Export (State_Config s)) = ''''
      then (None, s, emit (Debugf ''--release-name not specified. Ignoring state.'') w)
      else State_Update_loop ext s releases w)"

definition ReadRelease ::
  "Externals \<Rightarrow> 'b State \<Rightarrow> string \<Rightarrow> ('b, 'c) World \<Rightarrow> (error + Release) \<times> ('b, 'c) World" where
  "ReadRelease ext s f w =
     (let path = remoteFilePath s f
      in case Backend_Read s path (emit (Debugf (''Reading remote release '' @ path)) w) of
           (Inl err, w') \<Rightarrow> (Inl err, w')
         | (Inr b, w') \<Rightarrow> (release_FromFile ext b, w'))"

definition StoredReleaseNames ::
  "Externals \<Rightarrow> 'b State \<Rightarrow> ('b, 'c) World \<Rightarrow> (error + string list) \<times> ('b, 'c) World" where
  "StoredReleaseNames ext s w =
     (case Backend_List s (StoragePath (Backend (State_Config s)))
             (emit (Debugf ''Finding releases stored in the backend.'') w) of
        (Inl err, w') \<Rightarrow> (Inl err, w')
      | (Inr names, w') \<Rightarrow>
          (case regexp_Compile ext (''^.+'' @ constants_ReleaseExtension ext @ ''$'') of
             Inl err \<Rightarrow> (Inl err, w')
           | Inr r \<Rightarrow> (Inr (filter r names), w')))"

text \<open>One step of a goroutine of \<open>StoredReleases\<close>.\<close>

definition StoredReleases_step ::
  "Externals \<Rightarrow> 'b State \<Rightarrow> reader \<Rightarrow> ('b, 'c) reading \<Rightarrow> ('b, 'c) reading" where
  "StoredReleases_step ext s c m =
     (case c of
        Decode k \<Rightarrow>
          if k < length (pending m)
          then (case ReadRelease ext s (pending m ! k) (reading_world m) of
                  (Inl e, w') \<Rightarrow>
                    m\<lparr>pending := remove_at k (pending m),
                      reading_world := emit (Warnf (Error_string e)) w'\<rparr>
                | (Inr r, w') \<Rightarrow>
                    m\<lparr>pending := remove_at k (pending m), decoded := decoded m @ [r],
                      reading_world := w'\<rparr>)
          else m
      | Load k \<Rightarrow>
          if k < length (decoded m)
          then m\<lparr>decoded := remove_at k (decoded m),
                 loaded := loaded m @ [(ret m, decoded m ! k)]\<rparr>
          else m
      | Store k \<Rightarrow>
          if k < length (loaded m)
          then m\<lparr>loaded := remove_at k (loaded m),
                 ret := fst (loaded m ! k) @ [snd (loaded m ! k)]\<rparr>
          else m)"

fun StoredReleases_run ::
  "Externals \<Rightarrow> 'b State \<Rightarrow> reader list \<Rightarrow> ('b, 'c) reading \<Rightarrow> ('b, 'c) reading" where
  "StoredReleases_run ext s [] m = m"
| "StoredReleases_run ext s (c # sched) m =
     StoredReleases_run ext s sched (StoredReleases_step ext s c m)"

text \<open>\<open>wg.Wait()\<close> returns when every goroutine has ended: the goroutines that the schedule
  has left on their way are run to their end, one after the other.\<close>

definition StoredReleases_Wait ::
  "Externals \<Rightarrow> 'b State \<Rightarrow> ('b, 'c) reading \<Rightarrow> ('b, 'c) reading" where
  "StoredReleases_Wait ext s m =
     (let m1 = StoredReleases_run ext s (replicate (length (loaded m)) (Store 0)) m;
          m2 = StoredReleases_run ext s
                 (concat (replicate (length (decoded m1)) [Load 0, Store 0])) m1
      in StoredReleases_run ext s
           (concat (replicate (length (pending m2)) [Decode 0, Load 0, Store 0])) m2)"

text \<open>\<open>StoredReleases\<close> under a schedule of its goroutines. The loop that starts them has
  no other effect, so they are all there from the beginning; with the empty schedule
  they run one after the other in the order of the names.\<close>

definition StoredReleases ::
  "Externals \<Rightarrow> 'b State \<Rightarrow> reader list \<Rightarrow> ('b, 'c) World
     \<Rightarrow> (error + Release list) \<times> ('b, 'c) World" where
  "StoredReleases ext s sched w =
     (case StoredReleaseNames ext s w of
        (Inl err, w') \<Rightarrow> (Inl err, w')
      | (Inr filenames, w') \<Rightarrow>
          (let m = StoredReleases_Wait ext s
                     (StoredReleases_run ext s sched
                        \<lparr>ret = [], pending = filenames, decoded = [], loaded = [],
                         reading_world = w'\<rparr>)
           in (Inr (ret m), reading_world m)))"

section \<open>The conflict check of the packages importt and transfer\<close>

record ('b, 'c) Import =
  Import_Config :: Config
  Import_HelmClient :: "'c Client"
  Import_State :: "'b State"

text \<open>\<open>Transfer.sanityCheck\<close> compares \<open>t.State\<close> with \<open>nil\<close>, so the pointer is an option.\<close>

record ('b, 'c) Transfer =
  Transfer_Config :: Config
  Transfer_HelmClient :: "'c Client"
  Transfer_State :: "'b State option"

definition conflict_warn :: string where
  "conflict_warn = ''This can lead to unexpected results and is probably a mistake. If you really wish to continue, use --force''"

definition Import_resolveStateConflict ::
  "Externals \<Rightarrow> ('b, 'c) Import \<Rightarrow> ('b, 'c) World \<Rightarrow> error option \<times> ('b, 'c) World" where
  "Import_resolveStateConflict ext t w =
     (let warn = conflict_warn;
          msg = ''Existing state '' @ State_Name ext @ '' exists in path ''
                @ StoragePath (Backend (Import_Config t)) @ '' but --new-path wasn't specified.''
      in if Import_Force (Import (Import_Config t))
         then (None, emit (Warnf (msg @ [CHR 0x0A] @ ''--force specified. Proceeding...'')) w)
         else if DryRun (Import_Config t)
         then (None, emit (Printf (msg @ [CHR 0x0A] @ warn @ [CHR 0x0A])) w)
         else (Some (Errorf_error (msg @ [CHR 0x0A] @ warn)), w))"

definition Import_sanityCheck ::
  "Externals \<Rightarrow> ('b, 'c) Import \<Rightarrow> ('b, 'c) World \<Rightarrow> error option \<times> ('b, 'c) World" where
  "Import_sanityCheck ext t w =
     (if Info (Import_State t) \<noteq> None \<and> Import_NewStoragePath (Import (Import_Config t)) = ''''
      then Import_resolveStateConflict ext t w
      else if Info (Import_State t) = None \<and> Import_NewStoragePath (Import (Import_Config t)) \<noteq> ''''
      then (None, emit (Warnf ''--path specified but no remote state found.'') w)
      else if Info (Import_State t) = None \<and> Import_NewStoragePath (Import (Import_Config t)) = ''''
      then (None, w)
      else if Info (Import_State t) \<noteq> None \<and> Import_NewStoragePath (Import (Import_Config t)) \<noteq> ''''
      then (None, w)
      else (Some (Errorf_error ''Unknown error performing state sanity checks. Failing''), w))"

text \<open>\<open>Transfer.resolveStateConflict\<close> calls \<open>t.State.Path()\<close>, which dereferences
  \<open>t.State\<close>.\<close>

definition Transfer_resolveStateConflict ::
  "Externals \<Rightarrow> ('b, 'c) Transfer \<Rightarrow> ('b, 'c) World \<Rightarrow> error option outcome \<times> ('b, 'c) World" where
  "Transfer_resolveStateConflict ext t w =
     (case Transfer_State t of
        None \<Rightarrow> (Panics, w)
      | Some s \<Rightarrow>
          let warn = conflict_warn;
              msg = ''Existing state exists at '' @ Path ext s @ '' but --new-path wasn't specified.''
          in if Transfer_Force (Transfer (Transfer_Config t))
             then (Returns None, emit (Warnf (msg @ [CHR 0x0A] @ ''--force specified. Proceeding...'')) w)
             else if DryRun (Transfer_Config t)
             then (Returns None, emit (Printf (msg @ [CHR 0x0A] @ warn @ [CHR 0x0A])) w)
             else (Returns (Some (Errorf_error (msg @ [CHR 0x0A] @ warn))), w))"

definition Transfer_sanityCheck ::
  "Externals \<Rightarrow> ('b, 'c) Transfer \<Rightarrow> ('b, 'c) World \<Rightarrow> error option outcome \<times> ('b, 'c) World" where
  "Transfer_sanityCheck ext t w =
     (if Transfer_State t \<noteq> None \<and> Transfer_NewStoragePath (Transfer (Transfer_Config t)) = ''''
      then Transfer_resolveStateConflict ext t w
      else if Transfer_State t = None \<and> Transfer_NewStoragePath (Transfer (Transfer_Config t)) \<noteq> ''''
      then (Returns None, emit (Warnf ''--path specified but no remote state found.'') w)
      else if Transfer_State t = None \<and> Transfer_NewStoragePath (Transfer (Transfer_Config t)) = ''''
      then (Returns None, w)
      else if Transfer_State t \<noteq> None \<and> Transfer_NewStoragePath (Transfer (Transfer_Config t)) \<noteq> ''''
      then (Returns None, w)
      else (Returns (Some (Errorf_error ''Unknown error performing state sanity checks. Failing'')), w))"

section \<open>The import pipeline\<close>

fun includeReleasesByNamespace_loop ::
  "('b, 'c) Import \<Rightarrow> heap \<Rightarrow> addr list \<Rightarrow> addr list \<Rightarrow> addr list" where
  "includeReleasesByNamespace_loop t h [] deploy = deploy"
| "includeReleasesByNamespace_loop t h (r # releases) deploy =
     (if Namespace (h r) = Import_Namespace (Import (Import_Config t))
      then includeReleasesByNamespace_loop t h releases (deploy @ [r])
      else includeReleasesByNamespace_loop t h releases deploy)"

definition includeReleasesByNamespace :: "('b, 'c) Import \<Rightarrow> heap \<Rightarrow> addr list \<Rightarrow> addr list" where
  "includeReleasesByNamespace t h releases = includeReleasesByNamespace_loop t h releases []"

text \<open>The inner loop of \<open>excludeReleasesByNamespace\<close>: the value of \<open>bMatch\<close> when it ends.\<close>

fun excludeReleasesByNamespace_bMatch :: "string \<Rightarrow> string list \<Rightarrow> bool" where
  "excludeReleasesByNamespace_bMatch ns [] = False"
| "excludeReleasesByNamespace_bMatch ns (namespace # rest) =
     (if ns = namespace then True else excludeReleasesByNamespace_bMatch ns rest)"

fun excludeReleasesByNamespace_loop ::
  "('b, 'c) Import \<Rightarrow> heap \<Rightarrow> addr list \<Rightarrow> addr list \<Rightarrow> addr list" where
  "excludeReleasesByNamespace_loop t h [] deploy = deploy"
| "excludeReleasesByNamespace_loop t h (r # releases) deploy =
     (if excludeReleasesByNamespace_bMatch (Namespace (h r))
           (ExcludeNamespaces (Import (Import_Config t)))
      then excludeReleasesByNamespace_loop t h releases deploy
      else excludeReleasesByNamespace_loop t h releases (deploy @ [r]))"

definition excludeReleasesByNamespace :: "('b, 'c) Import \<Rightarrow> heap \<Rightarrow> addr list \<Rightarrow> addr list" where
  "excludeReleasesByNamespace t h releases = excludeReleasesByNamespace_loop t h releases []"

definition filterReleasesByNamespace :: "('b, 'c) Import \<Rightarrow> heap \<Rightarrow> addr list \<Rightarrow> addr list" where
  "filterReleasesByNamespace t h releases =
     (if Import_Namespace (Import (Import_Config t)) \<noteq> ''''
      then includeReleasesByNamespace t h releases
      else if length (ExcludeNamespaces (Import (Import_Config t))) > 0
      then excludeReleasesByNamespace t h releases
      else releases)"

text \<open>\<open>updateValues\<close>, inner loop: the loop variable \<open>r\<close> takes the pointer that
  \<open>release.UpdateValue\<close> returns; the slice \<open>releases\<close> is not written.\<close>

fun updateValues_range ::
  "Externals \<Rightarrow> (string \<times> string) list \<Rightarrow> addr \<Rightarrow> heap \<Rightarrow> error option \<times> heap" where
  "updateValues_range ext [] r h = (None, h)"
| "updateValues_range ext ((k, v) # kvs) r h =
     (case release_UpdateValue ext h r k v of
        (Inl err, h') \<Rightarrow> (Some err, h')
      | (Inr r', h') \<Rightarrow> updateValues_range ext kvs r' h')"

text \<open>Outer loop; \<open>n\<close> counts the \<open>range\<close> statements over the map so far.\<close>

fun updateValues_loop ::
  "Externals \<Rightarrow> ('b, 'c) Import \<Rightarrow> nat \<Rightarrow> addr list \<Rightarrow> heap \<Rightarrow> error option \<times> heap" where
  "updateValues_loop ext t n [] h = (None, h)"
| "updateValues_loop ext t n (r # releases) h =
     (case updateValues_range ext (range_map ext n (Import_Values (Import (Import_Config t)))) r h of
        (Some err, h') \<Rightarrow> (Some err, h')
      | (None, h') \<Rightarrow> updateValues_loop ext t (Suc n) releases h')"

definition updateValues ::
  "Externals \<Rightarrow> ('b, 'c) Import \<Rightarrow> addr list \<Rightarrow> ('b, 'c) World
     \<Rightarrow> (error + addr list) \<times> ('b, 'c) World" where
  "updateValues ext t releases w =
     (let w1 = emit (Debugf (''Updating release values'' @ [CHR 0x0A])) w
      in case updateValues_loop ext t 0 releases (heap w1) of
           (Some err, h') \<Rightarrow> (Inl err, w1\<lparr>heap := h'\<rparr>)
         | (None, h') \<Rightarrow> (Inr releases, w1\<lparr>heap := h'\<rparr>))"

definition processReleases ::
  "Externals \<Rightarrow> ('b, 'c) Import \<Rightarrow> addr list \<Rightarrow> ('b, 'c) World
     \<Rightarrow> (error + addr list) \<times> ('b, 'c) World" where
  "processReleases ext t releases w =
     updateValues ext t (filterReleasesByNamespace t (heap w) releases) w"

definition Import_updateManagerStoragePath ::
  "Externals \<Rightarrow> addr \<Rightarrow> string \<Rightarrow> ('b, 'c) World \<Rightarrow> (error + addr) \<times> ('b, 'c) World" where
  "Import_updateManagerStoragePath ext r path w =
     (case release_UpdateValue ext (heap w) r (constants_ValueStoragePath ext) path of
        (res, h') \<Rightarrow> (res, w\<lparr>heap := h'\<rparr>))"

definition Import_updateManagerRelease ::
  "Externals \<Rightarrow> ('b, 'c) Import \<Rightarrow> addr \<Rightarrow> ('b, 'c) World \<Rightarrow> (error + addr) \<times> ('b, 'c) World" where
  "Import_updateManagerRelease ext t r w =
     (if Import_NewStoragePath (Import (Import_Config t)) = '''' then (Inr r, w)
      else case Info (Import_State t) of
             None \<Rightarrow> (Inr r, w)
           | Some i \<Rightarrow>
               if Name (heap w r) \<noteq> ReleaseName i then (Inr r, w)
               else Import_updateManagerStoragePath ext r
                      (Import_NewStoragePath (Import (Import_Config t))) w)"

definition Import_deployRelease ::
  "Externals \<Rightarrow> ('b, 'c) Import \<Rightarrow> addr \<Rightarrow> ('b, 'c) World \<Rightarrow> error option \<times> ('b, 'c) World" where
  "Import_deployRelease ext t r w =
     (case Install (Import_HelmClient t) (cluster w) (heap w r) of
        (err, c) \<Rightarrow>
          (let w1 = emit (HelmInstall (heap w r)) (w\<lparr>cluster := c\<rparr>)
           in case err of
                Some e \<Rightarrow>
                  if lmhelm_ErrorReleaseExists ext e
                  then (None, emit (Printf (''Skipping release: '' @ Name (heap w r)
                                            @ '' already exists'' @ [CHR 0x0A])) w1)
                  else (Some e, emit (Printf (''Error deploying release '' @ Name (heap w r) @ '': ''
                                              @ Error_string e @ [CHR 0x0A])) w1)
              | None \<Rightarrow>
                  (None, emit (Printf (''Successfully deployed release '' @ Name (heap w r)
                                       @ [CHR 0x0A])) w1)))"

text \<open>The body of the loop of \<open>deployReleases\<close> up to the send on \<open>sem\<close>. First the release
  is announced, then moved to the target namespace if one is configured.\<close>

definition Import_deployReleases_start ::
  "('b, 'c) Import \<Rightarrow> addr \<Rightarrow> ('b, 'c) World \<Rightarrow> ('b, 'c) World" where
  "Import_deployReleases_start t r w =
     (let w1 = emit (Printf (''Deploying release '' @ Name (heap w r) @ '' to namespace ''
                             @ Namespace (heap w r) @ [CHR 0x0A])) w
      in if Target (Import (Import_Config t)) \<noteq> ''''
         then w1\<lparr>heap := (heap w1)(r := (heap w1 r)\<lparr>Namespace := Target (Import (Import_Config t))\<rparr>)\<rparr>
         else w1)"

text \<open>The result is \<open>None\<close> where the source says \<open>continue\<close>, and the release that goes on
  to the send otherwise.\<close>

definition Import_deployReleases_body ::
  "Externals \<Rightarrow> ('b, 'c) Import \<Rightarrow> addr \<Rightarrow> ('b, 'c) World \<Rightarrow> addr option \<times> ('b, 'c) World" where
  "Import_deployReleases_body ext t r w =
     (case Import_updateManagerRelease ext t r (Import_deployReleases_start t r w) of
        (Inl err, w3) \<Rightarrow>
          (None, emit (Errorf ''Unable to update the output path for the new release manager chart. Skipping.'') w3)
      | (Inr r', w3) \<Rightarrow>
          if DryRun (Import_Config t)
          then (None, emit (Printf (release_ToString ext (heap w3 r') (VerboseMode (Import_Config t))
                                    @ [CHR 0x0A])) w3)
          else (Some r', w3))"

text \<open>One step of \<open>deployReleases\<close> or of one of its goroutines. The channel \<open>sem\<close> has the
  capacity \<open>constants.ImportMaxThreads\<close>: a send is possible while it holds fewer values, a
  receive while it holds one. The function sends before it starts a goroutine; the
  goroutine calls \<open>deployRelease\<close>, drops the error returned, and receives in its deferred
  call. After the loop the function sends as many times as the capacity, then returns.
  The call of \<open>deployRelease\<close> is one step: the install and the line printed after it are
  not separated by a step of another goroutine.\<close>

definition Import_deployReleases_step ::
  "Externals \<Rightarrow> ('b, 'c) Import \<Rightarrow> deployer \<Rightarrow> ('b, 'c) deploying \<Rightarrow> ('b, 'c) deploying" where
  "Import_deployReleases_step ext t c m =
     (case c of
        Main \<Rightarrow>
          (case pos m of
             Looping [] \<Rightarrow> m\<lparr>pos := Filling 0\<rparr>
           | Looping (r # releases) \<Rightarrow>
               (case Import_deployReleases_body ext t r (world m) of
                  (None, w') \<Rightarrow> m\<lparr>pos := Looping releases, world := w'\<rparr>
                | (Some r', w') \<Rightarrow> m\<lparr>pos := Sending r' releases, world := w'\<rparr>)
           | Sending r' releases \<Rightarrow>
               if sem m < constants_ImportMaxThreads ext
               then m\<lparr>pos := Looping releases, sem := sem m + 1, started := started m @ [r']\<rparr>
               else m
           | Filling i \<Rightarrow>
               if i < constants_ImportMaxThreads ext
               then (if sem m < constants_ImportMaxThreads ext
                     then m\<lparr>pos := Filling (i + 1), sem := sem m + 1\<rparr>
                     else m)
               else m\<lparr>pos := Returned\<rparr>
           | Waiting \<Rightarrow> m
           | Returned \<Rightarrow> m
           | Panicked \<Rightarrow> m)
      | Body k \<Rightarrow>
          if k < length (started m)
          then m\<lparr>started := remove_at k (started m), ending := ending m + 1,
                 world := snd (Import_deployRelease ext t (started m ! k) (world m))\<rparr>
          else m
      | Deferred \<Rightarrow>
          if 0 < ending m \<and> 0 < sem m
          then m\<lparr>ending := ending m - 1, sem := sem m - 1\<rparr>
          else m)"

fun Import_deployReleases_run ::
  "Externals \<Rightarrow> ('b, 'c) Import \<Rightarrow> deployer list \<Rightarrow> ('b, 'c) deploying \<Rightarrow> ('b, 'c) deploying" where
  "Import_deployReleases_run ext t [] m = m"
| "Import_deployReleases_run ext t (c # sched) m =
     Import_deployReleases_run ext t sched (Import_deployReleases_step ext t c m)"

text \<open>After the schedule the execution goes on: in each round the goroutines that are
  there are run to their end, then the function takes a step. The rounds are counted
  so that the function is total; the count given below is enough for the function to
  return, unless the capacity is zero and it stays at a send for ever.\<close>

definition Import_deployReleases_round ::
  "Externals \<Rightarrow> ('b, 'c) Import \<Rightarrow> ('b, 'c) deploying \<Rightarrow> ('b, 'c) deploying" where
  "Import_deployReleases_round ext t m =
     (let m1 = Import_deployReleases_run ext t (replicate (length (started m)) (Body 0)) m;
          m2 = Import_deployReleases_run ext t (replicate (ending m1) Deferred) m1
      in Import_deployReleases_step ext t Main m2)"

fun Import_deployReleases_rounds ::
  "Externals \<Rightarrow> ('b, 'c) Import \<Rightarrow> nat \<Rightarrow> ('b, 'c) deploying \<Rightarrow> ('b, 'c) deploying" where
  "Import_deployReleases_rounds ext t 0 m = m"
| "Import_deployReleases_rounds ext t (Suc n) m =
     Import_deployReleases_rounds ext t n (Import_deployReleases_round ext t m)"

text \<open>The state in which an execution ends: the schedule is run from the state in which
  \<open>deployReleases\<close> is called, then the rounds.\<close>

definition Import_deployReleases_end ::
  "Externals \<Rightarrow> ('b, 'c) Import \<Rightarrow> addr list \<Rightarrow> deployer list \<Rightarrow> ('b, 'c) World
     \<Rightarrow> ('b, 'c) deploying" where
  "Import_deployReleases_end ext t releases sched w =
     Import_deployReleases_rounds ext t
       (2 * length releases + constants_ImportMaxThreads ext + 2)
       (Import_deployReleases_run ext t sched
          \<lparr>pos = Looping releases, sem = 0, wg = 0, started = [], ending = 0, world = w\<rparr>)"

definition Import_deployReleases ::
  "Externals \<Rightarrow> ('b, 'c) Import \<Rightarrow> addr list \<Rightarrow> deployer list \<Rightarrow> ('b, 'c) World
     \<Rightarrow> error option outcome \<times> ('b, 'c) World" where
  "Import_deployReleases ext t releases sched w =
     (let m = Import_deployReleases_end ext t releases sched w
      in (if pos m = Returned then Returns None else Blocks, world m))"

text \<open>\<open>Run\<close>. The methods \<open>t.State.Releases.StoredReleases\<close> and \<open>t.State.Read\<close> (which
  sets \<open>t.State.Info\<close>) are not those of the package state above: they are parameters, and
  take the state they are called on.\<close>

definition Import_Run ::
  "Externals \<Rightarrow> ('b State \<Rightarrow> ('b, 'c) World \<Rightarrow> (error + addr list) \<times> ('b, 'c) World)
     \<Rightarrow> ('b State \<Rightarrow> ('b, 'c) World \<Rightarrow> error option \<times> 'b State \<times> ('b, 'c) World)
     \<Rightarrow> deployer list \<Rightarrow> ('b, 'c) Import \<Rightarrow> ('b, 'c) World
     \<Rightarrow> error option outcome \<times> ('b, 'c) World" where
  "Import_Run ext Releases_StoredReleases State_Read sched t w =
     (case Releases_StoredReleases (Import_State t) w of
        (Inl err, w1) \<Rightarrow>
          (Exits, emit (Fatalf (''Error retrieving stored releases: '' @ Error_string err)) w1)
      | (Inr releases, w1) \<Rightarrow>
          (case processReleases ext t releases w1 of
             (Inl err, w2) \<Rightarrow> (Returns (Some err), w2)
           | (Inr releases', w2) \<Rightarrow>
               (case State_Read (Import_State t) w2 of
                  (Some err, s', w3) \<Rightarrow> (Returns (Some err), w3)
                | (None, s', w3) \<Rightarrow>
                    (case Import_sanityCheck ext (t\<lparr>Import_State := s'\<rparr>) w3 of
                       (Some err, w4) \<Rightarrow> (Returns (Some err), w4)
                     | (None, w4) \<Rightarrow>
                         Import_deployReleases ext (t\<lparr>Import_State := s'\<rparr>) releases' sched w4))))"

section \<open>The transfer pipeline\<close>

definition Transfer_updateManagerStoragePath ::
  "Externals \<Rightarrow> addr \<Rightarrow> string \<Rightarrow> ('b, 'c) World \<Rightarrow> (error + addr) \<times> ('b, 'c) World" where
  "Transfer_updateManagerStoragePath ext r path w =
     (case release_UpdateValue ext (heap w) r (constants_ValueStoragePath ext) path of
        (res, h') \<Rightarrow> (res, w\<lparr>heap := h'\<rparr>))"

text \<open>\<open>t.State.Info\<close> is evaluated only when the new path is not empty; it panics when
  \<open>t.State\<close> is \<open>nil\<close>.\<close>

definition Transfer_updateManagerRelease ::
  "Externals \<Rightarrow> ('b, 'c) Transfer \<Rightarrow> addr \<Rightarrow> ('b, 'c) World
     \<Rightarrow> (error + addr) outcome \<times> ('b, 'c) World" where
  "Transfer_updateManagerRelease ext t r w =
     (if Transfer_NewStoragePath (Transfer (Transfer_Config t)) = '''' then (Returns (Inr r), w)
      else case Transfer_State t of
             None \<Rightarrow> (Panics, w)
           | Some s \<Rightarrow>
               (case Info s of
                  None \<Rightarrow> (Returns (Inr r), w)
                | Some i \<Rightarrow>
                    if Name (heap w r) \<noteq> ReleaseName i then (Returns (Inr r), w)
                    else (case Transfer_updateManagerStoragePath ext r
                                 (Transfer_NewStoragePath (Transfer (Transfer_Config t))) w of
                            (res, w') \<Rightarrow> (Returns res, w'))))"

definition Transfer_deployRelease ::
  "('b, 'c) Transfer \<Rightarrow> addr \<Rightarrow> ('b, 'c) World \<Rightarrow> ('b, 'c) World" where
  "Transfer_deployRelease t r w =
     (case Install (Transfer_HelmClient t) (cluster w) (heap w r) of
        (err, c) \<Rightarrow>
          (let w1 = emit (HelmInstall (heap w r)) (w\<lparr>cluster := c\<rparr>)
           in case err of
                Some e \<Rightarrow> emit (Errorf (''Error deploying release '' @ Name (heap w r) @ '': ''
                                        @ Error_string e)) w1
              | None \<Rightarrow> w1))"

text \<open>The body of the loop of \<open>deployReleases\<close> of the package transfer up to
  \<open>wg.Add(1)\<close>: \<open>None\<close> where the source says \<open>continue\<close>.\<close>

definition Transfer_deployReleases_body ::
  "Externals \<Rightarrow> ('b, 'c) Transfer \<Rightarrow> addr \<Rightarrow> ('b, 'c) World
     \<Rightarrow> addr option outcome \<times> ('b, 'c) World" where
  "Transfer_deployReleases_body ext t r w =
     (case Transfer_updateManagerRelease ext t r
             (emit (Printf (''Deploying release: '' @ Name (heap w r) @ [CHR 0x0A])) w) of
        (Returns (Inl err), w2) \<Rightarrow>
          (Returns None,
           emit (Errorf ''Unable to update the output path for the new release manager chart. Skipping.'') w2)
      | (Returns (Inr r'), w2) \<Rightarrow>
          if DryRun (Transfer_Config t)
          then (Returns None,
                emit (Printf (release_ToString ext (heap w2 r') (VerboseMode (Transfer_Config t))
                              @ [CHR 0x0A])) w2)
          else (Returns (Some r'), w2)
      | (Blocks, w2) \<Rightarrow> (Blocks, w2)
      | (Panics, w2) \<Rightarrow> (Panics, w2)
      | (Exits, w2) \<Rightarrow> (Exits, w2))"

text \<open>One step of \<open>deployReleases\<close> of the package transfer or of one of its goroutines.
  The function adds one to the wait group and starts the goroutine, with no bound on
  their number; the goroutine calls \<open>deployRelease\<close> and then \<open>wg.Done()\<close>; \<open>wg.Wait()\<close>
  returns when the counter is zero. A panic of the function ends the process.\<close>

definition Transfer_deployReleases_step ::
  "Externals \<Rightarrow> ('b, 'c) Transfer \<Rightarrow> deployer \<Rightarrow> ('b, 'c) deploying \<Rightarrow> ('b, 'c) deploying" where
  "Transfer_deployReleases_step ext t c m =
     (if pos m = Panicked then m
      else case c of
        Main \<Rightarrow>
          (case pos m of
             Looping [] \<Rightarrow> m\<lparr>pos := Waiting\<rparr>
           | Looping (r # releases) \<Rightarrow>
               (case Transfer_deployReleases_body ext t r (world m) of
                  (Returns None, w') \<Rightarrow> m\<lparr>pos := Looping releases, world := w'\<rparr>
                | (Returns (Some r'), w') \<Rightarrow>
                    m\<lparr>pos := Looping releases, wg := wg m + 1, started := started m @ [r'],
                      world := w'\<rparr>
                | (Blocks, w') \<Rightarrow> m\<lparr>pos := Panicked, world := w'\<rparr>
                | (Panics, w') \<Rightarrow> m\<lparr>pos := Panicked, world := w'\<rparr>
                | (Exits, w') \<Rightarrow> m\<lparr>pos := Panicked, world := w'\<rparr>)
           | Sending r' releases \<Rightarrow> m
           | Filling i \<Rightarrow> m
           | Waiting \<Rightarrow> if wg m = 0 then m\<lparr>pos := Returned\<rparr> else m
           | Returned \<Rightarrow> m
           | Panicked \<Rightarrow> m)
      | Body k \<Rightarrow>
          if k < length (started m)
          then m\<lparr>started := remove_at k (started m), ending := ending m + 1,
                 world := Transfer_deployRelease t (started m ! k) (world m)\<rparr>
          else m
      | Deferred \<Rightarrow>
          if 0 < ending m \<and> 0 < wg m
          then m\<lparr>ending := ending m - 1, wg := wg m - 1\<rparr>
          else m)"

fun Transfer_deployReleases_run ::
  "Externals \<Rightarrow> ('b, 'c) Transfer \<Rightarrow> deployer list \<Rightarrow> ('b, 'c) deploying \<Rightarrow> ('b, 'c) deploying" where
  "Transfer_deployReleases_run ext t [] m = m"
| "Transfer_deployReleases_run ext t (c # sched) m =
     Transfer_deployReleases_run ext t sched (Transfer_deployReleases_step ext t c m)"

text \<open>The execution after the schedule, in rounds as for the import.\<close>

definition Transfer_deployReleases_round ::
  "Externals \<Rightarrow> ('b, 'c) Transfer \<Rightarrow> ('b, 'c) deploying \<Rightarrow> ('b, 'c) deploying" where
  "Transfer_deployReleases_round ext t m =
     (let m1 = Transfer_deployReleases_run ext t (replicate (length (started m)) (Body 0)) m;
          m2 = Transfer_deployReleases_run ext t (replicate (ending m1) Deferred) m1
      in Transfer_deployReleases_step ext t Main m2)"

fun Transfer_deployReleases_rounds ::
  "Externals \<Rightarrow> ('b, 'c) Transfer \<Rightarrow> nat \<Rightarrow> ('b, 'c) deploying \<Rightarrow> ('b, 'c) deploying" where
  "Transfer_deployReleases_rounds ext t 0 m = m"
| "Transfer_deployReleases_rounds ext t (Suc n) m =
     Transfer_deployReleases_rounds ext t n (Transfer_deployReleases_round ext t m)"

definition Transfer_deployReleases_end ::
  "Externals \<Rightarrow> ('b, 'c) Transfer \<Rightarrow> addr list \<Rightarrow> deployer list \<Rightarrow> ('b, 'c) World
     \<Rightarrow> ('b, 'c) deploying" where
  "Transfer_deployReleases_end ext t releases sched w =
     Transfer_deployReleases_rounds ext t (length releases + 2)
       (Transfer_deployReleases_run ext t sched
          \<lparr>pos = Looping releases, sem = 0, wg = 0, started = [], ending = 0, world = w\<rparr>)"

definition Transfer_deployReleases ::
  "Externals \<Rightarrow> ('b, 'c) Transfer \<Rightarrow> addr list \<Rightarrow> deployer list \<Rightarrow> ('b, 'c) World
     \<Rightarrow> error option outcome \<times> ('b, 'c) World" where
  "Transfer_deployReleases ext t releases sched w =
     (let m = Transfer_deployReleases_end ext t releases sched w
      in (if pos m = Returned then Returns None
          else if pos m = Panicked then Panics else Blocks, world m))"

text \<open>\<open>Run\<close> of the package transfer, with the same two parameters. Its first statement
  dereferences \<open>t.State\<close>.\<close>

definition Transfer_Run ::
  "Externals \<Rightarrow> ('b State \<Rightarrow> ('b, 'c) World \<Rightarrow> (error + addr list) \<times> ('b, 'c) World)
     \<Rightarrow> ('b State \<Rightarrow> ('b, 'c) World \<Rightarrow> error option \<times> 'b State \<times> ('b, 'c) World)
     \<Rightarrow> deployer list \<Rightarrow> ('b, 'c) Transfer \<Rightarrow> ('b, 'c) World
     \<Rightarrow> error option outcome \<times> ('b, 'c) World" where
  "Transfer_Run ext Releases_StoredReleases State_Read sched t w =
     (case Transfer_State t of
        None \<Rightarrow> (Panics, w)
      | Some s \<Rightarrow>
          (case Releases_StoredReleases s w of
             (Inl err, w1) \<Rightarrow>
               (Exits, emit (Fatalf (''Error retrieving stored releases: '' @ Error_string err)) w1)
           | (Inr releases, w1) \<Rightarrow>
               (case State_Read s w1 of
                  (Some err, s', w2) \<Rightarrow> (Returns (Some err), w2)
                | (None, s', w2) \<Rightarrow>
                    (case Transfer_sanityCheck ext (t\<lparr>Transfer_State := Some s'\<rparr>) w2 of
                       (Returns None, w3) \<Rightarrow>
                         Transfer_deployReleases ext (t\<lparr>Transfer_State := Some s'\<rparr>) releases sched w3
                     | (res, w3) \<Rightarrow> (res, w3)))))"

section \<open>A concrete environment\<close>

text \<open>An instance of every parameter, on which the theorems below are run: a backend that
  keeps its files in an association list, a cluster that is the list of the names
  installed and refuses an install into \<open>kube-system\<close>, and a \<open>release.UpdateValue\<close> that
  rewrites the release in place.\<close>

definition mem_Backend :: "(string \<times> string) list Backend" where
  "mem_Backend =
     \<lparr>List = (\<lambda>b path. (Inr (map (\<lambda>e. drop (length path + 1) (fst e)) b), b)),
      Read = (\<lambda>b path. (case map_of b path of
                            None \<Rightarrow> Inl (Errorf_error ''not found'') | Some f \<Rightarrow> Inr f, b)),
      Write = (\<lambda>b path f. (None, (path, f) # filter (\<lambda>e. fst e \<noteq> path) b)),
      Delete = (\<lambda>b path. (None, filter (\<lambda>e. fst e \<noteq> path) b)),
      PathSeparator = ''/''\<rparr>"

definition names_Client :: "string list Client" where
  "names_Client =
     \<lparr>Install = (\<lambda>c r. if Name r \<in> set c then (Some (Errorf_error ''already exists''), c)
                         else if Namespace r = ''kube-system'' then (Some (Errorf_error ''forbidden''), c)
                         else (None, Name r # c))\<rparr>"

definition ex_Externals :: Externals where
  "ex_Externals =
     \<lparr>release_UpdateValue = (\<lambda>h r k v. (Inr r, h(r := (h r)\<lparr>Values := (Values (h r))(k \<mapsto> v)\<rparr>))),
      release_ToString = (\<lambda>r verbose. Name r @ ''.'' @ Namespace r),
      release_Filename = (\<lambda>r. Name r @ ''.release''),
      release_FromFile = (\<lambda>b. if b = '''' then Inl (Errorf_error ''empty file'')
                                else Inr \<lparr>Name = b, Namespace = ''default'', Version = 1,
                                          Values = Map.empty\<rparr>),
      lmhelm_ErrorReleaseExists = (\<lambda>e. e = Errorf_error ''already exists''),
      constants_ValueStoragePath = ''path'',
      constants_ManagerStateFilename = ''state'',
      constants_ReleaseExtension = ''.release'',
      constants_ImportMaxThreads = 5,
      Info_Serialize = (\<lambda>i. Inr (ReleaseName i)),
      json_Unmarshal = (\<lambda>f. (\<lparr>ReleaseFilename = f @ ''.release'', ReleaseName = f,
                                 ReleaseVersion = 3\<rparr>, None)),
      regexp_Compile = (\<lambda>p. Inr (\<lambda>n. 8 < length n \<and> drop (length n - 8) n = ''.release'')),
      State_Name = ''state'',
      range_map = (\<lambda>n m. case m ''tag'' of None \<Rightarrow> [] | Some v \<Rightarrow> [(''tag'', v)])\<rparr>"

text \<open>An \<open>UpdateValue\<close> that fails on every call.\<close>

definition failing_Externals :: Externals where
  "failing_Externals =
     ex_Externals\<lparr>release_UpdateValue := (\<lambda>h r k v. (Inl (Errorf_error ''bad values''), h))\<rparr>"

definition ex_Config :: Config where
  "ex_Config =
     \<lparr>Backend = \<lparr>StoragePath = ''bucket''\<rparr>,
      Export = \<lparr>Export_ReleaseName = ''mgr''\<rparr>,
      Import = \<lparr>Import_Namespace = '''', ExcludeNamespaces = [], Import_Values = Map.empty,
                Target = '''', Import_NewStoragePath = '''', Import_Force = False\<rparr>,
      Transfer = \<lparr>Transfer_NewStoragePath = '''', Transfer_Force = False\<rparr>,
      DryRun = False, VerboseMode = False\<rparr>"

definition ex_Info :: Info where
  "ex_Info = \<lparr>ReleaseFilename = ''mgr.release'', ReleaseName = ''mgr'', ReleaseVersion = 3\<rparr>"

definition ex_State :: "(string \<times> string) list State" where
  "ex_State = \<lparr>State_Backend = mem_Backend, State_Config = ex_Config, init = False, Info = None\<rparr>"

definition ex_Import :: "((string \<times> string) list, string list) Import" where
  "ex_Import =
     \<lparr>Import_Config = ex_Config, Import_HelmClient = names_Client, Import_State = ex_State\<rparr>"

definition ex_Transfer :: "((string \<times> string) list, string list) Transfer" where
  "ex_Transfer =
     \<lparr>Transfer_Config = ex_Config, Transfer_HelmClient = names_Client,
      Transfer_State = Some ex_State\<rparr>"

definition ex_Release :: "string \<Rightarrow> string \<Rightarrow> Release" where
  "ex_Release name ns = \<lparr>Name = name, Namespace = ns, Version = 3, Values = Map.empty\<rparr>"

text \<open>A heap with the release \<open>a\<close> of namespace \<open>default\<close> at address 0, \<open>b\<close> of
  \<open>kube-system\<close> at address 1, and the manager's release \<open>mgr\<close> elsewhere.\<close>

definition ex_heap :: heap where
  "ex_heap = (\<lambda>a. ex_Release ''mgr'' ''default'')
               (0 := ex_Release ''a'' ''default'', 1 := ex_Release ''b'' ''kube-system'')"

definition ex_World :: "((string \<times> string) list, string list) World" where
  "ex_World = \<lparr>heap = ex_heap, store = [], cluster = [], events = []\<rparr>"

text \<open>An import configured with the namespace \<open>default\<close> both to retain and to exclude.\<close>

definition both_Import :: "((string \<times> string) list, string list) Import" where
  "both_Import =
     ex_Import\<lparr>Import_Config := ex_Config\<lparr>Import :=
       (Import ex_Config)\<lparr>Import_Namespace := ''default'', ExcludeNamespaces := [''default'']\<rparr>\<rparr>\<rparr>"

text \<open>An import and a transfer that have read the state record \<open>ex_Info\<close>, and the same
  with \<open>--force\<close> and with the dry-run flag.\<close>

definition ex_State_read :: "(string \<times> string) list State" where
  "ex_State_read = ex_State\<lparr>Info := Some ex_Info\<rparr>"

definition conflict_Import :: "bool \<Rightarrow> bool \<Rightarrow> ((string \<times> string) list, string list) Import" where
  "conflict_Import force dry =
     \<lparr>Import_Config = ex_Config\<lparr>Import := (Import ex_Config)\<lparr>Import_Force := force\<rparr>, DryRun := dry\<rparr>,
      Import_HelmClient = names_Client, Import_State = ex_State_read\<rparr>"

definition conflict_Transfer :: "bool \<Rightarrow> bool \<Rightarrow> ((string \<times> string) list, string list) Transfer" where
  "conflict_Transfer force dry =
     \<lparr>Transfer_Config = ex_Config\<lparr>Transfer := (Transfer ex_Config)\<lparr>Transfer_Force := force\<rparr>,
                                   DryRun := dry\<rparr>,
      Transfer_HelmClient = names_Client, Transfer_State = Some ex_State_read\<rparr>"

text \<open>A state whose configuration names no manager release.\<close>

definition unnamed_State :: "(string \<times> string) list State" where
  "unnamed_State = ex_State\<lparr>State_Config := ex_Config\<lparr>Export := \<lparr>Export_ReleaseName = ''''\<rparr>\<rparr>\<rparr>"

text \<open>A store with the files of two releases and the state file, and the release that
  the file of content \<open>name\<close> decodes to.\<close>

definition two_store :: "(string \<times> string) list" where
  "two_store =
     [(''bucket/a.release'', ''a''), (''bucket/state'', ''mgr''), (''bucket/c.release'', ''c'')]"

definition decoded_Release :: "string \<Rightarrow> Release" where
  "decoded_Release name = \<lparr>Name = name, Namespace = ''default'', Version = 1, Values = Map.empty\<rparr>"

text \<open>An import and a transfer that have read the state record \<open>ex_Info\<close>, with the dry-run
  flag and the new storage path \<open>new\<close>.\<close>

definition dry_Import :: "((string \<times> string) list, string list) Import" where
  "dry_Import =
     \<lparr>Import_Config = ex_Config\<lparr>Import := (Import ex_Config)\<lparr>Import_NewStoragePath := ''new''\<rparr>,
                                 DryRun := True\<rparr>,
      Import_HelmClient = names_Client, Import_State = ex_State_read\<rparr>"

definition dry_Transfer :: "((string \<times> string) list, string list) Transfer" where
  "dry_Transfer =
     \<lparr>Transfer_Config = ex_Config\<lparr>Transfer := (Transfer ex_Config)\<lparr>Transfer_NewStoragePath := ''new''\<rparr>,
                                   DryRun := True\<rparr>,
      Transfer_HelmClient = names_Client, Transfer_State = Some ex_State_read\<rparr>"

text \<open>An import that overrides the value \<open>tag\<close>.\<close>

definition values_Import :: "((string \<times> string) list, string list) Import" where
  "values_Import =
     ex_Import\<lparr>Import_Config := ex_Config\<lparr>Import :=
       (Import ex_Config)\<lparr>Import_Values := [''tag'' \<mapsto> ''v2'']\<rparr>\<rparr>\<rparr>"

section \<open>Reading the events\<close>

fun installs :: "event list \<Rightarrow> Release list" where
  "installs [] = []"
| "installs (HelmInstall r # es) = r # installs es"
| "installs (e # es) = installs es"

fun writes :: "event list \<Rightarrow> (string \<times> string) list" where
  "writes [] = []"
| "writes (BackendWrite path f # es) = (path, f) # writes es"
| "writes (e # es) = writes es"

fun reads :: "event list \<Rightarrow> string list" where
  "reads [] = []"
| "reads (BackendRead path # es) = path # reads es"
| "reads (e # es) = reads es"

fun printed :: "event list \<Rightarrow> string list" where
  "printed [] = []"
| "printed (Printf m # es) = m # printed es"
| "printed (e # es) = printed es"

fun errors_logged :: "event list \<Rightarrow> string list" where
  "errors_logged [] = []"
| "errors_logged (Errorf m # es) = m # errors_logged es"
| "errors_logged (e # es) = errors_logged es"

text \<open>The release that the file \<open>f\<close> of the store \<open>b\<close> decodes to, if it can be read and
  decoded.\<close>

definition decodes :: "Externals \<Rightarrow> 'b State \<Rightarrow> 'b \<Rightarrow> string \<Rightarrow> Release option" where
  "decodes ext s b f =
     (case fst (Read (State_Backend s) b (remoteFilePath s f)) of
        Inl err \<Rightarrow> None
      | Inr bytes \<Rightarrow> (case release_FromFile ext bytes of Inl err \<Rightarrow> None | Inr r \<Rightarrow> Some r))"

text \<open>A release as \<open>Import.deployReleases\<close> leaves it: in the target namespace, if one is
  configured.\<close>

definition retarget :: "('b, 'c) Import \<Rightarrow> Release \<Rightarrow> Release" where
  "retarget t r =
     (if Target (Import (Import_Config t)) \<noteq> ''''
      then r\<lparr>Namespace := Target (Import (Import_Config t))\<rparr> else r)"

text \<open>What the value override asks of \<open>release.UpdateValue\<close>: when it succeeds it
  returns the pointer it was given, the release at that pointer has the value under the
  key and its other values as before, and no other release has changed.\<close>

definition UpdateValue_in_place :: "Externals \<Rightarrow> bool" where
  "UpdateValue_in_place ext \<longleftrightarrow>
     (\<forall>h r k v r' h'. release_UpdateValue ext h r k v = (Inr r', h') \<longrightarrow>
        r' = r \<and> Values (h' r) k = Some v
        \<and> (\<forall>k'. k' \<noteq> k \<longrightarrow> Values (h' r) k' = Values (h r) k')
        \<and> (\<forall>a. a \<noteq> r \<longrightarrow> h' a = h a))"

text \<open>Each \<open>range\<close> over the map visits every entry once.\<close>

definition range_enumerates :: "Externals \<Rightarrow> (string \<rightharpoonup> string) \<Rightarrow> bool" where
  "range_enumerates ext m \<longleftrightarrow>
     (\<forall>n. distinct (map fst (range_map ext n m)) \<and> map_of (range_map ext n m) = m)"

fun is_backend_call :: "event \<Rightarrow> bool" where
  "is_backend_call (BackendList path) = True"
| "is_backend_call (BackendRead path) = True"
| "is_backend_call (BackendWrite path f) = True"
| "is_backend_call (BackendDelete path) = True"
| "is_backend_call e = False"

section \<open>Reading the machines\<close>

text \<open>The values that the last loop of \<open>Import.deployReleases\<close> has sent to \<open>sem\<close>.\<close>

fun filled :: "Externals \<Rightarrow> position \<Rightarrow> nat" where
  "filled ext (Filling i) = i"
| "filled ext Returned = constants_ImportMaxThreads ext"
| "filled ext p = 0"

text \<open>A bound on the steps that \<open>Import.deployReleases\<close> has still to take before it
  returns.\<close>

fun to_do :: "Externals \<Rightarrow> position \<Rightarrow> nat" where
  "to_do ext (Looping releases) = 2 * length releases + constants_ImportMaxThreads ext + 2"
| "to_do ext (Sending r releases) = 2 * length releases + constants_ImportMaxThreads ext + 3"
| "to_do ext (Filling i) = constants_ImportMaxThreads ext - i + 1"
| "to_do ext Returned = 0"
| "to_do ext p = 1"

text \<open>The releases that the loop has not dealt with yet, the one at the send included, and
  those that it has still to take.\<close>

fun undispatched :: "position \<Rightarrow> nat" where
  "undispatched (Looping releases) = length releases"
| "undispatched (Sending r releases) = Suc (length releases)"
| "undispatched p = 0"

fun remaining :: "position \<Rightarrow> addr list" where
  "remaining (Looping releases) = releases"
| "remaining (Sending r releases) = releases"
| "remaining p = []"

text \<open>The invariant of the semaphore. Every value in the channel was sent for a goroutine
  that has not received yet, or by the last loop, and the channel holds no more values
  than its capacity. A channel of capacity zero admits no send: the function comes to
  a send only without dry-run.\<close>

definition Import_inv :: "Externals \<Rightarrow> ('b, 'c) Import \<Rightarrow> ('b, 'c) deploying \<Rightarrow> bool" where
  "Import_inv ext t m \<longleftrightarrow>
     sem m = length (started m) + ending m + filled ext (pos m)
     \<and> sem m \<le> constants_ImportMaxThreads ext
     \<and> filled ext (pos m) \<le> constants_ImportMaxThreads ext
     \<and> pos m \<noteq> Waiting \<and> pos m \<noteq> Panicked
     \<and> (0 < constants_ImportMaxThreads ext
        \<or> DryRun (Import_Config t) \<and> (\<forall>r releases. pos m \<noteq> Sending r releases))"

text \<open>The releases accounted for: submitted to \<open>Install\<close>, skipped with an error logged,
  not dealt with yet, or given to a goroutine that has not called \<open>Install\<close> yet.\<close>

definition accounted :: "('b, 'c) deploying \<Rightarrow> nat" where
  "accounted m =
     length (installs (events (world m))) + length (errors_logged (events (world m)))
     + undispatched (pos m) + length (started m)"

text \<open>Under dry-run no goroutine is started, and the world is what the body of the loop
  has made of it on the releases taken so far.\<close>

definition Import_dry_inv ::
  "Externals \<Rightarrow> ('b, 'c) Import \<Rightarrow> addr list \<Rightarrow> ('b, 'c) World \<Rightarrow> ('b, 'c) deploying \<Rightarrow> bool" where
  "Import_dry_inv ext t releases w m \<longleftrightarrow>
     (\<exists>seen. releases = seen @ remaining (pos m)
        \<and> world m = foldl (\<lambda>w r. snd (Import_deployReleases_body ext t r w)) w seen)
     \<and> started m = [] \<and> ending m = 0 \<and> (\<forall>r rs. pos m \<noteq> Sending r rs)"

text \<open>The same for \<open>deployReleases\<close> of the package transfer: a bound on the steps left,
  the invariant of the wait group (its counter is the number of goroutines that have not
  called \<open>wg.Done()\<close>), and the world under dry-run.\<close>

fun to_do_Transfer :: "position \<Rightarrow> nat" where
  "to_do_Transfer (Looping releases) = length releases + 2"
| "to_do_Transfer Returned = 0"
| "to_do_Transfer Panicked = 0"
| "to_do_Transfer p = 1"

definition Transfer_inv :: "('b, 'c) deploying \<Rightarrow> bool" where
  "Transfer_inv m \<longleftrightarrow>
     wg m = length (started m) + ending m
     \<and> (\<forall>r rs. pos m \<noteq> Sending r rs) \<and> (\<forall>i. pos m \<noteq> Filling i)"

definition Transfer_dry_inv ::
  "Externals \<Rightarrow> ('b, 'c) Transfer \<Rightarrow> addr list \<Rightarrow> ('b, 'c) World \<Rightarrow> ('b, 'c) deploying \<Rightarrow> bool" where
  "Transfer_dry_inv ext t releases w m \<longleftrightarrow>
     (\<exists>seen. releases = seen @ remaining (pos m)
        \<and> world m = foldl (\<lambda>w r. snd (Transfer_deployReleases_body ext t r w)) w seen)
     \<and> started m = [] \<and> ending m = 0 \<and> pos m \<noteq> Panicked"

text \<open>The releases that \<open>Import.deployReleases\<close> has still to hand to a goroutine, and the
  invariant of the batch without dry-run and without a new path: the releases submitted
  to \<open>Install\<close>, those that the goroutines started hold, and those still to hand over, each
  in the target namespace, are the releases of the batch, as a multiset.\<close>

fun dispatching :: "position \<Rightarrow> addr list" where
  "dispatching (Looping releases) = releases"
| "dispatching (Sending r releases) = r # releases"
| "dispatching p = []"

definition Import_batch_inv ::
  "('b, 'c) Import \<Rightarrow> Release multiset \<Rightarrow> ('b, 'c) deploying \<Rightarrow> bool" where
  "Import_batch_inv t batch m \<longleftrightarrow>
     mset (installs (events (world m)))
       + mset (map (heap (world m)) (started m))
       + mset (map (\<lambda>r. retarget t (heap (world m) r)) (dispatching (pos m))) = batch
     \<and> (\<forall>r \<in> set (started m). retarget t (heap (world m) r) = heap (world m) r)
     \<and> (\<forall>r rs. pos m = Sending r rs \<longrightarrow> retarget t (heap (world m) r) = heap (world m) r)"

section \<open>The conflict check\<close>

text \<open>The rows of the decision table that are no conflict, for \<open>Import.sanityCheck\<close>, which
  tests the state record \<open>t.State.Info\<close>: the check succeeds whatever the flags are.\<close>

lemma Import_sanityCheck_proceeds:
  "(Info (Import_State t) = None \<and> Import_NewStoragePath (Import (Import_Config t)) = '''' \<longrightarrow>
      Import_sanityCheck ext t w = (None, w))
   \<and> (Info (Import_State t) \<noteq> None \<and> Import_NewStoragePath (Import (Import_Config t)) \<noteq> '''' \<longrightarrow>
      Import_sanityCheck ext t w = (None, w))
   \<and> (Info (Import_State t) = None \<and> Import_NewStoragePath (Import (Import_Config t)) \<noteq> '''' \<longrightarrow>
      fst (Import_sanityCheck ext t w) = None)"
  by (simp add: Import_sanityCheck_def)

text \<open>\<open>Transfer.sanityCheck\<close> tests the pointer \<open>t.State\<close>, not the record \<open>t.State.Info\<close>:
  with a state that is not \<open>nil\<close> and no new path it reports a conflict, whether a
  state record has been read or not.\<close>

lemma Transfer_sanityCheck_State_conflict:
  assumes "Transfer_State t = Some s"
    and "Transfer_NewStoragePath (Transfer (Transfer_Config t)) = ''''"
    and "\<not> Transfer_Force (Transfer (Transfer_Config t))"
    and "\<not> DryRun (Transfer_Config t)"
  shows "\<exists>err. Transfer_sanityCheck ext t w = (Returns (Some err), w)"
  using assms by (simp add: Transfer_sanityCheck_def Transfer_resolveStateConflict_def Let_def)

text \<open>With \<open>t.State\<close> equal to \<open>nil\<close> the rows of the table hold for the transfer as well;
  but \<open>Run\<close> panics on such a transfer before it calls \<open>sanityCheck\<close>.\<close>

lemma Transfer_sanityCheck_proceeds:
  "(Transfer_State t = None \<and> Transfer_NewStoragePath (Transfer (Transfer_Config t)) = '''' \<longrightarrow>
      Transfer_sanityCheck ext t w = (Returns None, w))
   \<and> (Transfer_State t \<noteq> None \<and> Transfer_NewStoragePath (Transfer (Transfer_Config t)) \<noteq> '''' \<longrightarrow>
      Transfer_sanityCheck ext t w = (Returns None, w))
   \<and> (Transfer_State t = None \<and> Transfer_NewStoragePath (Transfer (Transfer_Config t)) \<noteq> '''' \<longrightarrow>
      fst (Transfer_sanityCheck ext t w) = Returns None)"
  by (simp add: Transfer_sanityCheck_def)

lemma Transfer_Run_nil_State:
  "Transfer_State t = None \<Longrightarrow>
     Transfer_Run ext Releases_StoredReleases State_Read sched t w = (Panics, w)"
  by (simp add: Transfer_Run_def)

text \<open>So a run of the transfer without a new path, without force and without dry-run
  ends in the error of the conflict check once the releases and the state are read,
  whatever the state read holds.\<close>

lemma Transfer_Run_without_new_path:
  assumes "Transfer_State t = Some s"
    and "Transfer_NewStoragePath (Transfer (Transfer_Config t)) = ''''"
    and "\<not> Transfer_Force (Transfer (Transfer_Config t))"
    and "\<not> DryRun (Transfer_Config t)"
    and "Releases_StoredReleases s w = (Inr releases, w1)"
    and "State_Read s w1 = (None, s', w2)"
  shows "\<exists>err. Transfer_Run ext Releases_StoredReleases State_Read sched t w = (Returns (Some err), w2)"
  using assms
  by (simp add: Transfer_Run_def Transfer_sanityCheck_def Transfer_resolveStateConflict_def Let_def)

text \<open>Claim C1. With no state record and no new storage path the conflict check is to
  succeed. \<open>Import.sanityCheck\<close> does; \<open>Transfer.sanityCheck\<close>, on a transfer whose state has
  no record (\<open>Info\<close> is \<open>None\<close>), no new path, no force and no dry-run, returns the
  error of a conflict.\<close>

theorem Transfer_sanityCheck_no_record:
  "Transfer_State ex_Transfer = Some ex_State \<and> Info ex_State = None
   \<and> Transfer_NewStoragePath (Transfer (Transfer_Config ex_Transfer)) = ''''
   \<and> Transfer_sanityCheck ex_Externals ex_Transfer ex_World =
       (Returns (Some (Errorf_error
          (''Existing state exists at bucket/state but --new-path wasn't specified.'' @ [CHR 0x0A]
           @ conflict_warn))), ex_World)
   \<and> Info (Import_State ex_Import) = None
   \<and> Import_NewStoragePath (Import (Import_Config ex_Import)) = ''''
   \<and> Import_sanityCheck ex_Externals ex_Import ex_World = (None, ex_World)"
  by (simp add: Transfer_sanityCheck_def Transfer_resolveStateConflict_def Import_sanityCheck_def
      ex_Transfer_def ex_Import_def ex_State_def ex_Config_def Path_def remoteFilePath_def
      mem_Backend_def ex_Externals_def Let_def)

text \<open>Claim C2. A state record is present and no new storage path is given. With the
  force flag the check succeeds and logs a warning; without it and with the dry-run flag
  it succeeds and prints the conflict message and the advice; with neither it returns
  an error, and the message of the error names where the existing state is stored (the
  storage path for the import, the path of the state file for the transfer). In no case
  does the check touch the store, the cluster or the heap.\<close>

theorem sanityCheck_conflict:
  assumes "Info (Import_State t) \<noteq> None"
    and "Import_NewStoragePath (Import (Import_Config t)) = ''''"
    and "Transfer_State t' = Some s" and "Info s \<noteq> None"
    and "Transfer_NewStoragePath (Transfer (Transfer_Config t')) = ''''"
    and "msg = ''Existing state '' @ State_Name ext @ '' exists in path ''
               @ StoragePath (Backend (Import_Config t)) @ '' but --new-path wasn't specified.''"
    and "msg' = ''Existing state exists at '' @ Path ext s @ '' but --new-path wasn't specified.''"
  shows "(Import_Force (Import (Import_Config t)) \<longrightarrow>
            Import_sanityCheck ext t w =
              (None, w\<lparr>events := events w
                         @ [Warnf (msg @ [CHR 0x0A] @ ''--force specified. Proceeding...'')]\<rparr>))
       \<and> (\<not> Import_Force (Import (Import_Config t)) \<and> DryRun (Import_Config t) \<longrightarrow>
            Import_sanityCheck ext t w =
              (None, w\<lparr>events := events w @ [Printf (msg @ [CHR 0x0A] @ conflict_warn @ [CHR 0x0A])]\<rparr>))
       \<and> (\<not> Import_Force (Import (Import_Config t)) \<and> \<not> DryRun (Import_Config t) \<longrightarrow>
            Import_sanityCheck ext t w =
              (Some (Errorf_error (msg @ [CHR 0x0A] @ conflict_warn)), w))
       \<and> (Transfer_Force (Transfer (Transfer_Config t')) \<longrightarrow>
            Transfer_sanityCheck ext t' w =
              (Returns None, w\<lparr>events := events w
                         @ [Warnf (msg' @ [CHR 0x0A] @ ''--force specified. Proceeding...'')]\<rparr>))
       \<and> (\<not> Transfer_Force (Transfer (Transfer_Config t')) \<and> DryRun (Transfer_Config t') \<longrightarrow>
            Transfer_sanityCheck ext t' w =
              (Returns None,
               w\<lparr>events := events w @ [Printf (msg' @ [CHR 0x0A] @ conflict_warn @ [CHR 0x0A])]\<rparr>))
       \<and> (\<not> Transfer_Force (Transfer (Transfer_Config t')) \<and> \<not> DryRun (Transfer_Config t') \<longrightarrow>
            Transfer_sanityCheck ext t' w =
              (Returns (Some (Errorf_error (msg' @ [CHR 0x0A] @ conflict_warn))), w))"
  using assms
  by (simp add: Import_sanityCheck_def Import_resolveStateConflict_def Transfer_sanityCheck_def
      Transfer_resolveStateConflict_def Let_def emit_def)

theorem sanityCheck_conflict_witness:
  "Import_sanityCheck ex_Externals (conflict_Import True False) ex_World =
     (None, ex_World\<lparr>events :=
        [Warnf (''Existing state state exists in path bucket but --new-path wasn't specified.''
                @ [CHR 0x0A] @ ''--force specified. Proceeding...'')]\<rparr>)
   \<and> Import_sanityCheck ex_Externals (conflict_Import False True) ex_World =
     (None, ex_World\<lparr>events :=
        [Printf (''Existing state state exists in path bucket but --new-path wasn't specified.''
                 @ [CHR 0x0A] @ conflict_warn @ [CHR 0x0A])]\<rparr>)
   \<and> Transfer_sanityCheck ex_Externals (conflict_Transfer False False) ex_World =
     (Returns (Some (Errorf_error
        (''Existing state exists at bucket/state but --new-path wasn't specified.''
         @ [CHR 0x0A] @ conflict_warn))), ex_World)"
  using sanityCheck_conflict [of "conflict_Import True False" "conflict_Transfer False False"
      ex_State_read _ ex_Externals _ ex_World, OF _ _ _ _ _ refl refl]
    sanityCheck_conflict [of "conflict_Import False True" "conflict_Transfer False False"
      ex_State_read _ ex_Externals _ ex_World, OF _ _ _ _ _ refl refl]
  by (simp add: conflict_Import_def conflict_Transfer_def ex_State_read_def ex_State_def
      ex_Config_def ex_Externals_def ex_World_def Path_def remoteFilePath_def mem_Backend_def)

section \<open>The namespace filter\<close>

lemma includeReleasesByNamespace_loop_filter:
  "includeReleasesByNamespace_loop t h releases deploy =
     deploy @ filter (\<lambda>r. Namespace (h r) = Import_Namespace (Import (Import_Config t))) releases"
  by (induction releases arbitrary: deploy) simp_all

lemma excludeReleasesByNamespace_bMatch_set:
  "excludeReleasesByNamespace_bMatch ns namespaces \<longleftrightarrow> ns \<in> set namespaces"
  by (induction namespaces) auto

lemma excludeReleasesByNamespace_loop_filter:
  "excludeReleasesByNamespace_loop t h releases deploy =
     deploy @ filter (\<lambda>r. Namespace (h r) \<notin> set (ExcludeNamespaces (Import (Import_Config t)))) releases"
  by (induction releases arbitrary: deploy) (simp_all add: excludeReleasesByNamespace_bMatch_set)

text \<open>Claim C7. With a namespace to retain configured, the filter keeps the releases of
  that namespace, in their order; otherwise, with a list of namespaces to exclude, it
  drops the releases whose namespace is in the list and no other; otherwise it returns
  the batch as it is. So a release of the namespace to retain is kept even when that
  namespace is in the list to exclude.\<close>

theorem filterReleasesByNamespace_spec:
  "filterReleasesByNamespace t h releases =
     (if Import_Namespace (Import (Import_Config t)) \<noteq> ''''
      then filter (\<lambda>r. Namespace (h r) = Import_Namespace (Import (Import_Config t))) releases
      else if ExcludeNamespaces (Import (Import_Config t)) \<noteq> []
      then filter (\<lambda>r. Namespace (h r) \<notin> set (ExcludeNamespaces (Import (Import_Config t)))) releases
      else releases)
   \<and> (Import_Namespace (Import (Import_Config t)) \<noteq> '''' \<longrightarrow>
        (\<forall>r \<in> set releases.
           Namespace (h r) = Import_Namespace (Import (Import_Config t))
           \<and> Namespace (h r) \<in> set (ExcludeNamespaces (Import (Import_Config t))) \<longrightarrow>
           r \<in> set (filterReleasesByNamespace t h releases)))"
  by (simp add: filterReleasesByNamespace_def includeReleasesByNamespace_def
      excludeReleasesByNamespace_def includeReleasesByNamespace_loop_filter
      excludeReleasesByNamespace_loop_filter)

theorem filterReleasesByNamespace_spec_witness:
  "Namespace (ex_heap 0) = Import_Namespace (Import (Import_Config both_Import))
   \<and> Namespace (ex_heap 0) \<in> set (ExcludeNamespaces (Import (Import_Config both_Import)))
   \<and> filterReleasesByNamespace both_Import ex_heap [0, 1] = [0]"
  using filterReleasesByNamespace_spec [of both_Import ex_heap "[0, 1]"]
  by (simp add: both_Import_def ex_Import_def ex_Config_def ex_heap_def ex_Release_def)

section \<open>The state record\<close>

lemma writes_append: "writes (es @ es') = writes es @ writes es'"
  by (induction es rule: writes.induct) simp_all

lemma installs_append: "installs (es @ es') = installs es @ installs es'"
  by (induction es rule: installs.induct) simp_all

lemma Path_init_update: "Path ext (s\<lparr>init := b\<rparr>) = Path ext s"
  by (simp add: Path_def remoteFilePath_def)

text \<open>Claim C10. With an empty manager release name, \<open>Update\<close> returns \<open>nil\<close>, leaves
  the state and the store as they are, and calls no operation of the backend: all it
  does is log one debug line.\<close>

theorem Update_without_release_name:
  assumes "Export_ReleaseName (Export (State_Config s)) = ''''"
  shows "State_Update ext s releases w =
           (None, s, w\<lparr>events := events w @ [Debugf ''--release-name not specified. Ignoring state.'']\<rparr>)
         \<and> store (snd (snd (State_Update ext s releases w))) = store w
         \<and> filter is_backend_call (events (snd (snd (State_Update ext s releases w))))
             = filter is_backend_call (events w)"
  using assms by (simp add: State_Update_def emit_def)

theorem Update_without_release_name_witness:
  "Export_ReleaseName (Export (State_Config unnamed_State)) = ''''
   \<and> State_Update ex_Externals unnamed_State [ex_Release ''mgr'' ''default''] ex_World =
       (None, unnamed_State,
        ex_World\<lparr>events := [Debugf ''--release-name not specified. Ignoring state.'']\<rparr>)"
  using Update_without_release_name [of unnamed_State ex_Externals
      "[ex_Release ''mgr'' ''default'']" ex_World]
  by (simp add: ex_World_def unnamed_State_def)

lemma State_Update_loop_find:
  assumes "Export_ReleaseName (Export (State_Config s)) \<noteq> ''''"
  shows "State_Update_loop ext s releases w =
     (case find (\<lambda>r. Name r = Export_ReleaseName (Export (State_Config s))) releases of
        Some r \<Rightarrow>
          State_updateState ext s
            \<lparr>ReleaseFilename = release_Filename ext r,
             ReleaseName = Export_ReleaseName (Export (State_Config s)),
             ReleaseVersion = Version r\<rparr> w
      | None \<Rightarrow>
          (fst (Delete (State_Backend s) (store w) (Path ext s)), s,
           w\<lparr>store := snd (Delete (State_Backend s) (store w) (Path ext s)),
             events := events w
               @ [Debugf (''Release manager release '' @ Export_ReleaseName (Export (State_Config s))
                          @ '' doesn't exist. Removing state.''),
                  Debugf (''Removing remote state '' @ Path ext s),
                  BackendDelete (Path ext s)]\<rparr>))"
  using assms
  by (induction releases)
     (simp_all add: isManagerRelease_def State_delete_def Backend_Delete_def emit_def Let_def
        split: prod.splits)

text \<open>Claim C5. With a manager release name configured: if a release of the list has
  that name, \<open>Update\<close> is \<open>updateState\<close> on the record made of the file name of the first
  such release, the configured name and the version of the release (so the record is
  written under the rule of \<open>updateState\<close>); if none has, \<open>Update\<close> deletes the state file
  of the backend and returns what the backend's \<open>Delete\<close> returns.\<close>

theorem Update_manager_release:
  assumes "Export_ReleaseName (Export (State_Config s)) \<noteq> ''''"
  shows "(\<forall>r. find (\<lambda>r. Name r = Export_ReleaseName (Export (State_Config s))) releases = Some r \<longrightarrow>
            State_Update ext s releases w =
              State_updateState ext s
                \<lparr>ReleaseFilename = release_Filename ext r,
                 ReleaseName = Export_ReleaseName (Export (State_Config s)),
                 ReleaseVersion = Version r\<rparr> w)
       \<and> ((\<forall>r \<in> set releases. Name r \<noteq> Export_ReleaseName (Export (State_Config s))) \<longrightarrow>
            State_Update ext s releases w =
              (fst (Delete (State_Backend s) (store w) (Path ext s)), s,
               w\<lparr>store := snd (Delete (State_Backend s) (store w) (Path ext s)),
                 events := events w
                   @ [Debugf (''Release manager release '' @ Export_ReleaseName (Export (State_Config s))
                              @ '' doesn't exist. Removing state.''),
                      Debugf (''Removing remote state '' @ Path ext s),
                      BackendDelete (Path ext s)]\<rparr>))"
proof -
  have "(\<forall>r \<in> set releases. Name r \<noteq> Export_ReleaseName (Export (State_Config s))) \<Longrightarrow>
        find (\<lambda>r. Name r = Export_ReleaseName (Export (State_Config s))) releases = None"
    by (simp add: find_None_iff)
  then show ?thesis
    using assms State_Update_loop_find [OF assms, of ext releases w]
    by (auto simp: State_Update_def)
qed

theorem Update_manager_release_witness:
  "Export_ReleaseName (Export (State_Config ex_State)) \<noteq> ''''
   \<and> find (\<lambda>r. Name r = Export_ReleaseName (Export (State_Config ex_State)))
        [ex_Release ''a'' ''default'', ex_Release ''mgr'' ''default''] = Some (ex_Release ''mgr'' ''default'')
   \<and> State_Update ex_Externals ex_State
        [ex_Release ''a'' ''default'', ex_Release ''mgr'' ''default''] ex_World =
       (None, ex_State\<lparr>init := True\<rparr>,
        ex_World\<lparr>store := [(''bucket/state'', ''mgr'')],
                 events := [Debugf ''Updating state mgr.'', BackendWrite ''bucket/state'' ''mgr'']\<rparr>)
   \<and> State_Update ex_Externals ex_State [ex_Release ''a'' ''default''] ex_World =
       (None, ex_State,
        ex_World\<lparr>events := [Debugf ''Release manager release mgr doesn't exist. Removing state.'',
                            Debugf ''Removing remote state bucket/state'',
                            BackendDelete ''bucket/state'']\<rparr>)"
  using Update_manager_release [where s = ex_State and ext = ex_Externals and w = ex_World
      and releases = "[ex_Release ''a'' ''default'', ex_Release ''mgr'' ''default'']"]
    Update_manager_release [where s = ex_State and ext = ex_Externals and w = ex_World
      and releases = "[ex_Release ''a'' ''default'']"]
  by (simp add: State_updateState_def State_write_def Backend_Write_def emit_def Path_def
      remoteFilePath_def ex_State_def ex_Externals_def ex_Config_def mem_Backend_def
      ex_World_def ex_Release_def)

subsection \<open>Change detection\<close>

lemma updateState_first:
  assumes "Info_Serialize ext i = Inr f" and "\<not> init s"
  shows "State_updateState ext s i w =
           (fst (Write (State_Backend s) (store w) (Path ext s) f), s\<lparr>init := True\<rparr>,
            w\<lparr>store := snd (Write (State_Backend s) (store w) (Path ext s) f),
              events := events w @ [Debugf (''Updating state '' @ ReleaseName i @ ''.''),
                                    BackendWrite (Path ext s) f]\<rparr>)"
  using assms
  by (simp add: State_updateState_def State_write_def Backend_Write_def emit_def
      Path_init_update split: prod.splits)

lemma State_read_writes:
  "State_read ext s w = (r, w') \<Longrightarrow> writes (events w') = writes (events w)"
  by (auto simp: State_read_def Backend_Read_def emit_def Let_def writes_append
      split: prod.splits sum.splits)

lemma State_write_writes:
  assumes "Info_Serialize ext i = Inr f" and "State_write ext s i w = (r, w')"
  shows "writes (events w') = writes (events w) @ [(Path ext s, f)]"
  using assms
  by (auto simp: State_write_def Backend_Write_def emit_def writes_append split: prod.splits)

text \<open>An invocation after the first reads the record back, and writes if and only if the
  read fails or the record read is not the candidate.\<close>

lemma updateState_later:
  assumes "Info_Serialize ext i = Inr f" and "init s"
    and "State_updateState ext s i w = (r, s', w')"
  shows "writes (events w') =
           writes (events w) @ (if fst (State_read ext s w) = (Some i, None) then []
                                else [(Path ext s, f)])
         \<and> init s'"
proof -
  obtain oldInfo e w1 where rd: "State_read ext s w = ((oldInfo, e), w1)"
    by (metis surj_pair)
  have w1: "writes (events w1) = writes (events w)"
    using rd by (rule State_read_writes)
  show ?thesis
  proof (cases e)
    case None
    show ?thesis
    proof (cases "oldInfo = Some i")
      case True
      then show ?thesis
        using assms rd w1 None by (simp add: State_updateState_def)
    next
      case False
      obtain r' w2 where wr:
        "State_write ext s i (emit (Debugf (''Updating state '' @ ReleaseName i @ ''.'')) w1) = (r', w2)"
        by (metis surj_pair)
      have "writes (events w2) = writes (events w) @ [(Path ext s, f)]"
        using State_write_writes [OF assms(1) wr] w1 by (simp add: emit_def writes_append)
      then show ?thesis
        using assms rd None False wr by (simp add: State_updateState_def)
    qed
  next
    case (Some err)
    obtain r' w2 where wr:
      "State_write ext s i
         (emit (Debugf (''Updating state '' @ ReleaseName i @ ''.''))
            (emit (Warnf (''Error reading remote state: '' @ Error_string err)) w1)) = (r', w2)"
      by (metis surj_pair)
    have "writes (events w2) = writes (events w) @ [(Path ext s, f)]"
      using State_write_writes [OF assms(1) wr] w1 by (simp add: emit_def writes_append)
    then show ?thesis
      using assms rd Some wr by (simp add: State_updateState_def)
  qed
qed

text \<open>Claim C3. \<open>updateState\<close> is invoked twice in a run, from \<open>init = False\<close>, with the
  same candidate \<open>i\<close>, whose serialisation is \<open>f\<close>. The first invocation writes \<open>f\<close> to the
  state file without reading. The second writes again exactly when the read of the state
  file fails or gives a record other than \<open>i\<close>. So when the record read back is the
  candidate, the two invocations make one write to the backend.\<close>

theorem updateState_twice:
  assumes "Info_Serialize ext i = Inr f" and "\<not> init s"
    and "State_updateState ext s i w = (r1, s1, w1)"
    and "State_updateState ext s1 i w1 = (r2, s2, w2)"
  shows "writes (events w1) = writes (events w) @ [(Path ext s, f)]
       \<and> writes (events w2) =
           writes (events w1) @ (if fst (State_read ext s1 w1) = (Some i, None) then []
                                 else [(Path ext s, f)])
       \<and> (fst (State_read ext s1 w1) = (Some i, None) \<longrightarrow>
            writes (events w2) = writes (events w) @ [(Path ext s, f)])"
proof -
  have first: "s1 = s\<lparr>init := True\<rparr>"
      "writes (events w1) = writes (events w) @ [(Path ext s, f)]"
    using updateState_first [OF assms(1,2), of w] assms(3) by (auto simp: writes_append)
  have "init s1" and "Path ext s1 = Path ext s"
    using first(1) by (simp_all add: Path_init_update)
  then show ?thesis
    using updateState_later [OF assms(1) _ assms(4)] first(2) by simp
qed

theorem updateState_twice_witness:
  "Info_Serialize ex_Externals ex_Info = Inr ''mgr'' \<and> \<not> init ex_State
   \<and> (case State_updateState ex_Externals ex_State ex_Info ex_World of
        (r1, s1, w1) \<Rightarrow>
          (case State_updateState ex_Externals s1 ex_Info w1 of
             (r2, s2, w2) \<Rightarrow>
               fst (State_read ex_Externals s1 w1) = (Some ex_Info, None)
               \<and> writes (events w1) = [(''bucket/state'', ''mgr'')]
               \<and> writes (events w2) = [(''bucket/state'', ''mgr'')]))"
proof -
  obtain r1 s1 w1 where a: "State_updateState ex_Externals ex_State ex_Info ex_World = (r1, s1, w1)"
    by (metis surj_pair)
  obtain r2 s2 w2 where b: "State_updateState ex_Externals s1 ex_Info w1 = (r2, s2, w2)"
    by (metis surj_pair)
  have ser: "Info_Serialize ex_Externals ex_Info = Inr ''mgr''"
    by (simp add: ex_Externals_def ex_Info_def)
  have ini: "\<not> init ex_State" by (simp add: ex_State_def)
  have w1: "s1 = ex_State\<lparr>init := True\<rparr>"
     "w1 = ex_World\<lparr>store := [(''bucket/state'', ''mgr'')],
              events := [Debugf ''Updating state mgr.'', BackendWrite ''bucket/state'' ''mgr'']\<rparr>"
    using a
    by (auto simp: State_updateState_def State_write_def Backend_Write_def emit_def Path_def
        remoteFilePath_def ex_State_def ex_Externals_def ex_Info_def ex_Config_def mem_Backend_def
        ex_World_def)
  have rd: "fst (State_read ex_Externals s1 w1) = (Some ex_Info, None)"
    unfolding w1
    by (simp add: State_read_def Backend_Read_def emit_def Path_def
        remoteFilePath_def ex_State_def ex_Externals_def ex_Info_def ex_Config_def mem_Backend_def
        ex_World_def Let_def)
  have p: "Path ex_Externals ex_State = ''bucket/state''"
    by (simp add: Path_def remoteFilePath_def ex_State_def ex_Externals_def
        ex_Config_def mem_Backend_def)
  have "writes (events w1) = [(''bucket/state'', ''mgr'')]"
    and "writes (events w2) = [(''bucket/state'', ''mgr'')]"
    using updateState_twice [OF ser ini a b] rd p by (simp_all add: ex_World_def)
  then show ?thesis
    using a b rd ser ini by simp
qed

section \<open>Deployment\<close>

lemma reads_append: "reads (es @ es') = reads es @ reads es'"
  by (induction es rule: reads.induct) simp_all

lemma printed_append: "printed (es @ es') = printed es @ printed es'"
  by (induction es rule: printed.induct) simp_all

lemma errors_logged_append: "errors_logged (es @ es') = errors_logged es @ errors_logged es'"
  by (induction es rule: errors_logged.induct) simp_all

lemma Import_deployReleases_start_frame:
  "events (Import_deployReleases_start t r w) =
     events w @ [Printf (''Deploying release '' @ Name (heap w r) @ '' to namespace ''
                         @ Namespace (heap w r) @ [CHR 0x0A])]
   \<and> heap (Import_deployReleases_start t r w) = (heap w)(r := retarget t (heap w r))
   \<and> cluster (Import_deployReleases_start t r w) = cluster w
   \<and> store (Import_deployReleases_start t r w) = store w"
  by (simp add: Import_deployReleases_start_def emit_def retarget_def Let_def)

lemma Import_updateManagerRelease_frame:
  assumes "Import_updateManagerRelease ext t r w = (res, w')"
  shows "events w' = events w \<and> cluster w' = cluster w \<and> store w' = store w"
  using assms
  by (auto simp: Import_updateManagerRelease_def Import_updateManagerStoragePath_def
      split: if_splits option.splits prod.splits)

lemma Import_deployRelease_effects:
  assumes "Import_deployRelease ext t r w = (res, w')"
  shows "installs (events w') = installs (events w) @ [heap w r]
       \<and> errors_logged (events w') = errors_logged (events w)
       \<and> heap w' = heap w \<and> store w' = store w"
  using assms
  by (auto simp: Import_deployRelease_def emit_def Let_def installs_append errors_logged_append
      split: prod.splits option.splits if_splits)

lemma retarget_idem: "retarget t (retarget t x) = retarget t x"
  by (simp add: retarget_def)

lemma Import_updateManagerRelease_no_path:
  assumes "Import_NewStoragePath (Import (Import_Config t)) = ''''"
  shows "Import_updateManagerRelease ext t r w = (Inr r, w)"
  using assms by (simp add: Import_updateManagerRelease_def)

lemma Transfer_updateManagerRelease_frame:
  assumes "Transfer_updateManagerRelease ext t r w = (res, w')"
  shows "events w' = events w \<and> cluster w' = cluster w \<and> store w' = store w
       \<and> res \<noteq> Blocks \<and> res \<noteq> Exits \<and> (Transfer_State t \<noteq> None \<longrightarrow> res \<noteq> Panics)"
  using assms
  by (auto simp: Transfer_updateManagerRelease_def Transfer_updateManagerStoragePath_def
      split: if_splits option.splits prod.splits)

lemma Transfer_updateManagerRelease_no_path:
  assumes "Transfer_NewStoragePath (Transfer (Transfer_Config t)) = ''''"
  shows "Transfer_updateManagerRelease ext t r w = (Returns (Inr r), w)"
  using assms by (simp add: Transfer_updateManagerRelease_def)

subsection \<open>The semaphore of the import\<close>

lemma length_remove_at: "k < length xs \<Longrightarrow> length (remove_at k xs) = length xs - 1"
  by (simp add: remove_at_def)

lemma Import_deployReleases_body_dry:
  "DryRun (Import_Config t) \<Longrightarrow> fst (Import_deployReleases_body ext t r w) = None"
  by (simp add: Import_deployReleases_body_def split: prod.splits sum.splits)

lemma Import_step_inv:
  assumes "Import_inv ext t m"
  shows "Import_inv ext t (Import_deployReleases_step ext t c m)"
proof (cases c)
  case Main
  show ?thesis
  proof (cases "pos m")
    case (Looping releases)
    show ?thesis
    proof (cases releases)
      case Nil
      then show ?thesis
        using assms Main Looping by (simp add: Import_inv_def Import_deployReleases_step_def)
    next
      case (Cons r rs)
      obtain res w' where b: "Import_deployReleases_body ext t r (world m) = (res, w')"
        by (metis surj_pair)
      have "DryRun (Import_Config t) \<Longrightarrow> res = None"
        using Import_deployReleases_body_dry [of t ext r "world m"] b by simp
      then show ?thesis
        using assms Main Looping Cons b
        by (cases res) (auto simp: Import_inv_def Import_deployReleases_step_def)
    qed
  next
    case (Sending r releases)
    then show ?thesis
      using assms Main by (auto simp: Import_inv_def Import_deployReleases_step_def)
  next
    case (Filling i)
    then show ?thesis
      using assms Main by (auto simp: Import_inv_def Import_deployReleases_step_def)
  qed (use assms Main in \<open>auto simp: Import_inv_def Import_deployReleases_step_def\<close>)
next
  case (Body k)
  then show ?thesis
    using assms
    by (cases "pos m") (auto simp: Import_inv_def Import_deployReleases_step_def length_remove_at)
next
  case Deferred
  then show ?thesis
    using assms
    by (cases "pos m") (auto simp: Import_inv_def Import_deployReleases_step_def)
qed

lemma Import_run_inv:
  "Import_inv ext t m \<Longrightarrow> Import_inv ext t (Import_deployReleases_run ext t sched m)"
  by (induction sched arbitrary: m) (simp_all add: Import_step_inv)

lemma Import_inv_Returned:
  assumes "Import_inv ext t m" and "pos m = Returned"
  shows "started m = [] \<and> ending m = 0"
proof -
  have "sem m = length (started m) + ending m + filled ext (pos m)"
    and "sem m \<le> constants_ImportMaxThreads ext"
    using assms(1) unfolding Import_inv_def by blast+
  moreover have "filled ext (pos m) = constants_ImportMaxThreads ext"
    using assms(2) by simp
  ultimately have "length (started m) + ending m = 0"
    by linarith
  then show ?thesis by simp
qed

lemma Import_inv_bound:
  assumes "Import_inv ext t m"
  shows "length (started m) + ending m \<le> constants_ImportMaxThreads ext"
  using assms by (simp add: Import_inv_def)


lemma to_do_step:
  "to_do ext (pos (Import_deployReleases_step ext t c m)) \<le> to_do ext (pos m)"
proof (cases c)
  case Main
  show ?thesis
  proof (cases "pos m")
    case (Looping releases)
    then show ?thesis
      using Main
      by (cases releases)
         (auto simp: Import_deployReleases_step_def split: prod.splits option.splits)
  qed (use Main in \<open>auto simp: Import_deployReleases_step_def\<close>)
qed (auto simp: Import_deployReleases_step_def)

lemma to_do_run:
  "to_do ext (pos (Import_deployReleases_run ext t sched m)) \<le> to_do ext (pos m)"
proof (induction sched arbitrary: m)
  case Nil
  show ?case by simp
next
  case (Cons c sched)
  show ?case
    using Cons [of "Import_deployReleases_step ext t c m"] to_do_step [of ext t c m]
    by simp
qed

lemma Import_run_bodies:
  "length (started m) = n \<Longrightarrow>
     started (Import_deployReleases_run ext t (replicate n (Body 0)) m) = []
     \<and> ending (Import_deployReleases_run ext t (replicate n (Body 0)) m) = ending m + n
     \<and> sem (Import_deployReleases_run ext t (replicate n (Body 0)) m) = sem m
     \<and> pos (Import_deployReleases_run ext t (replicate n (Body 0)) m) = pos m"
proof (induction n arbitrary: m)
  case 0
  then show ?case by simp
next
  case (Suc n)
  let ?m = "Import_deployReleases_step ext t (Body 0) m"
  have "length (started ?m) = n" "ending ?m = ending m + 1" "sem ?m = sem m" "pos ?m = pos m"
    using Suc.prems by (simp_all add: Import_deployReleases_step_def length_remove_at)
  then show ?case
    using Suc.IH [of ?m] by simp
qed

lemma Import_run_deferreds:
  "ending m = n \<Longrightarrow> n \<le> sem m \<Longrightarrow>
     ending (Import_deployReleases_run ext t (replicate n Deferred) m) = 0
     \<and> sem (Import_deployReleases_run ext t (replicate n Deferred) m) = sem m - n
     \<and> started (Import_deployReleases_run ext t (replicate n Deferred) m) = started m
     \<and> pos (Import_deployReleases_run ext t (replicate n Deferred) m) = pos m"
proof (induction n arbitrary: m)
  case 0
  then show ?case by simp
next
  case (Suc n)
  let ?m = "Import_deployReleases_step ext t Deferred m"
  have "ending ?m = n" "sem ?m = sem m - 1" "started ?m = started m" "pos ?m = pos m"
      "n \<le> sem ?m"
    using Suc.prems by (simp_all add: Import_deployReleases_step_def)
  then show ?case
    using Suc.IH [of ?m] by simp
qed

lemma Import_round:
  assumes "Import_inv ext t m"
  shows "Import_inv ext t (Import_deployReleases_round ext t m)
       \<and> (pos m = Returned \<or>
           to_do ext (pos (Import_deployReleases_round ext t m)) < to_do ext (pos m))"
proof -
  let ?m1 = "Import_deployReleases_run ext t (replicate (length (started m)) (Body 0)) m"
  let ?m2 = "Import_deployReleases_run ext t (replicate (ending ?m1) Deferred) ?m1"
  have i1: "Import_inv ext t ?m1" using assms by (rule Import_run_inv)
  have i2: "Import_inv ext t ?m2" using i1 by (rule Import_run_inv)
  have m1: "started ?m1 = []" "pos ?m1 = pos m"
    using Import_run_bodies [of m "length (started m)" ext t] by simp_all
  have le: "ending ?m1 \<le> sem ?m1"
    using i1 by (simp add: Import_inv_def)
  have m2: "ending ?m2 = 0" "started ?m2 = []" "pos ?m2 = pos m"
    using Import_run_deferreds [of ?m1 "ending ?m1" ext t] le m1 by simp_all
  have round: "Import_deployReleases_round ext t m = Import_deployReleases_step ext t Main ?m2"
    by (simp add: Import_deployReleases_round_def Let_def)
  have inv: "Import_inv ext t (Import_deployReleases_round ext t m)"
    unfolding round using i2 by (rule Import_step_inv)
  have "pos m = Returned \<or>
        to_do ext (pos (Import_deployReleases_step ext t Main ?m2)) < to_do ext (pos m)"
  proof (cases "pos m")
    case (Looping releases)
    then show ?thesis
      using m2
      by (cases releases)
         (auto simp: Import_deployReleases_step_def split: prod.splits option.splits)
  next
    case (Sending r releases)
    then show ?thesis
      using m2 i2 by (auto simp: Import_deployReleases_step_def Import_inv_def)
  next
    case (Filling i)
    then show ?thesis
      using m2 i2 by (auto simp: Import_deployReleases_step_def Import_inv_def)
  qed (use assms in \<open>auto simp: Import_inv_def\<close>)
  then show ?thesis using inv round by simp
qed

lemma Import_round_Returned:
  "pos m = Returned \<Longrightarrow> pos (Import_deployReleases_round ext t m) = Returned"
proof -
  assume r: "pos m = Returned"
  have "to_do ext (pos (Import_deployReleases_round ext t m)) \<le> to_do ext (pos m)"
    unfolding Import_deployReleases_round_def Let_def
    by (meson le_trans to_do_run to_do_step)
  then have "to_do ext (pos (Import_deployReleases_round ext t m)) = 0"
    using r by simp
  then show ?thesis
    by (cases "pos (Import_deployReleases_round ext t m)") simp_all
qed

lemma Import_rounds:
  assumes "Import_inv ext t m" and "to_do ext (pos m) \<le> n"
  shows "pos (Import_deployReleases_rounds ext t n m) = Returned
       \<and> Import_inv ext t (Import_deployReleases_rounds ext t n m)"
  using assms
proof (induction n arbitrary: m)
  case 0
  then show ?case by (cases "pos m") simp_all
next
  case (Suc n)
  let ?m = "Import_deployReleases_round ext t m"
  note r = Import_round [OF Suc.prems(1)]
  have "to_do ext (pos ?m) \<le> n"
  proof (cases "pos m = Returned")
    case True
    then show ?thesis using Import_round_Returned [of m ext t] by simp
  next
    case False
    then show ?thesis using r Suc.prems(2) by auto
  qed
  then show ?case using Suc.IH [of ?m] r by simp
qed

lemma Import_deployReleases_body_effects:
  assumes "\<not> DryRun (Import_Config t)"
    and "Import_deployReleases_body ext t r w = (res, w')"
  shows "installs (events w') = installs (events w)
       \<and> length (errors_logged (events w')) =
           length (errors_logged (events w)) + (if res = None then 1 else 0)"
proof -
  obtain x w3 where um:
    "Import_updateManagerRelease ext t r (Import_deployReleases_start t r w) = (x, w3)"
    by (metis surj_pair)
  have ev3: "events w3 = events w @ [Printf (''Deploying release '' @ Name (heap w r) @ '' to namespace ''
                             @ Namespace (heap w r) @ [CHR 0x0A])]"
    using Import_updateManagerRelease_frame [OF um] Import_deployReleases_start_frame [of t r w]
    by simp
  show ?thesis
    using assms um ev3
    by (cases x)
       (auto simp: Import_deployReleases_body_def emit_def installs_append errors_logged_append)
qed

lemma Import_step_accounted:
  assumes "\<not> DryRun (Import_Config t)"
  shows "accounted (Import_deployReleases_step ext t c m) = accounted m"
proof (cases c)
  case Main
  show ?thesis
  proof (cases "pos m")
    case (Looping releases)
    show ?thesis
    proof (cases releases)
      case Nil
      then show ?thesis
        using Main Looping by (simp add: accounted_def Import_deployReleases_step_def)
    next
      case (Cons r rs)
      obtain res w' where b: "Import_deployReleases_body ext t r (world m) = (res, w')"
        by (metis surj_pair)
      show ?thesis
        using Main Looping Cons b Import_deployReleases_body_effects [OF assms b]
        by (cases res) (simp_all add: accounted_def Import_deployReleases_step_def)
    qed
  qed (use Main in \<open>auto simp: accounted_def Import_deployReleases_step_def\<close>)
next
  case (Body k)
  show ?thesis
  proof (cases "k < length (started m)")
    case True
    obtain res w' where d: "Import_deployRelease ext t (started m ! k) (world m) = (res, w')"
      by (metis surj_pair)
    have "undispatched (pos m) = undispatched (pos m)" ..
    then show ?thesis
      using Body True d Import_deployRelease_effects [OF d]
      by (cases "started m")
         (simp_all add: accounted_def Import_deployReleases_step_def length_remove_at)
  next
    case False
    then show ?thesis using Body by (simp add: Import_deployReleases_step_def)
  qed
next
  case Deferred
  then show ?thesis by (simp add: accounted_def Import_deployReleases_step_def)
qed

lemma Import_run_accounted:
  assumes "\<not> DryRun (Import_Config t)"
  shows "accounted (Import_deployReleases_run ext t sched m) = accounted m"
  by (induction sched arbitrary: m) (simp_all add: Import_step_accounted [OF assms])

lemma Import_round_accounted:
  assumes "\<not> DryRun (Import_Config t)"
  shows "accounted (Import_deployReleases_round ext t m) = accounted m"
  by (simp add: Import_deployReleases_round_def Let_def Import_step_accounted [OF assms]
      Import_run_accounted [OF assms])

lemma Import_rounds_accounted:
  assumes "\<not> DryRun (Import_Config t)"
  shows "accounted (Import_deployReleases_rounds ext t n m) = accounted m"
  by (induction n arbitrary: m) (simp_all add: Import_round_accounted [OF assms])

lemma Import_inv_initial:
  "0 < constants_ImportMaxThreads ext \<or> DryRun (Import_Config t) \<Longrightarrow>
     Import_inv ext t \<lparr>pos = Looping releases, sem = 0, wg = 0, started = [], ending = 0, world = w\<rparr>"
  by (auto simp: Import_inv_def)

lemma Import_deployReleases_end_Returned:
  assumes "0 < constants_ImportMaxThreads ext \<or> DryRun (Import_Config t)"
  shows "pos (Import_deployReleases_end ext t releases sched w) = Returned
       \<and> started (Import_deployReleases_end ext t releases sched w) = []
       \<and> ending (Import_deployReleases_end ext t releases sched w) = 0"
proof -
  let ?m0 = "\<lparr>pos = Looping releases, sem = 0, wg = 0, started = [], ending = 0, world = w\<rparr>"
  let ?m1 = "Import_deployReleases_run ext t sched ?m0"
  have i1: "Import_inv ext t ?m1"
    using Import_inv_initial [OF assms(1)] by (rule Import_run_inv)
  have "to_do ext (pos ?m1) \<le> to_do ext (pos ?m0)" by (rule to_do_run)
  then have td: "to_do ext (pos ?m1) \<le> 2 * length releases + constants_ImportMaxThreads ext + 2"
    by simp
  note fin = Import_rounds [OF i1 td]
  then show ?thesis
    using Import_inv_Returned [of ext t "Import_deployReleases_end ext t releases sched w"]
    by (simp add: Import_deployReleases_end_def)
qed

lemma Import_deployReleases_end_accounted:
  assumes "0 < constants_ImportMaxThreads ext" and "\<not> DryRun (Import_Config t)"
  shows "length (installs (events (world (Import_deployReleases_end ext t releases sched w))))
         + length (errors_logged (events (world (Import_deployReleases_end ext t releases sched w))))
         = length (installs (events w)) + length (errors_logged (events w)) + length releases"
proof -
  let ?m = "Import_deployReleases_end ext t releases sched w"
  have "accounted ?m =
          accounted \<lparr>pos = Looping releases, sem = 0, wg = 0, started = [], ending = 0, world = w\<rparr>"
    by (simp only: Import_deployReleases_end_def Import_rounds_accounted [OF assms(2)]
        Import_run_accounted [OF assms(2)])
  moreover have "pos ?m = Returned" "started ?m = []"
    using Import_deployReleases_end_Returned [of ext t releases sched w] assms(1) by simp_all
  ultimately show ?thesis
    by (simp add: accounted_def)
qed

lemma Import_run_returned_accounted:
  assumes "0 < constants_ImportMaxThreads ext" and "\<not> DryRun (Import_Config t)"
    and "pos (Import_deployReleases_run ext t sched
               \<lparr>pos = Looping releases, sem = 0, wg = 0, started = [], ending = 0, world = w\<rparr>)
         = Returned"
  shows "length (installs (events (world (Import_deployReleases_run ext t sched
               \<lparr>pos = Looping releases, sem = 0, wg = 0, started = [], ending = 0, world = w\<rparr>))))
         + length (errors_logged (events (world (Import_deployReleases_run ext t sched
               \<lparr>pos = Looping releases, sem = 0, wg = 0, started = [], ending = 0, world = w\<rparr>))))
         = length (installs (events w)) + length (errors_logged (events w)) + length releases"
proof -
  let ?init = "\<lparr>pos = Looping releases, sem = 0, wg = 0, started = [], ending = 0, world = w\<rparr>"
  let ?m = "Import_deployReleases_run ext t sched ?init"
  have "Import_inv ext t ?m"
    using Import_inv_initial [of ext t releases w] assms(1) by (intro Import_run_inv) simp
  then have "started ?m = []"
    using Import_inv_Returned assms(3) by blast
  moreover have "accounted ?m = accounted ?init"
    by (rule Import_run_accounted [OF assms(2)])
  ultimately show ?thesis
    using assms(3) by (simp add: accounted_def)
qed

subsection \<open>The releases installed\<close>

lemma mset_remove_at:
  "k < length xs \<Longrightarrow> mset (remove_at k xs) + {#xs ! k#} = mset xs"
  unfolding remove_at_def
  by (metis add.commute add_mset_add_single append_take_drop_id id_take_nth_drop mset.simps(2)
      mset_append union_mset_add_mset_right)

lemma set_remove_at: "set (remove_at k xs) \<subseteq> set xs"
  unfolding remove_at_def by (auto dest: in_set_takeD in_set_dropD)

lemma Import_deployReleases_body_wet:
  assumes "\<not> DryRun (Import_Config t)"
    and "Import_NewStoragePath (Import (Import_Config t)) = ''''"
  shows "Import_deployReleases_body ext t r w = (Some r, Import_deployReleases_start t r w)"
  using assms
  by (simp add: Import_deployReleases_body_def Import_updateManagerRelease_no_path)

lemma Import_step_batch_inv:
  assumes "\<not> DryRun (Import_Config t)"
    and "Import_NewStoragePath (Import (Import_Config t)) = ''''"
    and "Import_batch_inv t batch m"
  shows "Import_batch_inv t batch (Import_deployReleases_step ext t c m)"
proof -
  have sum: "mset (installs (events (world m)))
       + mset (map (heap (world m)) (started m))
       + mset (map (\<lambda>r. retarget t (heap (world m) r)) (dispatching (pos m))) = batch"
    and st: "\<And>r. r \<in> set (started m) \<Longrightarrow> retarget t (heap (world m) r) = heap (world m) r"
    and sd: "\<And>r rs. pos m = Sending r rs \<Longrightarrow> retarget t (heap (world m) r) = heap (world m) r"
    using assms(3) unfolding Import_batch_inv_def by blast+
  show ?thesis
  proof (cases c)
    case Main
    show ?thesis
    proof (cases "pos m")
      case (Looping rs)
      show ?thesis
      proof (cases rs)
        case Nil
        then show ?thesis
          using assms(3) Main Looping
          by (simp add: Import_batch_inv_def Import_deployReleases_step_def)
      next
        case (Cons r rs')
        let ?w' = "Import_deployReleases_start t r (world m)"
        have step: "Import_deployReleases_step ext t c m = m\<lparr>pos := Sending r rs', world := ?w'\<rparr>"
          using Main Looping Cons Import_deployReleases_body_wet [OF assms(1,2)]
          by (simp add: Import_deployReleases_step_def)
        have ev: "installs (events ?w') = installs (events (world m))"
          and h: "heap ?w' = (heap (world m))(r := retarget t (heap (world m) r))"
          using Import_deployReleases_start_frame [of t r "world m"]
          by (simp_all add: installs_append)
        have hs: "\<And>x. x \<in> set (started m) \<Longrightarrow> heap ?w' x = heap (world m) x"
          using st by (auto simp: h)
        have hr: "\<And>x. retarget t (heap ?w' x) = retarget t (heap (world m) x)"
          by (simp add: h retarget_idem)
        have m1: "map (heap ?w') (started m) = map (heap (world m)) (started m)"
          by (rule map_cong) (simp_all add: hs)
        have "mset (installs (events ?w')) + mset (map (heap ?w') (started m))
              + mset (map (\<lambda>x. retarget t (heap ?w' x)) (r # rs')) = batch"
          using sum Looping Cons by (simp only: ev m1 hr dispatching.simps)
        moreover have "\<forall>x \<in> set (started m). retarget t (heap ?w' x) = heap ?w' x"
          using st by (simp add: hr hs)
        moreover have "retarget t (heap ?w' r) = heap ?w' r"
          by (simp add: h retarget_idem)
        ultimately show ?thesis
          unfolding step Import_batch_inv_def by simp
      qed
    next
      case (Sending r rs)
      show ?thesis
      proof (cases "sem m < constants_ImportMaxThreads ext")
        case True
        have step: "Import_deployReleases_step ext t c m =
                      m\<lparr>pos := Looping rs, sem := sem m + 1, started := started m @ [r]\<rparr>"
          using Main Sending True by (simp add: Import_deployReleases_step_def)
        have "mset (installs (events (world m)))
              + mset (map (heap (world m)) (started m @ [r]))
              + mset (map (\<lambda>r. retarget t (heap (world m) r)) rs) = batch"
          using sum Sending sd [OF Sending] by simp
        moreover have "\<forall>x \<in> set (started m @ [r]). retarget t (heap (world m) x) = heap (world m) x"
          using st sd [OF Sending] by auto
        ultimately show ?thesis
          unfolding step Import_batch_inv_def by simp
      next
        case False
        then show ?thesis
          using assms(3) Main Sending by (simp add: Import_deployReleases_step_def)
      qed
    next
      case (Filling i)
      then show ?thesis
        using assms(3) Main
        by (auto simp: Import_batch_inv_def Import_deployReleases_step_def)
    qed (use assms(3) Main in \<open>simp_all add: Import_deployReleases_step_def\<close>)
  next
    case (Body k)
    show ?thesis
    proof (cases "k < length (started m)")
      case True
      let ?r = "started m ! k"
      let ?w' = "snd (Import_deployRelease ext t ?r (world m))"
      have step: "Import_deployReleases_step ext t c m =
                    m\<lparr>started := remove_at k (started m), ending := ending m + 1, world := ?w'\<rparr>"
        using Body True by (simp add: Import_deployReleases_step_def)
      obtain res where "Import_deployRelease ext t ?r (world m) = (res, ?w')"
        by (metis prod.collapse)
      note e = Import_deployRelease_effects [OF this]
      have ev: "installs (events ?w') = installs (events (world m)) @ [heap (world m) ?r]"
        and h: "heap ?w' = heap (world m)"
        using e by simp_all
      have eq: "mset (map (heap (world m)) (remove_at k (started m))) + {#heap (world m) ?r#}
            = mset (map (heap (world m)) (started m))"
        using mset_remove_at [OF True] by (metis image_mset_add_mset image_mset_single
            image_mset_union mset_map)
      have "mset (installs (events ?w')) + mset (map (heap ?w') (remove_at k (started m)))
            + mset (map (\<lambda>r. retarget t (heap ?w' r)) (dispatching (pos m)))
            = mset (installs (events (world m)))
              + (mset (map (heap (world m)) (remove_at k (started m))) + {#heap (world m) ?r#})
              + mset (map (\<lambda>r. retarget t (heap (world m) r)) (dispatching (pos m)))"
        by (simp add: ev h)
      also have "\<dots> = batch"
        unfolding eq by (rule sum)
      finally have "mset (installs (events ?w')) + mset (map (heap ?w') (remove_at k (started m)))
            + mset (map (\<lambda>r. retarget t (heap ?w' r)) (dispatching (pos m))) = batch" .
      moreover have "\<forall>x \<in> set (remove_at k (started m)). retarget t (heap ?w' x) = heap ?w' x"
        using st set_remove_at [of k "started m"] by (auto simp: h)
      moreover have "\<forall>r rs. pos m = Sending r rs \<longrightarrow> retarget t (heap ?w' r) = heap ?w' r"
        using sd by (simp add: h)
      ultimately show ?thesis
        unfolding step Import_batch_inv_def by simp
    next
      case False
      then show ?thesis
        using assms(3) Body by (simp add: Import_deployReleases_step_def)
    qed
  next
    case Deferred
    then show ?thesis
      using assms(3) by (simp add: Import_batch_inv_def Import_deployReleases_step_def)
  qed
qed

lemma Import_run_batch_inv:
  assumes "\<not> DryRun (Import_Config t)"
    and "Import_NewStoragePath (Import (Import_Config t)) = ''''"
  shows "Import_batch_inv t batch m \<Longrightarrow>
         Import_batch_inv t batch (Import_deployReleases_run ext t sched m)"
  by (induction sched arbitrary: m) (simp_all add: Import_step_batch_inv [OF assms])

lemma Import_rounds_batch_inv:
  assumes "\<not> DryRun (Import_Config t)"
    and "Import_NewStoragePath (Import (Import_Config t)) = ''''"
  shows "Import_batch_inv t batch m \<Longrightarrow>
         Import_batch_inv t batch (Import_deployReleases_rounds ext t n m)"
proof (induction n arbitrary: m)
  case 0
  then show ?case by simp
next
  case (Suc n)
  have "Import_batch_inv t batch (Import_deployReleases_round ext t m)"
    unfolding Import_deployReleases_round_def Let_def
    by (intro Import_step_batch_inv [OF assms] Import_run_batch_inv [OF assms] Suc.prems)
  then show ?case using Suc.IH by simp
qed

lemma Import_deployReleases_installs:
  assumes "0 < constants_ImportMaxThreads ext"
    and "\<not> DryRun (Import_Config t)"
    and "Import_NewStoragePath (Import (Import_Config t)) = ''''"
  shows "mset (installs (events (snd (Import_deployReleases ext t releases sched w)))) =
           mset (installs (events w)) + mset (map (\<lambda>r. retarget t (heap w r)) releases)"
proof -
  let ?batch = "mset (installs (events w)) + mset (map (\<lambda>r. retarget t (heap w r)) releases)"
  let ?m = "Import_deployReleases_end ext t releases sched w"
  have "Import_batch_inv t ?batch
          \<lparr>pos = Looping releases, sem = 0, wg = 0, started = [], ending = 0, world = w\<rparr>"
    by (simp add: Import_batch_inv_def)
  then have "Import_batch_inv t ?batch ?m"
    unfolding Import_deployReleases_end_def
    by (intro Import_rounds_batch_inv [OF assms(2,3)] Import_run_batch_inv [OF assms(2,3)])
  moreover have "pos ?m = Returned" "started ?m = []"
    using Import_deployReleases_end_Returned [of ext t releases sched w] assms(1) by simp_all
  ultimately show ?thesis
    by (simp add: Import_batch_inv_def Import_deployReleases_def Let_def)
qed

subsection \<open>A channel of capacity zero\<close>

lemma Import_step_no_capacity:
  assumes "constants_ImportMaxThreads ext = 0"
    and "\<not> DryRun (Import_Config t)"
    and "Import_NewStoragePath (Import (Import_Config t)) = ''''"
    and "releases \<noteq> []"
    and "(pos m = Looping releases \<or> (\<exists>r rs. pos m = Sending r rs))
         \<and> started m = [] \<and> ending m = 0"
  shows "(pos (Import_deployReleases_step ext t c m) = Looping releases
          \<or> (\<exists>r rs. pos (Import_deployReleases_step ext t c m) = Sending r rs))
         \<and> started (Import_deployReleases_step ext t c m) = []
         \<and> ending (Import_deployReleases_step ext t c m) = 0"
proof (cases c)
  case Main
  from assms(5) consider "pos m = Looping releases" | r rs where "pos m = Sending r rs"
    by blast
  then show ?thesis
  proof cases
    case 1
    obtain r rs where "releases = r # rs"
      using assms(4) by (cases releases) simp_all
    then show ?thesis
      using 1 Main assms(5) Import_deployReleases_body_wet [OF assms(2,3)]
      by (simp add: Import_deployReleases_step_def)
  next
    case 2
    then show ?thesis
      using Main assms(1,5) by (simp add: Import_deployReleases_step_def)
  qed
next
  case (Body k)
  then show ?thesis
    using assms(5) by (simp add: Import_deployReleases_step_def)
next
  case Deferred
  then show ?thesis
    using assms(5) by (simp add: Import_deployReleases_step_def)
qed

lemma Import_run_no_capacity:
  assumes "constants_ImportMaxThreads ext = 0"
    and "\<not> DryRun (Import_Config t)"
    and "Import_NewStoragePath (Import (Import_Config t)) = ''''"
    and "releases \<noteq> []"
  shows "(pos m = Looping releases \<or> (\<exists>r rs. pos m = Sending r rs))
         \<and> started m = [] \<and> ending m = 0 \<Longrightarrow>
         (pos (Import_deployReleases_run ext t sched m) = Looping releases
          \<or> (\<exists>r rs. pos (Import_deployReleases_run ext t sched m) = Sending r rs))
         \<and> started (Import_deployReleases_run ext t sched m) = []
         \<and> ending (Import_deployReleases_run ext t sched m) = 0"
proof (induction sched arbitrary: m)
  case Nil
  then show ?case by simp
next
  case (Cons c sched)
  have "(pos (Import_deployReleases_step ext t c m) = Looping releases
          \<or> (\<exists>r rs. pos (Import_deployReleases_step ext t c m) = Sending r rs))
         \<and> started (Import_deployReleases_step ext t c m) = []
         \<and> ending (Import_deployReleases_step ext t c m) = 0"
    using assms Cons.prems by (rule Import_step_no_capacity)
  from Cons.IH [OF this] show ?case by simp
qed

lemma Import_rounds_no_capacity:
  assumes "constants_ImportMaxThreads ext = 0"
    and "\<not> DryRun (Import_Config t)"
    and "Import_NewStoragePath (Import (Import_Config t)) = ''''"
    and "releases \<noteq> []"
  shows "(pos m = Looping releases \<or> (\<exists>r rs. pos m = Sending r rs))
         \<and> started m = [] \<and> ending m = 0 \<Longrightarrow>
         (pos (Import_deployReleases_rounds ext t n m) = Looping releases
          \<or> (\<exists>r rs. pos (Import_deployReleases_rounds ext t n m) = Sending r rs))
         \<and> started (Import_deployReleases_rounds ext t n m) = []
         \<and> ending (Import_deployReleases_rounds ext t n m) = 0"
proof (induction n arbitrary: m)
  case 0
  then show ?case by simp
next
  case (Suc n)
  have st: "started m = []" "ending m = 0"
    using Suc.prems by simp_all
  have rd: "Import_deployReleases_round ext t m = Import_deployReleases_step ext t Main m"
    by (simp add: Import_deployReleases_round_def st)
  have "(pos (Import_deployReleases_round ext t m) = Looping releases
          \<or> (\<exists>r rs. pos (Import_deployReleases_round ext t m) = Sending r rs))
         \<and> started (Import_deployReleases_round ext t m) = []
         \<and> ending (Import_deployReleases_round ext t m) = 0"
    unfolding rd using assms Suc.prems by (rule Import_step_no_capacity)
  from Suc.IH [OF this] show ?case by simp
qed

text \<open>With a channel of capacity zero and no dry-run, the first send blocks for ever.\<close>

lemma Import_deployReleases_no_capacity:
  assumes "constants_ImportMaxThreads ext = 0"
    and "\<not> DryRun (Import_Config t)"
    and "Import_NewStoragePath (Import (Import_Config t)) = ''''"
    and "releases \<noteq> []"
  shows "fst (Import_deployReleases ext t releases sched w) = Blocks"
proof -
  let ?init = "\<lparr>pos = Looping releases, sem = 0, wg = 0, started = [], ending = 0, world = w\<rparr>"
  let ?m = "Import_deployReleases_run ext t sched ?init"
  have "(pos ?m = Looping releases \<or> (\<exists>r rs. pos ?m = Sending r rs))
        \<and> started ?m = [] \<and> ending ?m = 0"
    by (rule Import_run_no_capacity [OF assms]) simp
  note Import_rounds_no_capacity [OF assms this,
      of "2 * length releases + constants_ImportMaxThreads ext + 2"]
  then have "pos (Import_deployReleases_end ext t releases sched w) = Looping releases
             \<or> (\<exists>r rs. pos (Import_deployReleases_end ext t releases sched w) = Sending r rs)"
    unfolding Import_deployReleases_end_def by (rule conjunct1)
  then have "pos (Import_deployReleases_end ext t releases sched w) \<noteq> Returned"
    by auto
  then show ?thesis
    by (simp add: Import_deployReleases_def Let_def)
qed

text \<open>Claim C4. The capacity of the semaphore is positive. Then, under every schedule of
  the goroutines and whatever the installs return, \<open>Import.deployReleases\<close> returns \<open>nil\<close>.
  In every state that an execution reaches, the goroutines that have been started and
  have not received from \<open>sem\<close> are no more than the capacity; and when the function has
  returned, none is left that has still to call \<open>Install\<close> or to end: without dry-run,
  every release of the batch has then been submitted to \<open>Install\<close>, or skipped with an
  error logged because the rewrite of the manager's path failed. So it is in the world
  that the call leaves; and when no new path is configured, the releases submitted are
  those of the batch, each in the target namespace and each once, in an order that the
  schedule decides. And \<open>deployRelease\<close>, on an error of \<open>Install\<close> that
  \<open>lmhelm.ErrorReleaseExists\<close> recognises, prints that the release is skipped and returns
  \<open>nil\<close>; on another error it prints the error and returns it (to a goroutine that
  drops it).\<close>

theorem Import_deployReleases_never_aborts:
  assumes "0 < constants_ImportMaxThreads ext"
  shows "fst (Import_deployReleases ext t releases sched w) = Returns None
       \<and> length (started (Import_deployReleases_run ext t sched
            \<lparr>pos = Looping releases, sem = 0, wg = 0, started = [], ending = 0, world = w\<rparr>))
         + ending (Import_deployReleases_run ext t sched
            \<lparr>pos = Looping releases, sem = 0, wg = 0, started = [], ending = 0, world = w\<rparr>)
         \<le> constants_ImportMaxThreads ext
       \<and> (pos (Import_deployReleases_run ext t sched
            \<lparr>pos = Looping releases, sem = 0, wg = 0, started = [], ending = 0, world = w\<rparr>)
          = Returned \<longrightarrow>
            started (Import_deployReleases_run ext t sched
              \<lparr>pos = Looping releases, sem = 0, wg = 0, started = [], ending = 0, world = w\<rparr>) = []
            \<and> ending (Import_deployReleases_run ext t sched
              \<lparr>pos = Looping releases, sem = 0, wg = 0, started = [], ending = 0, world = w\<rparr>) = 0
            \<and> (\<not> DryRun (Import_Config t) \<longrightarrow>
                 length (installs (events (world (Import_deployReleases_run ext t sched
                   \<lparr>pos = Looping releases, sem = 0, wg = 0, started = [], ending = 0, world = w\<rparr>))))
                 + length (errors_logged (events (world (Import_deployReleases_run ext t sched
                   \<lparr>pos = Looping releases, sem = 0, wg = 0, started = [], ending = 0, world = w\<rparr>))))
                 = length (installs (events w)) + length (errors_logged (events w))
                   + length releases))
       \<and> (\<not> DryRun (Import_Config t) \<longrightarrow>
            length (installs (events (snd (Import_deployReleases ext t releases sched w))))
              + length (errors_logged (events (snd (Import_deployReleases ext t releases sched w))))
            = length (installs (events w)) + length (errors_logged (events w)) + length releases)
       \<and> (\<not> DryRun (Import_Config t) \<and> Import_NewStoragePath (Import (Import_Config t)) = '''' \<longrightarrow>
            mset (installs (events (snd (Import_deployReleases ext t releases sched w)))) =
              mset (installs (events w)) + mset (map (\<lambda>r. retarget t (heap w r)) releases))
       \<and> (\<forall>e c. Install (Import_HelmClient t) (cluster w) (heap w r) = (Some e, c) \<longrightarrow>
            Import_deployRelease ext t r w =
              (if lmhelm_ErrorReleaseExists ext e
               then (None, w\<lparr>cluster := c,
                              events := events w
                                @ [HelmInstall (heap w r),
                                   Printf (''Skipping release: '' @ Name (heap w r)
                                           @ '' already exists'' @ [CHR 0x0A])]\<rparr>)
               else (Some e, w\<lparr>cluster := c,
                                events := events w
                                  @ [HelmInstall (heap w r),
                                     Printf (''Error deploying release '' @ Name (heap w r) @ '': ''
                                             @ Error_string e @ [CHR 0x0A])]\<rparr>)))"
proof -
  let ?init = "\<lparr>pos = Looping releases, sem = 0, wg = 0, started = [], ending = 0, world = w\<rparr>"
  let ?m = "Import_deployReleases_run ext t sched ?init"
  have inv: "Import_inv ext t ?m"
    using Import_inv_initial [of ext t releases w] assms by (intro Import_run_inv) simp
  have ret: "fst (Import_deployReleases ext t releases sched w) = Returns None"
    using Import_deployReleases_end_Returned [of ext t releases sched w] assms
    by (simp add: Import_deployReleases_def Let_def)
  have bound: "length (started ?m) + ending ?m \<le> constants_ImportMaxThreads ext"
    using inv by (rule Import_inv_bound)
  have waited: "pos ?m = Returned \<Longrightarrow> started ?m = [] \<and> ending ?m = 0"
    using inv by (rule Import_inv_Returned)
  have counted: "pos ?m = Returned \<Longrightarrow> \<not> DryRun (Import_Config t) \<Longrightarrow>
      length (installs (events (world ?m))) + length (errors_logged (events (world ?m)))
      = length (installs (events w)) + length (errors_logged (events w)) + length releases"
    using Import_run_returned_accounted [OF assms] by blast
  have final: "\<not> DryRun (Import_Config t) \<Longrightarrow>
      length (installs (events (snd (Import_deployReleases ext t releases sched w))))
        + length (errors_logged (events (snd (Import_deployReleases ext t releases sched w))))
      = length (installs (events w)) + length (errors_logged (events w)) + length releases"
    using Import_deployReleases_end_accounted [OF assms, of t releases sched w]
    by (simp add: Import_deployReleases_def Let_def)
  have inst: "\<not> DryRun (Import_Config t) \<Longrightarrow>
      Import_NewStoragePath (Import (Import_Config t)) = '''' \<Longrightarrow>
      mset (installs (events (snd (Import_deployReleases ext t releases sched w)))) =
        mset (installs (events w)) + mset (map (\<lambda>r. retarget t (heap w r)) releases)"
    by (rule Import_deployReleases_installs [OF assms])
  have cls: "\<forall>e c. Install (Import_HelmClient t) (cluster w) (heap w r) = (Some e, c) \<longrightarrow>
            Import_deployRelease ext t r w =
              (if lmhelm_ErrorReleaseExists ext e
               then (None, w\<lparr>cluster := c,
                              events := events w
                                @ [HelmInstall (heap w r),
                                   Printf (''Skipping release: '' @ Name (heap w r)
                                           @ '' already exists'' @ [CHR 0x0A])]\<rparr>)
               else (Some e, w\<lparr>cluster := c,
                                events := events w
                                  @ [HelmInstall (heap w r),
                                     Printf (''Error deploying release '' @ Name (heap w r) @ '': ''
                                             @ Error_string e @ [CHR 0x0A])]\<rparr>))"
    by (simp add: Import_deployRelease_def emit_def Let_def)
  show ?thesis
    using ret bound waited counted final inst cls by blast
qed

text \<open>The batch is \<open>b\<close>, which the cluster refuses, then \<open>a\<close>, which it has already. Both
  goroutines are started before either runs, that of \<open>a\<close> installs first, and the
  schedule goes on until the function has returned.\<close>

theorem Import_deployReleases_never_aborts_witness:
  "0 < constants_ImportMaxThreads ex_Externals \<and> \<not> DryRun (Import_Config ex_Import)
   \<and> Import_NewStoragePath (Import (Import_Config ex_Import)) = ''''
   \<and> pos (Import_deployReleases_run ex_Externals ex_Import
            [Main, Main, Main, Main, Body 1, Body 0, Deferred, Deferred,
             Main, Main, Main, Main, Main, Main, Main]
            \<lparr>pos = Looping [1, 0], sem = 0, wg = 0, started = [], ending = 0,
              world = ex_World\<lparr>cluster := [''a'']\<rparr>\<rparr>) = Returned
   \<and> fst (Import_deployReleases ex_Externals ex_Import [1, 0]
            [Main, Main, Main, Main, Body 1, Body 0, Deferred, Deferred,
             Main, Main, Main, Main, Main, Main, Main]
            (ex_World\<lparr>cluster := [''a'']\<rparr>)) = Returns None
   \<and> map Name (installs (events (snd (Import_deployReleases ex_Externals ex_Import [1, 0]
            [Main, Main, Main, Main, Body 1, Body 0, Deferred, Deferred,
             Main, Main, Main, Main, Main, Main, Main]
            (ex_World\<lparr>cluster := [''a'']\<rparr>))))) = [''a'', ''b'']
   \<and> printed (events (snd (Import_deployReleases ex_Externals ex_Import [1, 0]
            [Main, Main, Main, Main, Body 1, Body 0, Deferred, Deferred,
             Main, Main, Main, Main, Main, Main, Main]
            (ex_World\<lparr>cluster := [''a'']\<rparr>)))) =
       [''Deploying release b to namespace kube-system'' @ [CHR 0x0A],
        ''Deploying release a to namespace default'' @ [CHR 0x0A],
        ''Skipping release: a already exists'' @ [CHR 0x0A],
        ''Error deploying release b: forbidden'' @ [CHR 0x0A]]
   \<and> length (installs (events (snd (Import_deployReleases ex_Externals ex_Import [1, 0]
            [Main, Main, Main, Main, Body 1, Body 0, Deferred, Deferred,
             Main, Main, Main, Main, Main, Main, Main]
            (ex_World\<lparr>cluster := [''a'']\<rparr>)))))
     + length (errors_logged (events (snd (Import_deployReleases ex_Externals ex_Import [1, 0]
            [Main, Main, Main, Main, Body 1, Body 0, Deferred, Deferred,
             Main, Main, Main, Main, Main, Main, Main]
            (ex_World\<lparr>cluster := [''a'']\<rparr>))))) = 2"
proof -
  have returned: "pos (Import_deployReleases_run ex_Externals ex_Import
            [Main, Main, Main, Main, Body 1, Body 0, Deferred, Deferred,
             Main, Main, Main, Main, Main, Main, Main]
            \<lparr>pos = Looping [1, 0], sem = 0, wg = 0, started = [], ending = 0,
              world = ex_World\<lparr>cluster := [''a'']\<rparr>\<rparr>) = Returned"
    by code_simp
  have names: "map Name (installs (events (snd (Import_deployReleases ex_Externals ex_Import [1, 0]
            [Main, Main, Main, Main, Body 1, Body 0, Deferred, Deferred,
             Main, Main, Main, Main, Main, Main, Main]
            (ex_World\<lparr>cluster := [''a'']\<rparr>))))) = [''a'', ''b'']"
    by code_simp
  have lines: "printed (events (snd (Import_deployReleases ex_Externals ex_Import [1, 0]
            [Main, Main, Main, Main, Body 1, Body 0, Deferred, Deferred,
             Main, Main, Main, Main, Main, Main, Main]
            (ex_World\<lparr>cluster := [''a'']\<rparr>)))) =
       [''Deploying release b to namespace kube-system'' @ [CHR 0x0A],
        ''Deploying release a to namespace default'' @ [CHR 0x0A],
        ''Skipping release: a already exists'' @ [CHR 0x0A],
        ''Error deploying release b: forbidden'' @ [CHR 0x0A]]"
    by code_simp
  have pos: "0 < constants_ImportMaxThreads ex_Externals"
    by (simp add: ex_Externals_def)
  have wet: "\<not> DryRun (Import_Config ex_Import)"
    "Import_NewStoragePath (Import (Import_Config ex_Import)) = ''''"
    by (simp_all add: ex_Import_def ex_Config_def)
  have e: "length (installs (events (ex_World\<lparr>cluster := [''a'']\<rparr>)))
           + length (errors_logged (events (ex_World\<lparr>cluster := [''a'']\<rparr>))) + length [1::nat, 0] = 2"
    by (simp add: ex_World_def)
  show ?thesis
    using Import_deployReleases_never_aborts [OF pos, where t = ex_Import
        and releases = "[1, 0]" and w = "ex_World\<lparr>cluster := [''a'']\<rparr>" and r = 0
        and sched = "[Main, Main, Main, Main, Body 1, Body 0, Deferred, Deferred,
             Main, Main, Main, Main, Main, Main, Main]"]
      returned names lines pos wet e
    by presburger
qed

subsection \<open>Dry-run\<close>

lemma Import_step_dry_inv:
  assumes "DryRun (Import_Config t)" and "Import_dry_inv ext t releases w m"
  shows "Import_dry_inv ext t releases w (Import_deployReleases_step ext t c m)"
proof (cases c)
  case Main
  show ?thesis
  proof (cases "pos m")
    case (Looping rs)
    show ?thesis
    proof (cases rs)
      case Nil
      then show ?thesis
        using assms(2) Main Looping
        by (simp add: Import_dry_inv_def Import_deployReleases_step_def)
    next
      case (Cons r rs')
      obtain w' where b: "Import_deployReleases_body ext t r (world m) = (None, w')"
        using Import_deployReleases_body_dry [OF assms(1), of ext r "world m"]
        by (metis prod.collapse)
      obtain seen where d: "releases = seen @ r # rs'"
        "world m = foldl (\<lambda>w r. snd (Import_deployReleases_body ext t r w)) w seen"
        using assms(2) Looping Cons unfolding Import_dry_inv_def by auto
      have step: "Import_deployReleases_step ext t c m = m\<lparr>pos := Looping rs', world := w'\<rparr>"
        using Main Looping Cons b by (simp add: Import_deployReleases_step_def)
      have "releases = (seen @ [r]) @ rs'"
        "w' = foldl (\<lambda>w r. snd (Import_deployReleases_body ext t r w)) w (seen @ [r])"
        using d b by simp_all
      then have ex: "\<exists>x. releases = x @ rs'
                      \<and> w' = foldl (\<lambda>w r. snd (Import_deployReleases_body ext t r w)) w x"
        by blast
      have rest: "started m = []" "ending m = 0"
        using assms(2) unfolding Import_dry_inv_def by blast+
      show ?thesis
        unfolding step Import_dry_inv_def using ex rest by simp
    qed
  qed (use assms(2) Main in \<open>auto simp: Import_dry_inv_def Import_deployReleases_step_def\<close>)
next
  case (Body k)
  then show ?thesis
    using assms(2) by (simp add: Import_dry_inv_def Import_deployReleases_step_def)
next
  case Deferred
  then show ?thesis
    using assms(2) by (simp add: Import_dry_inv_def Import_deployReleases_step_def)
qed

lemma Import_run_dry_inv:
  assumes "DryRun (Import_Config t)"
  shows "Import_dry_inv ext t releases w m \<Longrightarrow>
         Import_dry_inv ext t releases w (Import_deployReleases_run ext t sched m)"
  by (induction sched arbitrary: m) (simp_all add: Import_step_dry_inv [OF assms])

lemma Import_rounds_dry_inv:
  assumes "DryRun (Import_Config t)"
  shows "Import_dry_inv ext t releases w m \<Longrightarrow>
         Import_dry_inv ext t releases w (Import_deployReleases_rounds ext t n m)"
proof (induction n arbitrary: m)
  case 0
  then show ?case by simp
next
  case (Suc n)
  have "Import_dry_inv ext t releases w (Import_deployReleases_round ext t m)"
    unfolding Import_deployReleases_round_def Let_def
    by (intro Import_step_dry_inv [OF assms] Import_run_dry_inv [OF assms] Suc.prems)
  then show ?case using Suc.IH by simp
qed

lemma Import_deployReleases_dry_fold:
  assumes "DryRun (Import_Config t)"
  shows "Import_deployReleases ext t releases sched w =
           (Returns None, foldl (\<lambda>w r. snd (Import_deployReleases_body ext t r w)) w releases)"
proof -
  let ?m = "Import_deployReleases_end ext t releases sched w"
  have "Import_dry_inv ext t releases w
          \<lparr>pos = Looping releases, sem = 0, wg = 0, started = [], ending = 0, world = w\<rparr>"
    by (simp add: Import_dry_inv_def)
  then have "Import_dry_inv ext t releases w ?m"
    unfolding Import_deployReleases_end_def
    by (intro Import_rounds_dry_inv [OF assms] Import_run_dry_inv [OF assms])
  moreover have "pos ?m = Returned"
    using Import_deployReleases_end_Returned [of ext t releases sched w] assms by simp
  ultimately show ?thesis
    by (auto simp: Import_dry_inv_def Import_deployReleases_def Let_def)
qed

text \<open>What one release adds under dry-run, spelt out.\<close>

lemma Import_deployReleases_body_dry_eq:
  assumes "DryRun (Import_Config t)"
  shows "snd (Import_deployReleases_body ext t r w) =
     (case Import_updateManagerRelease ext t r (Import_deployReleases_start t r w) of
        (Inl err, w3) \<Rightarrow>
          emit (Errorf ''Unable to update the output path for the new release manager chart. Skipping.'') w3
      | (Inr r', w3) \<Rightarrow>
          emit (Printf (release_ToString ext (heap w3 r') (VerboseMode (Import_Config t))
                        @ [CHR 0x0A])) w3)"
  using assms by (simp add: Import_deployReleases_body_def split: prod.splits sum.splits)

lemma Import_deployReleases_body_dry_frame:
  assumes "DryRun (Import_Config t)"
  shows "installs (events (snd (Import_deployReleases_body ext t r w))) = installs (events w)
       \<and> cluster (snd (Import_deployReleases_body ext t r w)) = cluster w
       \<and> store (snd (Import_deployReleases_body ext t r w)) = store w"
proof -
  obtain x w3 where um:
    "Import_updateManagerRelease ext t r (Import_deployReleases_start t r w) = (x, w3)"
    by (metis surj_pair)
  show ?thesis
    using assms um Import_updateManagerRelease_frame [OF um]
      Import_deployReleases_start_frame [of t r w]
    by (cases x) (simp_all add: Import_deployReleases_body_def emit_def installs_append)
qed

lemma Import_dry_fold_frame:
  assumes "DryRun (Import_Config t)"
  shows "installs (events (foldl (\<lambda>w r. snd (Import_deployReleases_body ext t r w)) w releases))
           = installs (events w)
       \<and> cluster (foldl (\<lambda>w r. snd (Import_deployReleases_body ext t r w)) w releases) = cluster w
       \<and> store (foldl (\<lambda>w r. snd (Import_deployReleases_body ext t r w)) w releases) = store w"
  by (induction releases arbitrary: w)
     (simp_all add: Import_deployReleases_body_dry_frame [OF assms])

text \<open>\<open>deployReleases\<close> of the package transfer never blocks.\<close>

lemma Transfer_step_inv:
  assumes "Transfer_inv m"
  shows "Transfer_inv (Transfer_deployReleases_step ext t c m)"
proof (cases c)
  case Main
  show ?thesis
  proof (cases "pos m")
    case (Looping releases)
    show ?thesis
    proof (cases releases)
      case Nil
      then show ?thesis
        using assms Main Looping by (simp add: Transfer_inv_def Transfer_deployReleases_step_def)
    next
      case (Cons r rs)
      obtain res w' where b: "Transfer_deployReleases_body ext t r (world m) = (res, w')"
        by (metis surj_pair)
      show ?thesis
      proof (cases res)
        case (Returns x)
        then show ?thesis
          using assms Main Looping Cons b
          by (cases x) (simp_all add: Transfer_inv_def Transfer_deployReleases_step_def)
      qed (use assms Main Looping Cons b in
            \<open>simp_all add: Transfer_inv_def Transfer_deployReleases_step_def\<close>)
    qed
  qed (use assms Main in \<open>auto simp: Transfer_inv_def Transfer_deployReleases_step_def\<close>)
next
  case (Body k)
  then show ?thesis
    using assms
    by (auto simp: Transfer_inv_def Transfer_deployReleases_step_def length_remove_at)
next
  case Deferred
  then show ?thesis
    using assms
    by (auto simp: Transfer_inv_def Transfer_deployReleases_step_def)
qed

lemma Transfer_run_inv:
  "Transfer_inv m \<Longrightarrow> Transfer_inv (Transfer_deployReleases_run ext t sched m)"
  by (induction sched arbitrary: m) (simp_all add: Transfer_step_inv)

lemma to_do_Transfer_step:
  "to_do_Transfer (pos (Transfer_deployReleases_step ext t c m)) \<le> to_do_Transfer (pos m)"
proof (cases c)
  case Main
  show ?thesis
  proof (cases "pos m")
    case (Looping releases)
    then show ?thesis
      using Main
      by (cases releases)
         (auto simp: Transfer_deployReleases_step_def
            split: prod.splits option.splits outcome.splits)
  qed (use Main in \<open>auto simp: Transfer_deployReleases_step_def\<close>)
qed (auto simp: Transfer_deployReleases_step_def)

lemma to_do_Transfer_run:
  "to_do_Transfer (pos (Transfer_deployReleases_run ext t sched m)) \<le> to_do_Transfer (pos m)"
proof (induction sched arbitrary: m)
  case Nil
  show ?case by simp
next
  case (Cons c sched)
  show ?case
    using Cons [of "Transfer_deployReleases_step ext t c m"] to_do_Transfer_step [of ext t c m]
    by simp
qed

lemma Transfer_run_bodies:
  "pos m \<noteq> Panicked \<Longrightarrow> length (started m) = n \<Longrightarrow>
     started (Transfer_deployReleases_run ext t (replicate n (Body 0)) m) = []
     \<and> ending (Transfer_deployReleases_run ext t (replicate n (Body 0)) m) = ending m + n
     \<and> wg (Transfer_deployReleases_run ext t (replicate n (Body 0)) m) = wg m
     \<and> pos (Transfer_deployReleases_run ext t (replicate n (Body 0)) m) = pos m"
proof (induction n arbitrary: m)
  case 0
  then show ?case by simp
next
  case (Suc n)
  let ?m = "Transfer_deployReleases_step ext t (Body 0) m"
  have "length (started ?m) = n" "ending ?m = ending m + 1" "wg ?m = wg m" "pos ?m = pos m"
    using Suc.prems by (simp_all add: Transfer_deployReleases_step_def length_remove_at)
  then show ?case
    using Suc.IH [of ?m] Suc.prems(1) by simp
qed

lemma Transfer_run_deferreds:
  "pos m \<noteq> Panicked \<Longrightarrow> ending m = n \<Longrightarrow> n \<le> wg m \<Longrightarrow>
     ending (Transfer_deployReleases_run ext t (replicate n Deferred) m) = 0
     \<and> wg (Transfer_deployReleases_run ext t (replicate n Deferred) m) = wg m - n
     \<and> started (Transfer_deployReleases_run ext t (replicate n Deferred) m) = started m
     \<and> pos (Transfer_deployReleases_run ext t (replicate n Deferred) m) = pos m"
proof (induction n arbitrary: m)
  case 0
  then show ?case by simp
next
  case (Suc n)
  let ?m = "Transfer_deployReleases_step ext t Deferred m"
  have "ending ?m = n" "wg ?m = wg m - 1" "started ?m = started m" "pos ?m = pos m"
      "n \<le> wg ?m"
    using Suc.prems by (simp_all add: Transfer_deployReleases_step_def)
  then show ?case
    using Suc.IH [of ?m] Suc.prems(1) by simp
qed

lemma Transfer_round:
  assumes "Transfer_inv m"
  shows "Transfer_inv (Transfer_deployReleases_round ext t m)
       \<and> (to_do_Transfer (pos m) = 0 \<or>
           to_do_Transfer (pos (Transfer_deployReleases_round ext t m)) < to_do_Transfer (pos m))"
proof (cases "pos m = Panicked")
  case True
  then show ?thesis
    using assms
    by (simp add: Transfer_deployReleases_round_def Let_def Transfer_step_inv Transfer_run_inv)
next
  case False
  let ?m1 = "Transfer_deployReleases_run ext t (replicate (length (started m)) (Body 0)) m"
  let ?m2 = "Transfer_deployReleases_run ext t (replicate (ending ?m1) Deferred) ?m1"
  have i1: "Transfer_inv ?m1" using assms by (rule Transfer_run_inv)
  have i2: "Transfer_inv ?m2" using i1 by (rule Transfer_run_inv)
  have m1: "started ?m1 = []" "pos ?m1 = pos m"
    using Transfer_run_bodies [OF False, of "length (started m)" ext t] by simp_all
  have le: "ending ?m1 \<le> wg ?m1"
    using i1 by (simp add: Transfer_inv_def)
  have m2: "ending ?m2 = 0" "started ?m2 = []" "pos ?m2 = pos m"
    using Transfer_run_deferreds [of ?m1 "ending ?m1" ext t] le m1 False by simp_all
  have wg0: "wg ?m2 = 0"
    using i2 m2 by (simp add: Transfer_inv_def)
  have round: "Transfer_deployReleases_round ext t m = Transfer_deployReleases_step ext t Main ?m2"
    by (simp add: Transfer_deployReleases_round_def Let_def)
  have inv: "Transfer_inv (Transfer_deployReleases_round ext t m)"
    unfolding round using i2 by (rule Transfer_step_inv)
  have "to_do_Transfer (pos m) = 0 \<or>
        to_do_Transfer (pos (Transfer_deployReleases_step ext t Main ?m2)) < to_do_Transfer (pos m)"
  proof (cases "pos m")
    case (Looping releases)
    then show ?thesis
      using m2
      by (cases releases)
         (auto simp: Transfer_deployReleases_step_def
            split: prod.splits option.splits outcome.splits)
  next
    case Waiting
    then show ?thesis
      using m2 wg0 by (simp add: Transfer_deployReleases_step_def)
  qed (use assms in \<open>auto simp: Transfer_inv_def\<close>)
  then show ?thesis using inv round by simp
qed

lemma Transfer_round_to_do:
  "to_do_Transfer (pos (Transfer_deployReleases_round ext t m)) \<le> to_do_Transfer (pos m)"
  unfolding Transfer_deployReleases_round_def Let_def
  by (meson le_trans to_do_Transfer_run to_do_Transfer_step)

lemma Transfer_rounds:
  assumes "Transfer_inv m" and "to_do_Transfer (pos m) \<le> n"
  shows "to_do_Transfer (pos (Transfer_deployReleases_rounds ext t n m)) = 0"
  using assms
proof (induction n arbitrary: m)
  case 0
  then show ?case by simp
next
  case (Suc n)
  let ?m = "Transfer_deployReleases_round ext t m"
  note r = Transfer_round [OF Suc.prems(1), of ext t]
  have "to_do_Transfer (pos ?m) \<le> n"
  proof (cases "to_do_Transfer (pos m) = 0")
    case True
    then show ?thesis using Transfer_round_to_do [of ext t m] by simp
  next
    case False
    then show ?thesis using r Suc.prems(2) by auto
  qed
  then show ?case using Suc.IH [of ?m] r by simp
qed

lemma Transfer_deployReleases_end_over:
  "pos (Transfer_deployReleases_end ext t releases sched w) = Returned
   \<or> pos (Transfer_deployReleases_end ext t releases sched w) = Panicked"
proof -
  let ?m0 = "\<lparr>pos = Looping releases, sem = 0, wg = 0, started = [], ending = 0, world = w\<rparr>"
  let ?m1 = "Transfer_deployReleases_run ext t sched ?m0"
  have "Transfer_inv ?m0" by (simp add: Transfer_inv_def)
  then have i1: "Transfer_inv ?m1" by (rule Transfer_run_inv)
  have "to_do_Transfer (pos ?m1) \<le> to_do_Transfer (pos ?m0)" by (rule to_do_Transfer_run)
  then have td: "to_do_Transfer (pos ?m1) \<le> length releases + 2" by simp
  have "to_do_Transfer (pos (Transfer_deployReleases_end ext t releases sched w)) = 0"
    unfolding Transfer_deployReleases_end_def by (rule Transfer_rounds [OF i1 td])
  then show ?thesis
    by (cases "pos (Transfer_deployReleases_end ext t releases sched w)") simp_all
qed

lemma Transfer_updateManagerRelease_Returns:
  assumes "Transfer_State t \<noteq> None"
  shows "\<exists>x. fst (Transfer_updateManagerRelease ext t r w) = Returns x"
  using assms
  by (auto simp: Transfer_updateManagerRelease_def split: option.splits prod.splits)

lemma Transfer_deployReleases_body_dry:
  assumes "DryRun (Transfer_Config t)" and "Transfer_State t \<noteq> None"
  shows "fst (Transfer_deployReleases_body ext t r w) = Returns None"
proof -
  let ?w1 = "emit (Printf (''Deploying release: '' @ Name (heap w r) @ [CHR 0x0A])) w"
  obtain x where "fst (Transfer_updateManagerRelease ext t r ?w1) = Returns x"
    using Transfer_updateManagerRelease_Returns [OF assms(2)] by blast
  then obtain w2 where "Transfer_updateManagerRelease ext t r ?w1 = (Returns x, w2)"
    by (metis prod.collapse)
  then show ?thesis
    using assms(1) by (cases x) (simp_all add: Transfer_deployReleases_body_def)
qed

lemma Transfer_step_dry_inv:
  assumes "DryRun (Transfer_Config t)" and "Transfer_State t \<noteq> None"
    and "Transfer_dry_inv ext t releases w m"
  shows "Transfer_dry_inv ext t releases w (Transfer_deployReleases_step ext t c m)"
proof (cases c)
  case Main
  show ?thesis
  proof (cases "pos m")
    case (Looping rs)
    show ?thesis
    proof (cases rs)
      case Nil
      then show ?thesis
        using assms(3) Main Looping
        by (simp add: Transfer_dry_inv_def Transfer_deployReleases_step_def)
    next
      case (Cons r rs')
      obtain w' where b: "Transfer_deployReleases_body ext t r (world m) = (Returns None, w')"
        using Transfer_deployReleases_body_dry [OF assms(1,2), of ext r "world m"]
        by (metis prod.collapse)
      obtain seen where d: "releases = seen @ r # rs'"
        "world m = foldl (\<lambda>w r. snd (Transfer_deployReleases_body ext t r w)) w seen"
        using assms(3) Looping Cons unfolding Transfer_dry_inv_def by auto
      have step: "Transfer_deployReleases_step ext t c m = m\<lparr>pos := Looping rs', world := w'\<rparr>"
        using Main Looping Cons b by (simp add: Transfer_deployReleases_step_def)
      have "releases = (seen @ [r]) @ rs'"
        "w' = foldl (\<lambda>w r. snd (Transfer_deployReleases_body ext t r w)) w (seen @ [r])"
        using d b by simp_all
      then have ex: "\<exists>x. releases = x @ rs'
                      \<and> w' = foldl (\<lambda>w r. snd (Transfer_deployReleases_body ext t r w)) w x"
        by blast
      have rest: "started m = []" "ending m = 0"
        using assms(3) unfolding Transfer_dry_inv_def by blast+
      show ?thesis
        unfolding step Transfer_dry_inv_def using ex rest by simp
    qed
  qed (use assms(3) Main in \<open>auto simp: Transfer_dry_inv_def Transfer_deployReleases_step_def\<close>)
next
  case (Body k)
  then show ?thesis
    using assms(3) by (simp add: Transfer_dry_inv_def Transfer_deployReleases_step_def)
next
  case Deferred
  then show ?thesis
    using assms(3) by (simp add: Transfer_dry_inv_def Transfer_deployReleases_step_def)
qed

lemma Transfer_run_dry_inv:
  assumes "DryRun (Transfer_Config t)" and "Transfer_State t \<noteq> None"
  shows "Transfer_dry_inv ext t releases w m \<Longrightarrow>
         Transfer_dry_inv ext t releases w (Transfer_deployReleases_run ext t sched m)"
  by (induction sched arbitrary: m) (simp_all add: Transfer_step_dry_inv [OF assms])

lemma Transfer_rounds_dry_inv:
  assumes "DryRun (Transfer_Config t)" and "Transfer_State t \<noteq> None"
  shows "Transfer_dry_inv ext t releases w m \<Longrightarrow>
         Transfer_dry_inv ext t releases w (Transfer_deployReleases_rounds ext t n m)"
proof (induction n arbitrary: m)
  case 0
  then show ?case by simp
next
  case (Suc n)
  have "Transfer_dry_inv ext t releases w (Transfer_deployReleases_round ext t m)"
    unfolding Transfer_deployReleases_round_def Let_def
    by (intro Transfer_step_dry_inv [OF assms] Transfer_run_dry_inv [OF assms] Suc.prems)
  then show ?case using Suc.IH by simp
qed

lemma Transfer_deployReleases_dry_fold:
  assumes "DryRun (Transfer_Config t)" and "Transfer_State t \<noteq> None"
  shows "Transfer_deployReleases ext t releases sched w =
           (Returns None, foldl (\<lambda>w r. snd (Transfer_deployReleases_body ext t r w)) w releases)"
proof -
  let ?m = "Transfer_deployReleases_end ext t releases sched w"
  have "Transfer_dry_inv ext t releases w
          \<lparr>pos = Looping releases, sem = 0, wg = 0, started = [], ending = 0, world = w\<rparr>"
    by (simp add: Transfer_dry_inv_def)
  then have inv: "Transfer_dry_inv ext t releases w ?m"
    unfolding Transfer_deployReleases_end_def
    by (intro Transfer_rounds_dry_inv [OF assms] Transfer_run_dry_inv [OF assms])
  then have "pos ?m \<noteq> Panicked" by (simp add: Transfer_dry_inv_def)
  then have "pos ?m = Returned"
    using Transfer_deployReleases_end_over [of ext t releases sched w] by simp
  then show ?thesis
    using inv by (auto simp: Transfer_dry_inv_def Transfer_deployReleases_def Let_def)
qed

lemma Transfer_deployReleases_body_dry_eq:
  assumes "DryRun (Transfer_Config t)" and "Transfer_State t \<noteq> None"
  shows "snd (Transfer_deployReleases_body ext t r w) =
     (case Transfer_updateManagerRelease ext t r
             (emit (Printf (''Deploying release: '' @ Name (heap w r) @ [CHR 0x0A])) w) of
        (Returns (Inl err), w2) \<Rightarrow>
          emit (Errorf ''Unable to update the output path for the new release manager chart. Skipping.'') w2
      | (Returns (Inr r'), w2) \<Rightarrow>
          emit (Printf (release_ToString ext (heap w2 r') (VerboseMode (Transfer_Config t))
                        @ [CHR 0x0A])) w2
      | (other, w2) \<Rightarrow> w2)"
  using assms(1)
  by (simp add: Transfer_deployReleases_body_def split: prod.splits sum.splits outcome.splits)

lemma Transfer_deployReleases_body_dry_frame:
  assumes "DryRun (Transfer_Config t)"
  shows "installs (events (snd (Transfer_deployReleases_body ext t r w))) = installs (events w)
       \<and> cluster (snd (Transfer_deployReleases_body ext t r w)) = cluster w
       \<and> store (snd (Transfer_deployReleases_body ext t r w)) = store w"
proof -
  let ?w1 = "emit (Printf (''Deploying release: '' @ Name (heap w r) @ [CHR 0x0A])) w"
  obtain x w2 where um: "Transfer_updateManagerRelease ext t r ?w1 = (x, w2)"
    by (metis surj_pair)
  have f: "events w2 = events w @ [Printf (''Deploying release: '' @ Name (heap w r) @ [CHR 0x0A])]"
    "cluster w2 = cluster w" "store w2 = store w"
    using Transfer_updateManagerRelease_frame [OF um] by (simp_all add: emit_def)
  show ?thesis
  proof (cases x)
    case (Returns y)
    then show ?thesis
      using assms um f
      by (cases y) (simp_all add: Transfer_deployReleases_body_def emit_def installs_append)
  qed (use um f in \<open>simp_all add: Transfer_deployReleases_body_def installs_append\<close>)
qed

lemma Transfer_dry_fold_frame:
  assumes "DryRun (Transfer_Config t)"
  shows "installs (events (foldl (\<lambda>w r. snd (Transfer_deployReleases_body ext t r w)) w releases))
           = installs (events w)
       \<and> cluster (foldl (\<lambda>w r. snd (Transfer_deployReleases_body ext t r w)) w releases) = cluster w
       \<and> store (foldl (\<lambda>w r. snd (Transfer_deployReleases_body ext t r w)) w releases) = store w"
  by (induction releases arbitrary: w)
     (simp_all add: Transfer_deployReleases_body_dry_frame [OF assms])

lemma Import_dry_fold_rendered:
  assumes "DryRun (Import_Config t)"
    and "Import_NewStoragePath (Import (Import_Config t)) = ''''"
  shows "set (printed (events w))
           \<union> (\<lambda>r. release_ToString ext (retarget t (heap w r)) (VerboseMode (Import_Config t))
                     @ [CHR 0x0A]) ` set releases
         \<subseteq> set (printed (events (foldl (\<lambda>w r. snd (Import_deployReleases_body ext t r w)) w releases)))"
proof (induction releases arbitrary: w)
  case Nil
  show ?case by simp
next
  case (Cons r releases)
  let ?w2 = "Import_deployReleases_start t r w"
  let ?w' = "emit (Printf (release_ToString ext (heap ?w2 r) (VerboseMode (Import_Config t))
                                @ [CHR 0x0A])) ?w2"
  have b: "snd (Import_deployReleases_body ext t r w) = ?w'"
    using assms
    by (simp add: Import_deployReleases_body_def Import_updateManagerRelease_no_path)
  have h: "heap ?w' = (heap w)(r := retarget t (heap w r))"
    and p: "printed (events ?w') = printed (events w)
              @ [''Deploying release '' @ Name (heap w r) @ '' to namespace ''
                             @ Namespace (heap w r) @ [CHR 0x0A],
                 release_ToString ext (retarget t (heap w r)) (VerboseMode (Import_Config t))
                                @ [CHR 0x0A]]"
    using Import_deployReleases_start_frame [of t r w]
    by (simp_all add: emit_def printed_append)
  have "(\<lambda>r'. release_ToString ext (retarget t (heap ?w' r')) (VerboseMode (Import_Config t))
                     @ [CHR 0x0A]) ` set releases
        = (\<lambda>r'. release_ToString ext (retarget t (heap w r')) (VerboseMode (Import_Config t))
                     @ [CHR 0x0A]) ` set releases"
    by (rule image_cong) (simp_all add: h retarget_idem)
  then show ?case
    using Cons [of ?w'] p by (auto simp: b)
qed

lemma Import_dry_fold_printed:
  assumes "DryRun (Import_Config t)"
    and "Import_NewStoragePath (Import (Import_Config t)) = ''''"
    and "distinct releases"
  shows "printed (events (foldl (\<lambda>w r. snd (Import_deployReleases_body ext t r w)) w releases)) =
           printed (events w)
           @ concat (map (\<lambda>r. [''Deploying release '' @ Name (heap w r) @ '' to namespace ''
                                  @ Namespace (heap w r) @ [CHR 0x0A],
                                release_ToString ext (retarget t (heap w r))
                                  (VerboseMode (Import_Config t)) @ [CHR 0x0A]]) releases)"
  using assms(3)
proof (induction releases arbitrary: w)
  case Nil
  show ?case by simp
next
  case (Cons r releases)
  let ?w2 = "Import_deployReleases_start t r w"
  let ?w' = "emit (Printf (release_ToString ext (heap ?w2 r) (VerboseMode (Import_Config t))
                                @ [CHR 0x0A])) ?w2"
  have b: "snd (Import_deployReleases_body ext t r w) = ?w'"
    using assms(1,2)
    by (simp add: Import_deployReleases_body_def Import_updateManagerRelease_no_path)
  have h: "heap ?w' = (heap w)(r := retarget t (heap w r))"
    and p: "printed (events ?w') = printed (events w)
              @ [''Deploying release '' @ Name (heap w r) @ '' to namespace ''
                             @ Namespace (heap w r) @ [CHR 0x0A],
                 release_ToString ext (retarget t (heap w r)) (VerboseMode (Import_Config t))
                                @ [CHR 0x0A]]"
    using Import_deployReleases_start_frame [of t r w]
    by (simp_all add: emit_def printed_append)
  have same: "\<And>r'. r' \<in> set releases \<Longrightarrow> heap ?w' r' = heap w r'"
    using Cons.prems by (auto simp: h)
  have eqmap: "map (\<lambda>r. [''Deploying release '' @ Name (heap ?w' r) @ '' to namespace ''
                                  @ Namespace (heap ?w' r) @ [CHR 0x0A],
                                release_ToString ext (retarget t (heap ?w' r))
                                  (VerboseMode (Import_Config t)) @ [CHR 0x0A]]) releases
        = map (\<lambda>r. [''Deploying release '' @ Name (heap w r) @ '' to namespace ''
                                  @ Namespace (heap w r) @ [CHR 0x0A],
                                release_ToString ext (retarget t (heap w r))
                                  (VerboseMode (Import_Config t)) @ [CHR 0x0A]]) releases"
    by (rule map_cong) (simp_all add: same)
  have ih: "printed (events (foldl (\<lambda>w r. snd (Import_deployReleases_body ext t r w)) ?w' releases)) =
           printed (events ?w')
           @ concat (map (\<lambda>r. [''Deploying release '' @ Name (heap ?w' r) @ '' to namespace ''
                                  @ Namespace (heap ?w' r) @ [CHR 0x0A],
                                release_ToString ext (retarget t (heap ?w' r))
                                  (VerboseMode (Import_Config t)) @ [CHR 0x0A]]) releases)"
    using Cons.IH [of ?w'] Cons.prems by simp
  show ?case
    by (simp only: foldl_Cons b ih eqmap p) simp
qed

lemma Transfer_dry_fold_printed:
  assumes "DryRun (Transfer_Config t)"
    and "Transfer_NewStoragePath (Transfer (Transfer_Config t)) = ''''"
  shows "printed (events (foldl (\<lambda>w r. snd (Transfer_deployReleases_body ext t r w)) w releases)) =
           printed (events w)
           @ concat (map (\<lambda>r. [''Deploying release: '' @ Name (heap w r) @ [CHR 0x0A],
                                release_ToString ext (heap w r) (VerboseMode (Transfer_Config t))
                                @ [CHR 0x0A]]) releases)"
proof (induction releases arbitrary: w)
  case Nil
  show ?case by simp
next
  case (Cons r releases)
  let ?w1 = "emit (Printf (''Deploying release: '' @ Name (heap w r) @ [CHR 0x0A])) w"
  let ?w' = "emit (Printf (release_ToString ext (heap w r) (VerboseMode (Transfer_Config t))
                                @ [CHR 0x0A])) ?w1"
  have b: "snd (Transfer_deployReleases_body ext t r w) = ?w'"
    using assms
    by (simp add: Transfer_deployReleases_body_def Transfer_updateManagerRelease_no_path emit_def)
  show ?case
    using Cons [of ?w'] by (simp add: b emit_def printed_append)
qed

text \<open>Under dry-run no step of the machine starts a goroutine or installs.\<close>

lemma Transfer_deployReleases_body_dry_none:
  assumes "DryRun (Transfer_Config t)"
  shows "fst (Transfer_deployReleases_body ext t r w) \<noteq> Returns (Some r')"
  using assms
  by (auto simp: Transfer_deployReleases_body_def split: prod.splits sum.splits outcome.splits)

lemma Transfer_step_dry_frame:
  assumes "DryRun (Transfer_Config t)" and "started m = []"
  shows "started (Transfer_deployReleases_step ext t c m) = []
       \<and> installs (events (world (Transfer_deployReleases_step ext t c m)))
           = installs (events (world m))
       \<and> cluster (world (Transfer_deployReleases_step ext t c m)) = cluster (world m)"
proof (cases c)
  case Main
  show ?thesis
  proof (cases "pos m")
    case (Looping rs)
    show ?thesis
    proof (cases rs)
      case Nil
      then show ?thesis
        using assms(2) Main Looping by (simp add: Transfer_deployReleases_step_def)
    next
      case (Cons r rs')
      obtain res w' where b: "Transfer_deployReleases_body ext t r (world m) = (res, w')"
        by (metis surj_pair)
      have f: "installs (events w') = installs (events (world m))" "cluster w' = cluster (world m)"
        using Transfer_deployReleases_body_dry_frame [OF assms(1), of ext r "world m"] b
        by simp_all
      have n: "\<And>r'. res \<noteq> Returns (Some r')"
        using Transfer_deployReleases_body_dry_none [OF assms(1), of ext r "world m"] b by simp
      show ?thesis
      proof (cases res)
        case (Returns y)
        then have "y = None" using n by (cases y) simp_all
        then show ?thesis
          using Returns assms(2) Main Looping Cons b f
          by (simp add: Transfer_deployReleases_step_def)
      qed (use assms(2) Main Looping Cons b f in
            \<open>simp_all add: Transfer_deployReleases_step_def\<close>)
    qed
  qed (use assms(2) Main in \<open>simp_all add: Transfer_deployReleases_step_def\<close>)
next
  case (Body k)
  then show ?thesis
    using assms(2) by (simp add: Transfer_deployReleases_step_def)
next
  case Deferred
  then show ?thesis
    using assms(2) by (simp add: Transfer_deployReleases_step_def)
qed

lemma Transfer_run_dry_frame:
  assumes "DryRun (Transfer_Config t)"
  shows "started m = [] \<Longrightarrow>
         started (Transfer_deployReleases_run ext t sched m) = []
       \<and> installs (events (world (Transfer_deployReleases_run ext t sched m)))
           = installs (events (world m))
       \<and> cluster (world (Transfer_deployReleases_run ext t sched m)) = cluster (world m)"
proof (induction sched arbitrary: m)
  case Nil
  then show ?case by simp
next
  case (Cons c sched)
  note s = Transfer_step_dry_frame [OF assms Cons.prems, of ext c]
  from s have "started (Transfer_deployReleases_step ext t c m) = []" by blast
  from Cons.IH [OF this] s show ?case by simp
qed

lemma Transfer_rounds_dry_frame:
  assumes "DryRun (Transfer_Config t)"
  shows "started m = [] \<Longrightarrow>
         started (Transfer_deployReleases_rounds ext t n m) = []
       \<and> installs (events (world (Transfer_deployReleases_rounds ext t n m)))
           = installs (events (world m))
       \<and> cluster (world (Transfer_deployReleases_rounds ext t n m)) = cluster (world m)"
proof (induction n arbitrary: m)
  case 0
  then show ?case by simp
next
  case (Suc n)
  let ?m1 = "Transfer_deployReleases_run ext t (replicate (length (started m)) (Body 0)) m"
  let ?m2 = "Transfer_deployReleases_run ext t (replicate (ending ?m1) Deferred) ?m1"
  note r1 = Transfer_run_dry_frame [OF assms Suc.prems, of ext "replicate (length (started m)) (Body 0)"]
  from r1 have s1: "started ?m1 = []" by blast
  note r2 = Transfer_run_dry_frame [OF assms s1, of ext "replicate (ending ?m1) Deferred"]
  from r2 have s2: "started ?m2 = []" by blast
  note r3 = Transfer_step_dry_frame [OF assms s2, of ext Main]
  have rd: "Transfer_deployReleases_round ext t m = Transfer_deployReleases_step ext t Main ?m2"
    by (simp add: Transfer_deployReleases_round_def Let_def)
  from r3 have s3: "started (Transfer_deployReleases_round ext t m) = []"
    unfolding rd by blast
  have a: "installs (events (world (Transfer_deployReleases_round ext t m)))
             = installs (events (world m))"
    "cluster (world (Transfer_deployReleases_round ext t m)) = cluster (world m)"
    using r1 r2 r3 unfolding rd by simp_all
  show ?case
    using Suc.IH [OF s3] a by simp
qed

lemma Transfer_deployReleases_dry_frame:
  assumes "DryRun (Transfer_Config t)"
  shows "installs (events (snd (Transfer_deployReleases ext t releases sched w))) = installs (events w)
       \<and> cluster (snd (Transfer_deployReleases ext t releases sched w)) = cluster w"
proof -
  let ?m0 = "\<lparr>pos = Looping releases, sem = 0, wg = 0, started = [], ending = 0, world = w\<rparr>"
  let ?m1 = "Transfer_deployReleases_run ext t sched ?m0"
  have r1: "started ?m1 = [] \<and> installs (events (world ?m1)) = installs (events (world ?m0))
            \<and> cluster (world ?m1) = cluster (world ?m0)"
    by (rule Transfer_run_dry_frame [OF assms]) simp
  then have s1: "started ?m1 = []" by blast
  note r2 = Transfer_rounds_dry_frame [OF assms s1, of ext "length releases + 2"]
  show ?thesis
    using r1 r2 by (simp add: Transfer_deployReleases_def Transfer_deployReleases_end_def Let_def)
qed

text \<open>Claim C9, as stated, fails: under dry-run a release is not rendered when the
  rewrite of the manager's path fails for it. Here \<open>release.UpdateValue\<close> fails, the
  release \<open>mgr\<close> at address 2 is the manager's release and a new path is configured: the
  release is announced, the error is logged, and its rendering is not printed.\<close>

theorem Import_deployReleases_dry_run_not_rendered:
  "DryRun (Import_Config dry_Import)
   \<and> Import_deployReleases failing_Externals dry_Import [2] [] ex_World =
       (Returns None,
        ex_World\<lparr>events :=
          [Printf (''Deploying release mgr to namespace default'' @ [CHR 0x0A]),
           Errorf ''Unable to update the output path for the new release manager chart. Skipping.'']\<rparr>)
   \<and> release_ToString failing_Externals (heap ex_World 2) (VerboseMode (Import_Config dry_Import))
         @ [CHR 0x0A]
       \<notin> set (printed (events (snd (Import_deployReleases failing_Externals dry_Import [2] []
                                      ex_World))))"
proof -
  have dry: "DryRun (Import_Config dry_Import)"
    by (simp add: dry_Import_def ex_Config_def)
  have run: "Import_deployReleases failing_Externals dry_Import [2] [] ex_World =
       (Returns None,
        ex_World\<lparr>events :=
          [Printf (''Deploying release mgr to namespace default'' @ [CHR 0x0A]),
           Errorf ''Unable to update the output path for the new release manager chart. Skipping.'']\<rparr>)"
    unfolding Import_deployReleases_dry_fold [OF dry]
    by (simp add: Import_deployReleases_body_def Import_deployReleases_start_def
        Import_updateManagerRelease_def Import_updateManagerStoragePath_def emit_def Let_def
        failing_Externals_def ex_Externals_def dry_Import_def ex_State_read_def ex_State_def
        ex_Info_def ex_Config_def ex_World_def ex_heap_def ex_Release_def)
  show ?thesis
    unfolding run using dry
    by (simp add: failing_Externals_def ex_Externals_def ex_World_def ex_heap_def ex_Release_def)
qed

text \<open>Claim C9, amended. With the dry-run flag, \<open>deployReleases\<close> of both packages submits
  no release to \<open>Install\<close> and leaves the cluster as it is, under every schedule. The
  call returns \<open>nil\<close>, and its effect is that of taking the releases of the batch in order
  and, for each: announcing it (and, in the import, moving it to the target namespace),
  rewriting the manager's path, and then printing the rendering of the release by
  \<open>release.ToString\<close> followed by a newline, or, when the rewrite has failed, logging
  the error with no rendering. When no new path is configured no rewrite is attempted:
  every release of the batch is rendered and printed, and the lines printed are the
  announcement and the rendering of each release in the order of the batch (in the
  import, for a batch without a repeated release). For the transfer the effect is
  stated for a \<open>t.State\<close> that is not \<open>nil\<close>, as \<open>Run\<close> has it.\<close>

theorem deployReleases_dry_run:
  assumes "DryRun (Import_Config t)" and "DryRun (Transfer_Config t')"
  shows "Import_deployReleases ext t releases sched w =
           (Returns None,
            foldl (\<lambda>w r. case Import_updateManagerRelease ext t r (Import_deployReleases_start t r w) of
                            (Inl err, w3) \<Rightarrow>
                              emit (Errorf ''Unable to update the output path for the new release manager chart. Skipping.'') w3
                          | (Inr r', w3) \<Rightarrow>
                              emit (Printf (release_ToString ext (heap w3 r')
                                              (VerboseMode (Import_Config t)) @ [CHR 0x0A])) w3)
              w releases)
       \<and> installs (events (snd (Import_deployReleases ext t releases sched w))) = installs (events w)
       \<and> cluster (snd (Import_deployReleases ext t releases sched w)) = cluster w
       \<and> (Import_NewStoragePath (Import (Import_Config t)) = '''' \<longrightarrow>
            (\<forall>r \<in> set releases.
               release_ToString ext (retarget t (heap w r)) (VerboseMode (Import_Config t)) @ [CHR 0x0A]
               \<in> set (printed (events (snd (Import_deployReleases ext t releases sched w))))))
       \<and> (Import_NewStoragePath (Import (Import_Config t)) = '''' \<and> distinct releases \<longrightarrow>
            printed (events (snd (Import_deployReleases ext t releases sched w))) =
              printed (events w)
              @ concat (map (\<lambda>r. [''Deploying release '' @ Name (heap w r) @ '' to namespace ''
                                     @ Namespace (heap w r) @ [CHR 0x0A],
                                   release_ToString ext (retarget t (heap w r))
                                     (VerboseMode (Import_Config t)) @ [CHR 0x0A]]) releases))
       \<and> installs (events (snd (Transfer_deployReleases ext t' releases sched' w))) = installs (events w)
       \<and> cluster (snd (Transfer_deployReleases ext t' releases sched' w)) = cluster w
       \<and> (Transfer_State t' \<noteq> None \<longrightarrow>
            Transfer_deployReleases ext t' releases sched' w =
              (Returns None,
               foldl (\<lambda>w r. case Transfer_updateManagerRelease ext t' r
                                    (emit (Printf (''Deploying release: '' @ Name (heap w r)
                                                   @ [CHR 0x0A])) w) of
                               (Returns (Inl err), w2) \<Rightarrow>
                                 emit (Errorf ''Unable to update the output path for the new release manager chart. Skipping.'') w2
                             | (Returns (Inr r'), w2) \<Rightarrow>
                                 emit (Printf (release_ToString ext (heap w2 r')
                                                 (VerboseMode (Transfer_Config t')) @ [CHR 0x0A])) w2
                             | (other, w2) \<Rightarrow> w2)
                 w releases))
       \<and> (Transfer_State t' \<noteq> None
          \<and> Transfer_NewStoragePath (Transfer (Transfer_Config t')) = '''' \<longrightarrow>
            printed (events (snd (Transfer_deployReleases ext t' releases sched' w))) =
              printed (events w)
              @ concat (map (\<lambda>r. [''Deploying release: '' @ Name (heap w r) @ [CHR 0x0A],
                                   release_ToString ext (heap w r) (VerboseMode (Transfer_Config t'))
                                   @ [CHR 0x0A]]) releases))"
proof -
  note i = Import_deployReleases_dry_fold [OF assms(1), where ext = ext and releases = releases
      and sched = sched and w = w]
  have ie: "(\<lambda>w r. snd (Import_deployReleases_body ext t r w)) =
            (\<lambda>w r. case Import_updateManagerRelease ext t r (Import_deployReleases_start t r w) of
                            (Inl err, w3) \<Rightarrow>
                              emit (Errorf ''Unable to update the output path for the new release manager chart. Skipping.'') w3
                          | (Inr r', w3) \<Rightarrow>
                              emit (Printf (release_ToString ext (heap w3 r')
                                              (VerboseMode (Import_Config t)) @ [CHR 0x0A])) w3)"
    by (intro ext) (rule Import_deployReleases_body_dry_eq [OF assms(1)])
  have c1: "Import_deployReleases ext t releases sched w =
           (Returns None,
            foldl (\<lambda>w r. case Import_updateManagerRelease ext t r (Import_deployReleases_start t r w) of
                            (Inl err, w3) \<Rightarrow>
                              emit (Errorf ''Unable to update the output path for the new release manager chart. Skipping.'') w3
                          | (Inr r', w3) \<Rightarrow>
                              emit (Printf (release_ToString ext (heap w3 r')
                                              (VerboseMode (Import_Config t)) @ [CHR 0x0A])) w3)
              w releases)"
    using i unfolding ie .
  have c2: "installs (events (snd (Import_deployReleases ext t releases sched w))) = installs (events w)"
    and c3: "cluster (snd (Import_deployReleases ext t releases sched w)) = cluster w"
    using Import_dry_fold_frame [OF assms(1), where ext = ext and w = w and releases = releases] by (simp_all add: i)
  have c4: "Import_NewStoragePath (Import (Import_Config t)) = '''' \<Longrightarrow>
            \<forall>r \<in> set releases.
               release_ToString ext (retarget t (heap w r)) (VerboseMode (Import_Config t)) @ [CHR 0x0A]
               \<in> set (printed (events (snd (Import_deployReleases ext t releases sched w))))"
    using Import_dry_fold_rendered [OF assms(1), where ext = ext and w = w and releases = releases] by (auto simp: i)
  have c5: "Import_NewStoragePath (Import (Import_Config t)) = '''' \<Longrightarrow> distinct releases \<Longrightarrow>
            printed (events (snd (Import_deployReleases ext t releases sched w))) =
              printed (events w)
              @ concat (map (\<lambda>r. [''Deploying release '' @ Name (heap w r) @ '' to namespace ''
                                     @ Namespace (heap w r) @ [CHR 0x0A],
                                   release_ToString ext (retarget t (heap w r))
                                     (VerboseMode (Import_Config t)) @ [CHR 0x0A]]) releases)"
    using Import_dry_fold_printed [OF assms(1), where ext = ext and w = w and releases = releases] by (simp add: i)
  have c6: "installs (events (snd (Transfer_deployReleases ext t' releases sched' w))) = installs (events w)"
    and c7: "cluster (snd (Transfer_deployReleases ext t' releases sched' w)) = cluster w"
    using Transfer_deployReleases_dry_frame [OF assms(2), where ext = ext and releases = releases
        and sched = sched' and w = w] by simp_all
  have te: "Transfer_State t' \<noteq> None \<Longrightarrow>
            (\<lambda>w r. snd (Transfer_deployReleases_body ext t' r w)) =
            (\<lambda>w r. case Transfer_updateManagerRelease ext t' r
                                    (emit (Printf (''Deploying release: '' @ Name (heap w r)
                                                   @ [CHR 0x0A])) w) of
                               (Returns (Inl err), w2) \<Rightarrow>
                                 emit (Errorf ''Unable to update the output path for the new release manager chart. Skipping.'') w2
                             | (Returns (Inr r'), w2) \<Rightarrow>
                                 emit (Printf (release_ToString ext (heap w2 r')
                                                 (VerboseMode (Transfer_Config t')) @ [CHR 0x0A])) w2
                             | (other, w2) \<Rightarrow> w2)"
    by (intro ext) (rule Transfer_deployReleases_body_dry_eq [OF assms(2)])
  have c8: "Transfer_State t' \<noteq> None \<Longrightarrow>
            Transfer_deployReleases ext t' releases sched' w =
              (Returns None,
               foldl (\<lambda>w r. case Transfer_updateManagerRelease ext t' r
                                    (emit (Printf (''Deploying release: '' @ Name (heap w r)
                                                   @ [CHR 0x0A])) w) of
                               (Returns (Inl err), w2) \<Rightarrow>
                                 emit (Errorf ''Unable to update the output path for the new release manager chart. Skipping.'') w2
                             | (Returns (Inr r'), w2) \<Rightarrow>
                                 emit (Printf (release_ToString ext (heap w2 r')
                                                 (VerboseMode (Transfer_Config t')) @ [CHR 0x0A])) w2
                             | (other, w2) \<Rightarrow> w2)
                 w releases)"
    using Transfer_deployReleases_dry_fold [OF assms(2), where ext = ext and releases = releases
        and sched = sched' and w = w] te by simp
  have c9: "Transfer_State t' \<noteq> None \<Longrightarrow>
            Transfer_NewStoragePath (Transfer (Transfer_Config t')) = '''' \<Longrightarrow>
            printed (events (snd (Transfer_deployReleases ext t' releases sched' w))) =
              printed (events w)
              @ concat (map (\<lambda>r. [''Deploying release: '' @ Name (heap w r) @ [CHR 0x0A],
                                   release_ToString ext (heap w r) (VerboseMode (Transfer_Config t'))
                                   @ [CHR 0x0A]]) releases)"
    using Transfer_dry_fold_printed [OF assms(2), where ext = ext and w = w and releases = releases]
      Transfer_deployReleases_dry_fold [OF assms(2), where ext = ext and releases = releases
        and sched = sched' and w = w] by simp
  show ?thesis
    using c1 c2 c3 c4 c5 c6 c7 c8 c9 by blast
qed

text \<open>A batch of the release \<open>a\<close> and the manager's release, with a new path configured.\<close>

theorem deployReleases_dry_run_witness:
  "DryRun (Import_Config dry_Import) \<and> DryRun (Transfer_Config dry_Transfer)
   \<and> installs (events (snd (Import_deployReleases ex_Externals dry_Import [0, 2]
                              [Body 0, Main, Deferred] ex_World))) = []
   \<and> printed (events (snd (Import_deployReleases ex_Externals dry_Import [0, 2]
                             [Body 0, Main, Deferred] ex_World))) =
       [''Deploying release a to namespace default'' @ [CHR 0x0A], ''a.default'' @ [CHR 0x0A],
        ''Deploying release mgr to namespace default'' @ [CHR 0x0A], ''mgr.default'' @ [CHR 0x0A]]
   \<and> installs (events (snd (Transfer_deployReleases ex_Externals dry_Transfer [0, 2]
                              [Main, Body 0, Main] ex_World))) = []
   \<and> printed (events (snd (Transfer_deployReleases ex_Externals dry_Transfer [0, 2]
                             [Main, Body 0, Main] ex_World))) =
       [''Deploying release: a'' @ [CHR 0x0A], ''a.default'' @ [CHR 0x0A],
        ''Deploying release: mgr'' @ [CHR 0x0A], ''mgr.default'' @ [CHR 0x0A]]"
proof -
  have dry: "DryRun (Import_Config dry_Import)" "DryRun (Transfer_Config dry_Transfer)"
    by (simp_all add: dry_Import_def dry_Transfer_def ex_Config_def)
  have i: "printed (events (snd (Import_deployReleases ex_Externals dry_Import [0, 2]
                             [Body 0, Main, Deferred] ex_World))) =
       [''Deploying release a to namespace default'' @ [CHR 0x0A], ''a.default'' @ [CHR 0x0A],
        ''Deploying release mgr to namespace default'' @ [CHR 0x0A], ''mgr.default'' @ [CHR 0x0A]]"
    by code_simp
  have t: "printed (events (snd (Transfer_deployReleases ex_Externals dry_Transfer [0, 2]
                             [Main, Body 0, Main] ex_World))) =
       [''Deploying release: a'' @ [CHR 0x0A], ''a.default'' @ [CHR 0x0A],
        ''Deploying release: mgr'' @ [CHR 0x0A], ''mgr.default'' @ [CHR 0x0A]]"
    by code_simp
  have e: "installs (events ex_World) = []"
    by (simp add: ex_World_def)
  note run = deployReleases_dry_run [OF dry, where ext = ex_Externals and releases = "[0, 2]"
        and w = ex_World and sched = "[Body 0, Main, Deferred]" and sched' = "[Main, Body 0, Main]"]
  from run have a: "installs (events (snd (Import_deployReleases ex_Externals dry_Import [0, 2]
                              [Body 0, Main, Deferred] ex_World))) = installs (events ex_World)"
    by blast
  from run have b: "installs (events (snd (Transfer_deployReleases ex_Externals dry_Transfer [0, 2]
                              [Main, Body 0, Main] ex_World))) = installs (events ex_World)"
    by blast
  show ?thesis
    using a b dry i t e by simp
qed

section \<open>The stored releases\<close>

text \<open>Once the listing has succeeded and the pattern has compiled, \<open>StoredReleases\<close>
  returns no error, whatever the goroutines do.\<close>

lemma StoredReleases_no_error:
  assumes "StoredReleaseNames ext s w = (Inr filenames, w')"
  shows "\<exists>releases. fst (StoredReleases ext s sched w) = Inr releases"
  using assms by (simp add: StoredReleases_def Let_def)

lemma StoredReleaseNames_two_store:
  "StoredReleaseNames ex_Externals ex_State (ex_World\<lparr>store := two_store\<rparr>) =
     (Inr [''a.release'', ''c.release''],
      ex_World\<lparr>store := two_store,
        events := [Debugf ''Finding releases stored in the backend.'', BackendList ''bucket'']\<rparr>)"
  by (simp add: StoredReleaseNames_def Backend_List_def emit_def ex_State_def ex_Externals_def
      ex_World_def two_store_def mem_Backend_def ex_Config_def)

lemma ReadRelease_two_store:
  "store w = two_store \<Longrightarrow>
   fst (ReadRelease ex_Externals ex_State ''a.release'' w) = Inr (decoded_Release ''a'')
   \<and> fst (ReadRelease ex_Externals ex_State ''c.release'' w) = Inr (decoded_Release ''c'')
   \<and> store (snd (ReadRelease ex_Externals ex_State ''a.release'' w)) = two_store
   \<and> store (snd (ReadRelease ex_Externals ex_State ''c.release'' w)) = two_store"
  by (simp add: ReadRelease_def Backend_Read_def emit_def remoteFilePath_def ex_State_def
      ex_Externals_def two_store_def mem_Backend_def ex_Config_def decoded_Release_def Let_def)

text \<open>Claim C8. \<open>StoredReleases\<close> is to return exactly the releases that decode from the
  files of the listing that carry the release extension. It does not: the goroutines
  run \<open>*ret = append(*ret, r)\<close> with no lock. The store holds the files of the releases
  \<open>a\<close> and \<open>c\<close>, which both decode, and the state file. When both goroutines have loaded
  the empty slice before either stores, the second store overwrites the first, and the
  call returns the release \<open>c\<close> alone, with no error. When the goroutines run one after
  the other the call returns both releases, and not the state file.\<close>

theorem StoredReleases_loses_a_release:
  "decodes ex_Externals ex_State two_store ''a.release'' = Some (decoded_Release ''a'')
   \<and> decodes ex_Externals ex_State two_store ''c.release'' = Some (decoded_Release ''c'')
   \<and> fst (StoredReleases ex_Externals ex_State
             [Decode 0, Decode 0, Load 0, Load 0, Store 0, Store 0]
             (ex_World\<lparr>store := two_store\<rparr>)) = Inr [decoded_Release ''c'']
   \<and> fst (StoredReleases ex_Externals ex_State [] (ex_World\<lparr>store := two_store\<rparr>)) =
       Inr [decoded_Release ''a'', decoded_Release ''c'']"
proof -
  let ?w0 = "ex_World\<lparr>store := two_store,
        events := [Debugf ''Finding releases stored in the backend.'', BackendList ''bucket'']\<rparr>"
  have s0: "store ?w0 = two_store" by simp
  obtain w1 where r1: "ReadRelease ex_Externals ex_State ''a.release'' ?w0 =
                         (Inr (decoded_Release ''a''), w1)" and s1: "store w1 = two_store"
    using ReadRelease_two_store [OF s0] by (metis prod.collapse)
  obtain w2 where r2: "ReadRelease ex_Externals ex_State ''c.release'' w1 =
                         (Inr (decoded_Release ''c''), w2)"
    using ReadRelease_two_store [OF s1] by (metis prod.collapse)
  have d: "decodes ex_Externals ex_State two_store ''a.release'' = Some (decoded_Release ''a'')"
    "decodes ex_Externals ex_State two_store ''c.release'' = Some (decoded_Release ''c'')"
    by (simp_all add: decodes_def remoteFilePath_def ex_State_def
      ex_Externals_def two_store_def mem_Backend_def ex_Config_def decoded_Release_def)
  have a1: "StoredReleases_step ex_Externals ex_State (Decode 0)
       \<lparr>ret = [], pending = [''a.release'', ''c.release''], decoded = [], loaded = [], reading_world = ?w0\<rparr> =
     \<lparr>ret = [], pending = [''c.release''], decoded = [decoded_Release ''a''], loaded = [], reading_world = w1\<rparr>"
    by (simp add: StoredReleases_step_def remove_at_def r1 r2)
  have a2: "StoredReleases_step ex_Externals ex_State (Decode 0)
       \<lparr>ret = [], pending = [''c.release''], decoded = [decoded_Release ''a''], loaded = [], reading_world = w1\<rparr> =
     \<lparr>ret = [], pending = [], decoded = [decoded_Release ''a'', decoded_Release ''c''], loaded = [], reading_world = w2\<rparr>"
    by (simp add: StoredReleases_step_def remove_at_def r1 r2)
  have a3: "StoredReleases_step ex_Externals ex_State (Load 0)
       \<lparr>ret = [], pending = [], decoded = [decoded_Release ''a'', decoded_Release ''c''], loaded = [], reading_world = w2\<rparr> =
     \<lparr>ret = [], pending = [], decoded = [decoded_Release ''c''], loaded = [([], decoded_Release ''a'')], reading_world = w2\<rparr>"
    by (simp add: StoredReleases_step_def remove_at_def r1 r2)
  have a4: "StoredReleases_step ex_Externals ex_State (Load 0)
       \<lparr>ret = [], pending = [], decoded = [decoded_Release ''c''], loaded = [([], decoded_Release ''a'')], reading_world = w2\<rparr> =
     \<lparr>ret = [], pending = [], decoded = [], loaded = [([], decoded_Release ''a''), ([], decoded_Release ''c'')], reading_world = w2\<rparr>"
    by (simp add: StoredReleases_step_def remove_at_def r1 r2)
  have a5: "StoredReleases_step ex_Externals ex_State (Store 0)
       \<lparr>ret = [], pending = [], decoded = [], loaded = [([], decoded_Release ''a''), ([], decoded_Release ''c'')], reading_world = w2\<rparr> =
     \<lparr>ret = [decoded_Release ''a''], pending = [], decoded = [], loaded = [([], decoded_Release ''c'')], reading_world = w2\<rparr>"
    by (simp add: StoredReleases_step_def remove_at_def r1 r2)
  have a6: "StoredReleases_step ex_Externals ex_State (Store 0)
       \<lparr>ret = [decoded_Release ''a''], pending = [], decoded = [], loaded = [([], decoded_Release ''c'')], reading_world = w2\<rparr> =
     \<lparr>ret = [decoded_Release ''c''], pending = [], decoded = [], loaded = [], reading_world = w2\<rparr>"
    by (simp add: StoredReleases_step_def remove_at_def r1 r2)
  have b1: "StoredReleases_step ex_Externals ex_State (Load 0)
       \<lparr>ret = [], pending = [''c.release''], decoded = [decoded_Release ''a''], loaded = [], reading_world = w1\<rparr> =
     \<lparr>ret = [], pending = [''c.release''], decoded = [], loaded = [([], decoded_Release ''a'')], reading_world = w1\<rparr>"
    by (simp add: StoredReleases_step_def remove_at_def r1 r2)
  have b2: "StoredReleases_step ex_Externals ex_State (Store 0)
       \<lparr>ret = [], pending = [''c.release''], decoded = [], loaded = [([], decoded_Release ''a'')], reading_world = w1\<rparr> =
     \<lparr>ret = [decoded_Release ''a''], pending = [''c.release''], decoded = [], loaded = [], reading_world = w1\<rparr>"
    by (simp add: StoredReleases_step_def remove_at_def r1 r2)
  have b3: "StoredReleases_step ex_Externals ex_State (Decode 0)
       \<lparr>ret = [decoded_Release ''a''], pending = [''c.release''], decoded = [], loaded = [], reading_world = w1\<rparr> =
     \<lparr>ret = [decoded_Release ''a''], pending = [], decoded = [decoded_Release ''c''], loaded = [], reading_world = w2\<rparr>"
    by (simp add: StoredReleases_step_def remove_at_def r1 r2)
  have b4: "StoredReleases_step ex_Externals ex_State (Load 0)
       \<lparr>ret = [decoded_Release ''a''], pending = [], decoded = [decoded_Release ''c''], loaded = [], reading_world = w2\<rparr> =
     \<lparr>ret = [decoded_Release ''a''], pending = [], decoded = [], loaded = [([decoded_Release ''a''], decoded_Release ''c'')], reading_world = w2\<rparr>"
    by (simp add: StoredReleases_step_def remove_at_def r1 r2)
  have b5: "StoredReleases_step ex_Externals ex_State (Store 0)
       \<lparr>ret = [decoded_Release ''a''], pending = [], decoded = [], loaded = [([decoded_Release ''a''], decoded_Release ''c'')], reading_world = w2\<rparr> =
     \<lparr>ret = [decoded_Release ''a'', decoded_Release ''c''], pending = [], decoded = [], loaded = [], reading_world = w2\<rparr>"
    by (simp add: StoredReleases_step_def remove_at_def r1 r2)
  have lost: "fst (StoredReleases ex_Externals ex_State
             [Decode 0, Decode 0, Load 0, Load 0, Store 0, Store 0]
             (ex_World\<lparr>store := two_store\<rparr>)) = Inr [decoded_Release ''c'']"
    by (simp add: StoredReleases_def StoredReleaseNames_two_store StoredReleases_Wait_def
        a1 a2 a3 a4 a5 a6)
  have seq: "fst (StoredReleases ex_Externals ex_State [] (ex_World\<lparr>store := two_store\<rparr>)) =
       Inr [decoded_Release ''a'', decoded_Release ''c'']"
    by (simp add: StoredReleases_def StoredReleaseNames_two_store StoredReleases_Wait_def
        a1 b1 b2 b3 b4 b5)
  show ?thesis using d lost seq by simp
qed

section \<open>The value overrides\<close>

lemma updateValues_range_success:
  assumes "UpdateValue_in_place ext" and "distinct (map fst kvs)"
    and "updateValues_range ext kvs r h = (None, h')"
  shows "(\<forall>k v. (k, v) \<in> set kvs \<longrightarrow> Values (h' r) k = Some v)
       \<and> (\<forall>k. k \<notin> fst ` set kvs \<longrightarrow> Values (h' r) k = Values (h r) k)
       \<and> (\<forall>a. a \<noteq> r \<longrightarrow> h' a = h a)
       \<and> (\<forall>k v. (k, v) \<in> set kvs \<longrightarrow> (\<exists>h0. \<not> isl (fst (release_UpdateValue ext h0 r k v))))"
  using assms(2,3)
proof (induction kvs arbitrary: h)
  case Nil
  then show ?case by simp
next
  case (Cons kv kvs)
  obtain k v where kv: "kv = (k, v)" by (cases kv)
  obtain res h1 where up: "release_UpdateValue ext h r k v = (res, h1)" by (metis surj_pair)
  from Cons.prems(2) kv up obtain r' where res: "res = Inr r'"
    by (cases res) auto
  have ip: "r' = r" "Values (h1 r) k = Some v"
      "\<forall>k'. k' \<noteq> k \<longrightarrow> Values (h1 r) k' = Values (h r) k'"
      "\<forall>a. a \<noteq> r \<longrightarrow> h1 a = h a"
    using assms(1) up res unfolding UpdateValue_in_place_def by blast+
  have rest: "updateValues_range ext kvs r h1 = (None, h')"
    using Cons.prems(2) kv up res ip(1) by simp
  have d: "distinct (map fst kvs)" and nk: "k \<notin> fst ` set kvs"
    using Cons.prems(1) kv by auto
  note IH = Cons.IH [OF d rest]
  have ok: "\<not> isl (fst (release_UpdateValue ext h r k v))"
    using up res by simp
  show ?case
    using IH ip nk kv ok by (auto simp: image_iff)
qed

lemma updateValues_range_failure:
  assumes "UpdateValue_in_place ext" and "updateValues_range ext kvs r h = (Some e, h')"
  shows "\<exists>k v h0. (k, v) \<in> set kvs \<and> fst (release_UpdateValue ext h0 r k v) = Inl e"
  using assms(2)
proof (induction kvs arbitrary: h)
  case Nil
  then show ?case by simp
next
  case (Cons kv kvs)
  obtain k v where kv: "kv = (k, v)" by (cases kv)
  obtain res h1 where up: "release_UpdateValue ext h r k v = (res, h1)" by (metis surj_pair)
  show ?case
  proof (cases res)
    case (Inl err)
    then have "err = e" using Cons.prems kv up by simp
    then have "fst (release_UpdateValue ext h r k v) = Inl e" using up Inl by simp
    then show ?thesis using kv by auto
  next
    case (Inr r')
    then have "r' = r" using assms(1) up unfolding UpdateValue_in_place_def by blast
    then have "updateValues_range ext kvs r h1 = (Some e, h')"
      using Cons.prems kv up Inr by simp
    from Cons.IH [OF this] show ?thesis by auto
  qed
qed


lemma range_enumerates_iff:
  assumes "range_enumerates ext m"
  shows "(k, v) \<in> set (range_map ext n m) \<longleftrightarrow> m k = Some v"
proof -
  have d: "distinct (map fst (range_map ext n m))" and m: "map_of (range_map ext n m) = m"
    using assms unfolding range_enumerates_def by blast+
  show ?thesis
    using map_of_eq_Some_iff [OF d, of k v] m by simp
qed

lemma updateValues_loop_success:
  assumes "UpdateValue_in_place ext"
    and "range_enumerates ext (Import_Values (Import (Import_Config t)))"
    and "updateValues_loop ext t n releases h = (None, h')"
  shows "(\<forall>a \<in> set releases. \<forall>k v. Import_Values (Import (Import_Config t)) k = Some v \<longrightarrow>
            Values (h' a) k = Some v
            \<and> (\<exists>h0. \<not> isl (fst (release_UpdateValue ext h0 a k v))))
       \<and> (\<forall>a. a \<notin> set releases \<longrightarrow> h' a = h a)"
  using assms(3)
proof (induction releases arbitrary: n h)
  case Nil
  then show ?case by simp
next
  case (Cons r releases)
  let ?m = "Import_Values (Import (Import_Config t))"
  let ?kvs = "range_map ext n ?m"
  obtain res h1 where inner: "updateValues_range ext ?kvs r h = (res, h1)" by (metis surj_pair)
  have res: "res = None" and rest: "updateValues_loop ext t (Suc n) releases h1 = (None, h')"
    using Cons.prems inner by (cases res; simp)+
  have d: "distinct (map fst ?kvs)"
    using assms(2) unfolding range_enumerates_def by blast
  note A = updateValues_range_success [OF assms(1) d inner [unfolded res]]
  note B = Cons.IH [OF rest]
  have mem: "\<And>k v. ?m k = Some v \<Longrightarrow> (k, v) \<in> set ?kvs"
    using range_enumerates_iff [OF assms(2)] by blast
  have r_done: "\<And>k v. ?m k = Some v \<Longrightarrow>
                  Values (h' r) k = Some v \<and> (\<exists>h0. \<not> isl (fst (release_UpdateValue ext h0 r k v)))"
  proof -
    fix k v assume kv: "?m k = Some v"
    show "Values (h' r) k = Some v \<and> (\<exists>h0. \<not> isl (fst (release_UpdateValue ext h0 r k v)))"
    proof (cases "r \<in> set releases")
      case True
      then show ?thesis using B kv by blast
    next
      case False
      then have "h' r = h1 r" using B by blast
      then show ?thesis using A mem [OF kv] by auto
    qed
  qed
  have frame: "\<And>a. a \<notin> set (r # releases) \<Longrightarrow> h' a = h a"
    using A B by auto
  show ?case
    using r_done B frame by auto
qed

lemma updateValues_loop_failure:
  assumes "UpdateValue_in_place ext"
    and "range_enumerates ext (Import_Values (Import (Import_Config t)))"
    and "updateValues_loop ext t n releases h = (Some e, h')"
  shows "\<exists>a \<in> set releases. \<exists>k v h0. Import_Values (Import (Import_Config t)) k = Some v
           \<and> fst (release_UpdateValue ext h0 a k v) = Inl e"
  using assms(3)
proof (induction releases arbitrary: n h)
  case Nil
  then show ?case by simp
next
  case (Cons r releases)
  let ?m = "Import_Values (Import (Import_Config t))"
  let ?kvs = "range_map ext n ?m"
  obtain res h1 where inner: "updateValues_range ext ?kvs r h = (res, h1)" by (metis surj_pair)
  show ?case
  proof (cases res)
    case None
    then have "updateValues_loop ext t (Suc n) releases h1 = (Some e, h')"
      using Cons.prems inner by simp
    from Cons.IH [OF this] show ?thesis by auto
  next
    case (Some err)
    then have "err = e" using Cons.prems inner by simp
    then obtain k v h0 where "(k, v) \<in> set ?kvs" "fst (release_UpdateValue ext h0 r k v) = Inl e"
      using updateValues_range_failure [OF assms(1), of ?kvs r h e h1] inner Some by blast
    then show ?thesis
      using range_enumerates_iff [OF assms(2)] by auto
  qed
qed


lemma updateValues_frame:
  "events (snd (updateValues ext t releases w)) =
     events w @ [Debugf (''Updating release values'' @ [CHR 0x0A])]
   \<and> cluster (snd (updateValues ext t releases w)) = cluster w
   \<and> store (snd (updateValues ext t releases w)) = store w"
  by (simp add: updateValues_def emit_def Let_def split: prod.splits option.splits)

lemma Import_Run_processReleases_fails:
  assumes "Releases_StoredReleases (Import_State t) w = (Inr batch, w1)"
    and "fst (processReleases ext t batch w1) = Inl e"
  shows "fst (Import_Run ext Releases_StoredReleases State_Read sched t w) = Returns (Some e)
       \<and> installs (events (snd (Import_Run ext Releases_StoredReleases State_Read sched t w))) =
           installs (events w1)
       \<and> cluster (snd (Import_Run ext Releases_StoredReleases State_Read sched t w)) = cluster w1"
proof -
  obtain w2 where p: "processReleases ext t batch w1 = (Inl e, w2)"
    using assms(2) by (metis fst_conv surj_pair)
  have "installs (events w2) = installs (events w1)" and "cluster w2 = cluster w1"
    using p updateValues_frame [of ext t "filterReleasesByNamespace t (heap w1) batch" w1]
    by (simp_all add: processReleases_def installs_append)
  then show ?thesis
    using assms(1) p by (simp add: Import_Run_def)
qed

text \<open>Claim C6. \<open>release.UpdateValue\<close> rewrites in place and every \<open>range\<close> visits each
  configured pair once. If \<open>updateValues\<close> succeeds, its result is the batch it was given,
  and every release of the batch has every configured key at its configured value. If
  it fails, its error is one that \<open>UpdateValue\<close> returned for a release of the batch and
  a configured pair; and it fails whenever some configured key of some release of the
  batch cannot be rewritten. When \<open>processReleases\<close> fails, \<open>Run\<close> returns its error and
  no release is submitted to \<open>Install\<close>.\<close>

theorem updateValues_spec:
  assumes "UpdateValue_in_place ext"
    and "range_enumerates ext (Import_Values (Import (Import_Config t)))"
  shows "(case updateValues ext t releases w of
            (Inr releases', w') \<Rightarrow>
              releases' = releases
              \<and> (\<forall>a \<in> set releases. \<forall>k v. Import_Values (Import (Import_Config t)) k = Some v \<longrightarrow>
                    Values (heap w' a) k = Some v)
          | (Inl e, w') \<Rightarrow>
              (\<exists>a \<in> set releases. \<exists>k v h0. Import_Values (Import (Import_Config t)) k = Some v
                 \<and> fst (release_UpdateValue ext h0 a k v) = Inl e))
       \<and> ((\<exists>a \<in> set releases. \<exists>k v. Import_Values (Import (Import_Config t)) k = Some v
              \<and> (\<forall>h0. isl (fst (release_UpdateValue ext h0 a k v)))) \<longrightarrow>
            isl (fst (updateValues ext t releases w)))
       \<and> (\<forall>batch w1 e. Releases_StoredReleases (Import_State t) w = (Inr batch, w1)
              \<and> fst (processReleases ext t batch w1) = Inl e \<longrightarrow>
            fst (Import_Run ext Releases_StoredReleases State_Read sched t w) = Returns (Some e)
            \<and> installs (events (snd (Import_Run ext Releases_StoredReleases State_Read sched t w))) =
                installs (events w1)
            \<and> cluster (snd (Import_Run ext Releases_StoredReleases State_Read sched t w)) = cluster w1)"
proof -
  let ?w1 = "emit (Debugf (''Updating release values'' @ [CHR 0x0A])) w"
  obtain res h' where loop: "updateValues_loop ext t 0 releases (heap ?w1) = (res, h')"
    by (metis surj_pair)
  have first: "case updateValues ext t releases w of
            (Inr releases', w') \<Rightarrow>
              releases' = releases
              \<and> (\<forall>a \<in> set releases. \<forall>k v. Import_Values (Import (Import_Config t)) k = Some v \<longrightarrow>
                    Values (heap w' a) k = Some v)
          | (Inl e, w') \<Rightarrow>
              (\<exists>a \<in> set releases. \<exists>k v h0. Import_Values (Import (Import_Config t)) k = Some v
                 \<and> fst (release_UpdateValue ext h0 a k v) = Inl e)"
  proof (cases res)
    case None
    then show ?thesis
      using loop updateValues_loop_success [OF assms loop [unfolded None]]
      by (simp add: updateValues_def Let_def)
  next
    case (Some e)
    then show ?thesis
      using loop updateValues_loop_failure [OF assms loop [unfolded Some]]
      by (simp add: updateValues_def Let_def)
  qed
  have second: "isl (fst (updateValues ext t releases w))"
    if "\<exists>a \<in> set releases. \<exists>k v. Import_Values (Import (Import_Config t)) k = Some v
              \<and> (\<forall>h0. isl (fst (release_UpdateValue ext h0 a k v)))"
  proof (cases res)
    case None
    then show ?thesis
      using that updateValues_loop_success [OF assms loop [unfolded None]] by blast
  next
    case (Some e)
    then show ?thesis
      using loop by (simp add: updateValues_def Let_def)
  qed
  show ?thesis
    using first second Import_Run_processReleases_fails by blast
qed


theorem updateValues_spec_witness:
  "UpdateValue_in_place ex_Externals
   \<and> range_enumerates ex_Externals (Import_Values (Import (Import_Config values_Import)))
   \<and> fst (updateValues ex_Externals values_Import [0, 2] ex_World) = Inr [0, 2]
   \<and> Values (heap (snd (updateValues ex_Externals values_Import [0, 2] ex_World)) 0) ''tag'' = Some ''v2''
   \<and> Values (heap (snd (updateValues ex_Externals values_Import [0, 2] ex_World)) 2) ''tag'' = Some ''v2''
   \<and> UpdateValue_in_place failing_Externals
   \<and> fst (updateValues failing_Externals values_Import [0, 2] ex_World) = Inl (Errorf_error ''bad values'')
   \<and> fst (Import_Run failing_Externals (\<lambda>s w. (Inr [0, 2], w)) (\<lambda>s w. (None, s, w)) [] values_Import
             ex_World) = Returns (Some (Errorf_error ''bad values''))
   \<and> installs (events (snd (Import_Run failing_Externals (\<lambda>s w. (Inr [0, 2], w)) (\<lambda>s w. (None, s, w)) []
                                values_Import ex_World))) = []"
proof -
  have a1: "UpdateValue_in_place ex_Externals"
    by (auto simp: UpdateValue_in_place_def ex_Externals_def)
  have a1': "UpdateValue_in_place failing_Externals"
    by (simp add: UpdateValue_in_place_def failing_Externals_def ex_Externals_def)
  have m: "Import_Values (Import (Import_Config values_Import)) = [''tag'' \<mapsto> ''v2'']"
    by (simp add: values_Import_def ex_Import_def ex_Config_def)
  have a2: "range_enumerates ex_Externals (Import_Values (Import (Import_Config values_Import)))"
    unfolding m by (simp add: range_enumerates_def ex_Externals_def)
  have a2': "range_enumerates failing_Externals (Import_Values (Import (Import_Config values_Import)))"
    unfolding m by (simp add: range_enumerates_def failing_Externals_def ex_Externals_def)
  have ok: "fst (updateValues ex_Externals values_Import [0, 2] ex_World) = Inr [0, 2]"
    by (simp add: updateValues_def Let_def m ex_Externals_def emit_def)
  have bad: "fst (updateValues failing_Externals values_Import [0, 2] ex_World) =
               Inl (Errorf_error ''bad values'')"
    by (simp add: updateValues_def Let_def m failing_Externals_def ex_Externals_def emit_def)
  have flt: "filterReleasesByNamespace values_Import (heap ex_World) [0, 2] = [0, 2]"
    by (simp add: filterReleasesByNamespace_def values_Import_def ex_Import_def ex_Config_def)
  have bad': "fst (processReleases failing_Externals values_Import [0, 2] ex_World) =
               Inl (Errorf_error ''bad values'')"
    unfolding processReleases_def flt by (rule bad)
  have e: "installs (events ex_World) = []" by (simp add: ex_World_def)
  obtain w' where u: "updateValues ex_Externals values_Import [0, 2] ex_World = (Inr [0, 2], w')"
    using ok by (metis prod.collapse)
  have "\<forall>a \<in> set [0, 2]. \<forall>k v. Import_Values (Import (Import_Config values_Import)) k = Some v \<longrightarrow>
          Values (heap w' a) k = Some v"
    using updateValues_spec [OF a1 a2, where releases = "[0, 2]" and w = ex_World, THEN conjunct1]
    by (simp add: u)
  then have "Values (heap w' 0) ''tag'' = Some ''v2''" "Values (heap w' 2) ''tag'' = Some ''v2''"
    by (simp_all add: m)
  moreover have "snd (updateValues ex_Externals values_Import [0, 2] ex_World) = w'"
    by (simp add: u)
  ultimately have vals:
    "Values (heap (snd (updateValues ex_Externals values_Import [0, 2] ex_World)) 0) ''tag'' = Some ''v2''"
    "Values (heap (snd (updateValues ex_Externals values_Import [0, 2] ex_World)) 2) ''tag'' = Some ''v2''"
    by simp_all
  have run: "fst (Import_Run failing_Externals (\<lambda>s w. (Inr [0, 2], w)) (\<lambda>s w. (None, s, w)) [] values_Import
             ex_World) = Returns (Some (Errorf_error ''bad values''))"
    "installs (events (snd (Import_Run failing_Externals (\<lambda>s w. (Inr [0, 2], w)) (\<lambda>s w. (None, s, w)) []
                                values_Import ex_World))) = installs (events ex_World)"
    using updateValues_spec [OF a1' a2', where releases = "[0, 2]" and w = ex_World
        and Releases_StoredReleases = "\<lambda>s w. (Inr [0, 2], w)" and State_Read = "\<lambda>s w. (None, s, w)" and sched = "[]",
        THEN conjunct2, THEN conjunct2] bad'
    by blast+
  show ?thesis
    using a1 a1' a2 ok bad vals run e by simp
qed

end
